theory Spec2Isabelle
  imports Main "HOL-Library.AList"
begin

section \<open>Python values used by the container engine\<close>

text \<open>
  The two modules \<^verbatim>\<open>lxdock/container.py\<close> and \<^verbatim>\<open>nomad/container.py\<close> are two
  generations of one class \<^verbatim>\<open>Container\<close>. Where their text agrees up to the product
  name, one definition with a \<open>variant\<close> argument embeds both; where they differ, each has
  a definition of its own, prefixed \<open>lxdock_\<close> or \<open>nomad_\<close>.
\<close>

datatype variant = LXDock | Nomad

definition product :: "variant \<Rightarrow> string" where
  "product v = (case v of LXDock \<Rightarrow> ''lxdock'' | Nomad \<Rightarrow> ''nomad'')"

text \<open>A Python \<^verbatim>\<open>dict\<close> with string keys: insertion ordered, one entry per key.\<close>

type_synonym 'v dict = "(string \<times> 'v) list"

text \<open>\<^verbatim>\<open>s[:n]\<close> for an integer \<open>n\<close>: a negative bound counts from the end.\<close>

definition py_slice_to :: "'a list \<Rightarrow> int \<Rightarrow> 'a list" where
  "py_slice_to s n = (if 0 \<le> n then take (nat n) s else take (length s - nat (- n)) s)"

text \<open>\<^verbatim>\<open>str(i)\<close> for a natural number: its decimal digits.\<close>

definition digit_char :: "nat \<Rightarrow> char" where
  "digit_char d = char_of (48 + d)"

fun str_nat :: "nat \<Rightarrow> string" where
  "str_nat n = (if n < 10 then [digit_char n] else str_nat (n div 10) @ [digit_char (n mod 10)])"

declare str_nat.simps [simp del]

text \<open>\<^verbatim>\<open>os.path.join(a, b)\<close> on a POSIX host.\<close>

definition path_join :: "string \<Rightarrow> string \<Rightarrow> string" where
  "path_join a b =
     (if b \<noteq> [] \<and> hd b = CHR ''/'' then b
      else if a = [] \<or> last a = CHR ''/'' then a @ b
      else a @ ''/'' @ b)"

text \<open>\<^verbatim>\<open>str.lower\<close> on ASCII text.\<close>

definition lower_char :: "char \<Rightarrow> char" where
  "lower_char c = (let n = (of_char c :: nat) in if 65 \<le> n \<and> n \<le> 90 then char_of (n + 32) else c)"

definition lower :: "string \<Rightarrow> string" where
  "lower s = map lower_char s"

text \<open>\<^verbatim>\<open>str.startswith\<close>.\<close>

definition startswith :: "string \<Rightarrow> string \<Rightarrow> bool" where
  "startswith s p = (take (length p) s = p)"


section \<open>Data model\<close>

text \<open>
  The declarative options of one container (the keyword arguments of
  \<^verbatim>\<open>Container.__init__\<close>). A field of option type is a key that may be missing from
  \<^verbatim>\<open>self.options\<close>; a list or dict that is read with \<^verbatim>\<open>.get(key, [])\<close> is the empty one
  when the key is missing.
\<close>

record share =
  source :: string
  dest :: string
  set_host_acl :: "bool option"

record user_config =
  user_name :: string
  user_home :: "string option"
  user_password :: "string option"

record shell_config =
  shell_user :: "string option"
  shell_home :: "string option"

record options =
  opt_name :: string
  opt_image :: string
  opt_privileged :: bool
  opt_mode :: "string option"
  opt_protocol :: "string option"
  opt_server :: "string option"
  opt_lxc_config :: "string dict"
  opt_profiles :: "string list"
  opt_shares :: "share list option"
  opt_hostnames :: "string list"
  opt_users :: "user_config list"
  opt_environment :: "string dict"
  opt_provisioning :: "string list"
  opt_shell :: shell_config

text \<open>
  \<open>opt_provisioning\<close> keeps of each provisioning item its \<^verbatim>\<open>'type'\<close>, the one key
  the class reads; \<open>opt_environment\<close> holds the values after \<^verbatim>\<open>str(value)\<close>.
\<close>

record descriptor =
  project_name :: string
  homedir :: string
  options :: options

text \<open>
  The object of the daemon's client library: a status code, the key/value configuration
  and the device map, whose entries are \<^verbatim>\<open>{type, source, path}\<close>.
\<close>

datatype status = CONTAINER_RUNNING | CONTAINER_STOPPED | CONTAINER_OTHER

record device =
  dev_type :: string
  dev_source :: string
  dev_path :: string

record pylxd_container =
  status_code :: status
  config :: "string dict"
  devices :: "device dict"

datatype ProvisioningMode = AUTO | ENABLED | DISABLED


section \<open>The identity resolver\<close>

text \<open>
  \<^verbatim>\<open>Container.lxd_name\<close>. The directory identifier \<^verbatim>\<open>folderid(self.homedir)\<close> comes from
  \<^verbatim>\<open>utils/identifier.py\<close>, which is not among the sources: it is the argument
  \<open>project_id\<close>.
\<close>

definition lxd_name_of :: "string \<Rightarrow> string \<Rightarrow> string \<Rightarrow> string" where
  "lxd_name_of project name project_id =
     (let lxd_name_prefix = project @ ''-'' @ name
      in py_slice_to lxd_name_prefix (63 - int (length project_id)) @ ''-'' @ project_id)"


section \<open>Effects\<close>

text \<open>
  Every call the class makes on a collaborator (the daemon's client, the guest and host
  adapters, the provisioners, the resolution file, the logger, the clock) is recorded as
  an \<open>event\<close>, in the order of the calls.
\<close>

datatype level = INFO | WARN | ERROR

record create_spec =
  spec_name :: string
  spec_alias :: string
  spec_mode :: string
  spec_protocol :: string
  spec_server :: string
  spec_config :: "string dict"
  spec_profiles :: "string list option"

datatype event =
    Log level string
  | ContainersGet string
  | ContainersCreate create_spec
  | Start
  | Stop "nat option" "bool option"
  | Delete
  | Save
  | GetIp
  | Sleep nat
  | FindFreeIp
  | SetStaticIp string string
  | EtcHostsSave
  | CreateUser string "string option" "string option"
  | GetSshPubkey
  | AddSshPubkey string
  | GuestRun "string list"
  | FilesPut string
  | AclCurrentUser string
  | AclMappedUser string "string option"
  | ProvisionerSetup string
  | ProvisionerProvision string
  | PrepareDebian
  | ProvisionWithAnsible string
  | SubprocessCall string

text \<open>
  \<open>Stop timeout force\<close> carries the keyword arguments as the caller passes them
  (\<open>None\<close>: left to the client library's default). \<open>AclCurrentUser\<close> and
  \<open>AclMappedUser\<close> are the host-side grants: \<^verbatim>\<open>give_current_user_access_to_share\<close> and
  \<^verbatim>\<open>give_mapped_user_access_to_share\<close> in lxdock, the two \<^verbatim>\<open>setfacl\<close> subprocesses in
  nomad.
\<close>

definition daemon_mutation :: "event \<Rightarrow> bool" where
  "daemon_mutation e =
     (case e of ContainersCreate _ \<Rightarrow> True | Start \<Rightarrow> True | Stop _ _ \<Rightarrow> True
        | Delete \<Rightarrow> True | Save \<Rightarrow> True | _ \<Rightarrow> False)"

definition guest_command :: "event \<Rightarrow> bool" where
  "guest_command e =
     (case e of CreateUser _ _ _ \<Rightarrow> True | AddSshPubkey _ \<Rightarrow> True | GuestRun _ \<Rightarrow> True
        | FilesPut _ \<Rightarrow> True | ProvisionerSetup _ \<Rightarrow> True | ProvisionerProvision _ \<Rightarrow> True
        | PrepareDebian \<Rightarrow> True | ProvisionWithAnsible _ \<Rightarrow> True | SetStaticIp _ _ \<Rightarrow> True
        | SubprocessCall _ \<Rightarrow> True | _ \<Rightarrow> False)"

definition acl_grant :: "event \<Rightarrow> bool" where
  "acl_grant e = (case e of AclCurrentUser _ \<Rightarrow> True | AclMappedUser _ _ \<Rightarrow> True | _ \<Rightarrow> False)"

text \<open>
  What the collaborators answer is not decided by the class: it is a parameter of every
  operation. \<open>ip_at n\<close> is the answer of the \<open>n\<close>-th address query of the run (the
  empty string: no address yet); \<open>create_fails\<close> and \<open>graceful_stop_fails\<close> say
  whether the daemon rejects the creation and the graceful stop with an
  \<^verbatim>\<open>LXDAPIException\<close>; \<open>start_status\<close> is the status the daemon reports after a start;
  \<open>registered\<close> are the keys of \<^verbatim>\<open>Provisioner.provisioners\<close>; \<open>free_ip\<close> is the
  pair \<^verbatim>\<open>find_free_ip\<close> returns.
\<close>

record collaborators =
  folderid :: "string \<Rightarrow> string"
  create_fails :: bool
  start_status :: status
  graceful_stop_fails :: bool
  ip_at :: "nat \<Rightarrow> string"
  ssh_pubkey :: "string option"
  registered :: "string list"
  free_ip :: "string \<times> string"

text \<open>
  The state: \<open>remote\<close> is the daemon's object of this container's name (\<open>None\<close>:
  the daemon answers \<^verbatim>\<open>NotFound\<close>); \<open>handle\<close> is the memoised
  \<^verbatim>\<open>self._pylxd_container\<close> (\<open>None\<close>: the attribute is not set yet), the client-side copy
  that the class reads and changes and that \<^verbatim>\<open>save\<close> sends to the daemon;
  \<open>hosts_file\<close> is the managed part of the host resolution file; \<open>polls\<close> counts the
  address queries made so far.
\<close>

record world =
  remote :: "pylxd_container option"
  handle :: "pylxd_container option"
  hosts_file :: "string \<rightharpoonup> string"
  polls :: nat
  trace :: "event list"

datatype exn = ContainerOperationFailed | LXDAPIException

type_synonym 'a action = "world \<Rightarrow> (exn + 'a) \<times> world"

definition return :: "'a \<Rightarrow> 'a action" where
  "return x w = (Inr x, w)"

definition raise :: "exn \<Rightarrow> 'a action" where
  "raise e w = (Inl e, w)"

definition bindM :: "'a action \<Rightarrow> ('a \<Rightarrow> 'b action) \<Rightarrow> 'b action" where
  "bindM m f w = (case m w of (Inl e, w') \<Rightarrow> (Inl e, w') | (Inr x, w') \<Rightarrow> f x w')"

definition thenM :: "'a action \<Rightarrow> 'b action \<Rightarrow> 'b action" where
  "thenM m n = bindM m (\<lambda>_. n)"

text \<open>\<^verbatim>\<open>try: m  except e: h\<close>.\<close>

definition try_except :: "'a action \<Rightarrow> exn \<Rightarrow> 'a action \<Rightarrow> 'a action" where
  "try_except m e h w =
     (case m w of (Inl e', w') \<Rightarrow> if e' = e then h w' else (Inl e', w') | (Inr x, w') \<Rightarrow> (Inr x, w'))"

definition gets :: "(world \<Rightarrow> 'a) \<Rightarrow> 'a action" where
  "gets f w = (Inr (f w), w)"

definition modify :: "(world \<Rightarrow> world) \<Rightarrow> unit action" where
  "modify f w = (Inr (), f w)"

definition emit :: "event \<Rightarrow> unit action" where
  "emit e = modify (\<lambda>w. w\<lparr>trace := trace w @ [e]\<rparr>)"

definition log :: "level \<Rightarrow> string \<Rightarrow> unit action" where
  "log l msg = emit (Log l msg)"

text \<open>A block of statements, and \<^verbatim>\<open>for x in xs: body\<close>.\<close>

fun seq :: "unit action list \<Rightarrow> unit action" where
  "seq [] = return ()"
| "seq (m # ms) = thenM m (seq ms)"

fun for_each :: "'a list \<Rightarrow> ('a \<Rightarrow> unit action) \<Rightarrow> unit action" where
  "for_each [] body = return ()"
| "for_each (x # xs) body = thenM (body x) (for_each xs body)"

text \<open>A loop that updates a local object \<open>s\<close>.\<close>

fun for_fold :: "'a list \<Rightarrow> ('a \<Rightarrow> 's \<Rightarrow> 's action) \<Rightarrow> 's \<Rightarrow> 's action" where
  "for_fold [] body s = return s"
| "for_fold (x # xs) body s = bindM (body x s) (for_fold xs body)"


section \<open>The remote container handle\<close>

definition lxd_name :: "collaborators \<Rightarrow> descriptor \<Rightarrow> string" where
  "lxd_name env self =
     lxd_name_of (project_name self) (opt_name (options self)) (folderid env (homedir self))"

text \<open>
  The configuration \<^verbatim>\<open>_get_container\<close> sends with a creation. lxdock starts from the
  user's \<^verbatim>\<open>lxc_config\<close> and overwrites the three keys of its own; nomad sends the three
  keys alone.
\<close>

definition created_config :: "variant \<Rightarrow> descriptor \<Rightarrow> string dict" where
  "created_config v self =
     AList.update (''user.'' @ product v @ ''.homedir'') (homedir self)
       (AList.update (''user.'' @ product v @ ''.made'') ''1''
         (AList.update ''security.privileged''
            (if opt_privileged (options self) then ''true'' else ''false'')
            (case v of LXDock \<Rightarrow> opt_lxc_config (options self) | Nomad \<Rightarrow> [])))"

definition container_config :: "variant \<Rightarrow> collaborators \<Rightarrow> descriptor \<Rightarrow> create_spec" where
  "container_config v env self =
     (let mode = (case opt_mode (options self) of Some m \<Rightarrow> m
                    | None \<Rightarrow> (case v of LXDock \<Rightarrow> ''pull'' | Nomad \<Rightarrow> ''local''))
      in \<lparr>spec_name = lxd_name env self,
          spec_alias = opt_image (options self),
          spec_mode = mode,
          spec_protocol = (case opt_protocol (options self) of Some p \<Rightarrow> p | None \<Rightarrow> ''simplestreams''),
          spec_server = (if mode = ''pull''
                         then (case opt_server (options self) of Some s \<Rightarrow> s
                                 | None \<Rightarrow> ''https://images.linuxcontainers.org'')
                         else []),
          spec_config = created_config v self,
          spec_profiles = (case v of
                             LXDock \<Rightarrow> (if opt_profiles (options self) = [] then None
                                         else Some (opt_profiles (options self)))
                           | Nomad \<Rightarrow> None)\<rparr>)"

text \<open>
  \<^verbatim>\<open>_get_container(create=False)\<close>: one lookup, \<open>None\<close> when the daemon has no such
  container.
\<close>

definition get_container_no_create :: "collaborators \<Rightarrow> descriptor \<Rightarrow> pylxd_container option action" where
  "get_container_no_create env self =
     thenM (emit (ContainersGet (lxd_name env self))) (gets remote)"

text \<open>
  \<^verbatim>\<open>_get_container()\<close>, that is \<^verbatim>\<open>create=True\<close>: the lookup, and when it finds nothing
  the creation. A created container is stopped, has the configuration sent and no device
  of its own.
\<close>

definition get_container :: "variant \<Rightarrow> collaborators \<Rightarrow> descriptor \<Rightarrow> pylxd_container action" where
  "get_container v env self =
     bindM (get_container_no_create env self) (\<lambda>found.
       case found of
         Some c \<Rightarrow> return c
       | None \<Rightarrow>
           thenM (log WARN ''Unable to find container'')
          (thenM (log INFO ''Creating new container'')
          (thenM (emit (ContainersCreate (container_config v env self)))
            (if create_fails env
             then thenM (log ERROR ''Can't create container'') (raise ContainerOperationFailed)
             else (let c = \<lparr>status_code = CONTAINER_STOPPED,
                             config = created_config v self, devices = []\<rparr>
                   in thenM (modify (\<lambda>w. w\<lparr>remote := Some c\<rparr>)) (return c))))))"

text \<open>The property \<^verbatim>\<open>_container\<close>: the memoised handle, fetched or created on first use.\<close>

definition container :: "variant \<Rightarrow> collaborators \<Rightarrow> descriptor \<Rightarrow> pylxd_container action" where
  "container v env self =
     bindM (gets handle) (\<lambda>h.
       case h of
         Some c \<Rightarrow> return c
       | None \<Rightarrow> bindM (get_container v env self) (\<lambda>c.
                   thenM (modify (\<lambda>w. w\<lparr>handle := Some c\<rparr>)) (return c)))"

text \<open>
  The calls on the handle. Each evaluates \<^verbatim>\<open>self._container\<close> first. A call that reaches
  the daemon for a container it does not have raises \<^verbatim>\<open>NotFound\<close>, a subclass of
  \<^verbatim>\<open>LXDAPIException\<close>. With \<^verbatim>\<open>wait=True\<close> a state change returns once the daemon has
  done it, and the handle's status is the daemon's again.
\<close>

definition set_status :: "status \<Rightarrow> world \<Rightarrow> world" where
  "set_status s w =
     w\<lparr>remote := map_option (\<lambda>c. c\<lparr>status_code := s\<rparr>) (remote w),
       handle := map_option (\<lambda>c. c\<lparr>status_code := s\<rparr>) (handle w)\<rparr>"

definition daemon_call :: "event \<Rightarrow> unit action \<Rightarrow> unit action" where
  "daemon_call e done =
     thenM (emit e) (bindM (gets remote) (\<lambda>r.
       case r of None \<Rightarrow> raise LXDAPIException | Some _ \<Rightarrow> done))"

definition container_start :: "variant \<Rightarrow> collaborators \<Rightarrow> descriptor \<Rightarrow> unit action" where
  "container_start v env self =
     thenM (container v env self) (daemon_call Start (modify (set_status (start_status env))))"

definition container_stop ::
  "variant \<Rightarrow> collaborators \<Rightarrow> descriptor \<Rightarrow> nat option \<Rightarrow> bool option \<Rightarrow> unit action" where
  "container_stop v env self timeout force =
     thenM (container v env self)
       (daemon_call (Stop timeout force)
          (if force = Some False \<and> graceful_stop_fails env then raise LXDAPIException
           else modify (set_status CONTAINER_STOPPED)))"

definition container_save :: "variant \<Rightarrow> collaborators \<Rightarrow> descriptor \<Rightarrow> unit action" where
  "container_save v env self =
     bindM (container v env self) (\<lambda>c.
       daemon_call Save
         (modify (\<lambda>w. w\<lparr>remote := map_option (\<lambda>r. r\<lparr>config := config c, devices := devices c\<rparr>)
                                    (remote w)\<rparr>)))"

text \<open>\<^verbatim>\<open>self._container.config[key] = value\<close> and the changes of \<^verbatim>\<open>devices\<close>.\<close>

definition set_config :: "variant \<Rightarrow> collaborators \<Rightarrow> descriptor \<Rightarrow> string \<Rightarrow> string \<Rightarrow> unit action" where
  "set_config v env self key val =
     thenM (container v env self)
       (modify (\<lambda>w. w\<lparr>handle := map_option (\<lambda>c. c\<lparr>config := AList.update key val (config c)\<rparr>)
                                  (handle w)\<rparr>))"

definition set_device :: "string \<Rightarrow> device \<Rightarrow> unit action" where
  "set_device key d =
     modify (\<lambda>w. w\<lparr>handle := map_option (\<lambda>c. c\<lparr>devices := AList.update key d (devices c)\<rparr>)
                               (handle w)\<rparr>)"

definition del_device :: "string \<Rightarrow> unit action" where
  "del_device key =
     modify (\<lambda>w. w\<lparr>handle := map_option (\<lambda>c. c\<lparr>devices := AList.delete key (devices c)\<rparr>)
                               (handle w)\<rparr>)"

text \<open>
  The properties \<^verbatim>\<open>exists\<close>, \<^verbatim>\<open>is_privileged\<close>, \<^verbatim>\<open>is_provisioned\<close>, \<^verbatim>\<open>is_running\<close>,
  \<^verbatim>\<open>is_stopped\<close> and (nomad) \<^verbatim>\<open>_has_static_ip\<close>.
\<close>

definition exists :: "collaborators \<Rightarrow> descriptor \<Rightarrow> bool action" where
  "exists env self =
     bindM (get_container_no_create env self) (\<lambda>found. return (found \<noteq> None))"

definition is_privileged :: "variant \<Rightarrow> collaborators \<Rightarrow> descriptor \<Rightarrow> bool action" where
  "is_privileged v env self =
     bindM (container v env self) (\<lambda>c.
       return (map_of (config c) ''security.privileged'' = Some ''true''))"

definition is_provisioned :: "variant \<Rightarrow> collaborators \<Rightarrow> descriptor \<Rightarrow> bool action" where
  "is_provisioned v env self =
     bindM (container v env self) (\<lambda>c.
       return (map_of (config c) (''user.'' @ product v @ ''.provisioned'') = Some ''true''))"

definition is_running :: "variant \<Rightarrow> collaborators \<Rightarrow> descriptor \<Rightarrow> bool action" where
  "is_running v env self =
     bindM (container v env self) (\<lambda>c. return (status_code c = CONTAINER_RUNNING))"

definition is_stopped :: "variant \<Rightarrow> collaborators \<Rightarrow> descriptor \<Rightarrow> bool action" where
  "is_stopped v env self =
     bindM (container v env self) (\<lambda>c. return (status_code c = CONTAINER_STOPPED))"

definition has_static_ip :: "collaborators \<Rightarrow> descriptor \<Rightarrow> bool action" where
  "has_static_ip env self =
     bindM (container Nomad env self) (\<lambda>c.
       return (map_of (config c) ''user.nomad.static_ip'' = Some ''true''))"


section \<open>The host resolution file\<close>

text \<open>
  Modelled from the spec: the class \<^verbatim>\<open>EtcHosts\<close> of \<^verbatim>\<open>network.py\<close> is not among the
  sources. The spec describes it as the bindings of this tool's hostnames in the host
  resolution file, each hostname \<open>either absent or pointing at\<close> one address, with a
  \<open>changed\<close> flag so that the file is persisted \<open>only if\<close> a binding \<open>actually
  changed it\<close>. \<open>ensure_binding_present\<close> makes the hostname point at the address,
  \<open>ensure_binding_absent\<close> removes its binding, and each sets \<open>changed\<close> only when
  it had something to do; \<open>save\<close> writes the bindings back.
\<close>

record etchosts =
  bindings :: "string \<rightharpoonup> string"
  changed :: bool

definition EtcHosts :: "etchosts action" where
  "EtcHosts = bindM (gets hosts_file) (\<lambda>b. return \<lparr>bindings = b, changed = False\<rparr>)"

definition ensure_binding_present :: "string \<Rightarrow> string \<Rightarrow> etchosts \<Rightarrow> etchosts" where
  "ensure_binding_present hostname ip e =
     (if bindings e hostname = Some ip then e
      else e\<lparr>bindings := (bindings e)(hostname \<mapsto> ip), changed := True\<rparr>)"

definition ensure_binding_absent :: "string \<Rightarrow> etchosts \<Rightarrow> etchosts" where
  "ensure_binding_absent hostname e =
     (if bindings e hostname = None then e
      else e\<lparr>bindings := (bindings e)(hostname := None), changed := True\<rparr>)"

definition etchosts_save :: "etchosts \<Rightarrow> unit action" where
  "etchosts_save e = thenM (emit EtcHostsSave) (modify (\<lambda>w. w\<lparr>hosts_file := bindings e\<rparr>))"

text \<open>\<^verbatim>\<open>_setup_hostnames\<close> and \<^verbatim>\<open>_unsetup_hostnames\<close>, the same text in both modules.\<close>

definition setup_hostnames :: "descriptor \<Rightarrow> string \<Rightarrow> unit action" where
  "setup_hostnames self ip =
     (let hostnames = opt_hostnames (options self)
      in if hostnames = [] then return ()
         else bindM EtcHosts (\<lambda>fresh.
              bindM (for_fold hostnames
                       (\<lambda>hostname e.
                          thenM (log INFO (''Setting '' @ hostname @ '' to point to '' @ ip @ ''.''))
                                (return (ensure_binding_present hostname ip e)))
                       fresh) (\<lambda>e.
                if changed e
                then thenM (log INFO ''Saving host bindings to /etc/hosts. sudo may be needed'')
                           (etchosts_save e)
                else return ())))"

definition unsetup_hostnames :: "descriptor \<Rightarrow> unit action" where
  "unsetup_hostnames self =
     (let hostnames = opt_hostnames (options self)
      in if hostnames = [] then return ()
         else bindM EtcHosts (\<lambda>fresh.
              bindM (for_fold hostnames
                       (\<lambda>hostname e.
                          thenM (log INFO (''Unsetting '' @ hostname @ ''. sudo needed.''))
                                (return (ensure_binding_absent hostname e)))
                       fresh) (\<lambda>e.
                if changed e then etchosts_save e else return ())))"


section \<open>Stopping and destroying\<close>

text \<open>\<^verbatim>\<open>halt\<close> and \<^verbatim>\<open>destroy\<close>, the same text in both modules.\<close>

definition halt :: "variant \<Rightarrow> collaborators \<Rightarrow> descriptor \<Rightarrow> unit action" where
  "halt v env self =
     bindM (is_stopped v env self) (\<lambda>stopped.
       if stopped then log INFO ''The container is already stopped.''
       else seq [
         unsetup_hostnames self,
         log INFO ''Stopping...'',
         try_except (container_stop v env self (Some 30) (Some False)) LXDAPIException
           (thenM (log WARN ''Can't stop the container. Forcing...'')
                  (container_stop v env self None (Some True)))])"

text \<open>
  In \<^verbatim>\<open>destroy\<close> the object that is deleted is the one the lookup returned, not the
  memoised handle.
\<close>

definition destroy :: "variant \<Rightarrow> collaborators \<Rightarrow> descriptor \<Rightarrow> unit action" where
  "destroy v env self =
     bindM (get_container_no_create env self) (\<lambda>found.
       case found of
         None \<Rightarrow> log INFO ''Container doesn't exist, nothing to destroy.''
       | Some _ \<Rightarrow> seq [
           halt v env self,
           log INFO ''Destroying container...'',
           daemon_call Delete (modify (\<lambda>w. w\<lparr>remote := None\<rparr>)),
           log INFO ''Container destroyed!''])"


section \<open>IP acquisition\<close>

text \<open>
  \<^verbatim>\<open>get_ip(self._container)\<close> (\<^verbatim>\<open>get_ipv4_ip\<close> in nomad): one query of the container's
  address.
\<close>

definition get_ip :: "variant \<Rightarrow> collaborators \<Rightarrow> descriptor \<Rightarrow> string action" where
  "get_ip v env self =
     thenM (container v env self)
    (thenM (emit GetIp)
    (bindM (gets polls) (\<lambda>n.
     thenM (modify (\<lambda>w. w\<lparr>polls := Suc n\<rparr>))
           (return (ip_at env n)))))"

text \<open>
  \<^verbatim>\<open>_wait_for_ip(seconds)\<close> (\<^verbatim>\<open>_wait_for_ipv4_ip\<close> in nomad); the argument counts the
  iterations of \<^verbatim>\<open>range(seconds)\<close> that are left.
\<close>

fun wait_for_ip :: "variant \<Rightarrow> collaborators \<Rightarrow> descriptor \<Rightarrow> nat \<Rightarrow> string action" where
  "wait_for_ip v env self 0 = return []"
| "wait_for_ip v env self (Suc seconds) =
     thenM (emit (Sleep 1))
       (bindM (get_ip v env self) (\<lambda>ip.
          if ip \<noteq> [] then return ip else wait_for_ip v env self seconds))"

definition lxdock_setup_ip :: "collaborators \<Rightarrow> descriptor \<Rightarrow> string action" where
  "lxdock_setup_ip env self =
     bindM (get_ip LXDock env self) (\<lambda>ip.
     bindM (if ip = []
            then thenM (log INFO ''No IP yet, waiting for at most 10 seconds...'')
                       (wait_for_ip LXDock env self 10)
            else return ip) (\<lambda>ip.
     thenM (if ip = []
            then seq [log WARN ''STILL no IP! Container is up, but probably broken.'',
                      log INFO ''Maybe that restarting it will help? Not trying to provision.'']
            else return ())
           (return ip)))"

definition assign_free_static_ip :: "collaborators \<Rightarrow> descriptor \<Rightarrow> unit action" where
  "assign_free_static_ip env self =
     seq [
       emit FindFreeIp,
       thenM (container Nomad env self) (emit (SetStaticIp (fst (free_ip env)) (snd (free_ip env)))),
       set_config Nomad env self ''user.nomad.static_ip'' ''true'',
       container_save Nomad env self]"

definition nomad_setup_ip :: "collaborators \<Rightarrow> descriptor \<Rightarrow> string action" where
  "nomad_setup_ip env self =
     bindM (get_ip Nomad env self) (\<lambda>ip.
     bindM (if ip = []
            then thenM (log INFO ''No IP yet, waiting 10 seconds...'')
                       (wait_for_ip Nomad env self 10)
            else return ip) (\<lambda>ip.
     bindM (if ip = []
            then thenM (seq [log INFO ''Still no IP! Forcing a static IP...'',
                             container_stop Nomad env self None None,
                             assign_free_static_ip env self,
                             container_start Nomad env self])
                       (wait_for_ip Nomad env self 10)
            else return ip) (\<lambda>ip.
     thenM (if ip = []
            then seq [log WARN ''STILL no IP! Container is up, but probably broken.'',
                      log INFO ''Maybe that restarting it will help? Not trying to provision.'']
            else return ())
           (return ip))))"


section \<open>Environment, users and shares\<close>

text \<open>
  The guest and host adapters are the memoised properties \<^verbatim>\<open>_guest\<close> and \<^verbatim>\<open>_host\<close>,
  each built from \<^verbatim>\<open>self._container\<close>: a call through one of them evaluates the handle
  first.
\<close>

definition adapter_call :: "variant \<Rightarrow> collaborators \<Rightarrow> descriptor \<Rightarrow> event \<Rightarrow> unit action" where
  "adapter_call v env self e = thenM (container v env self) (emit e)"

text \<open>\<^verbatim>\<open>_setup_env\<close> (lxdock); \<open>environment_key key\<close> is \<^verbatim>\<open>'environment.{}'.format(key)\<close>.\<close>

definition environment_key :: "string \<Rightarrow> string" where
  "environment_key key = ''environment.'' @ key"

definition setup_env :: "collaborators \<Rightarrow> descriptor \<Rightarrow> unit action" where
  "setup_env env self =
     (let env_override = opt_environment (options self)
      in if env_override \<noteq> []
         then thenM (for_each env_override
                       (\<lambda>(key, val). set_config LXDock env self (environment_key key) val))
                    (container_save LXDock env self)
         else return ())"

text \<open>\<^verbatim>\<open>_setup_users\<close> (lxdock).\<close>

definition setup_users :: "collaborators \<Rightarrow> descriptor \<Rightarrow> unit action" where
  "setup_users env self =
     (let users = opt_users (options self)
      in if users = [] then return ()
         else thenM (log INFO ''Ensuring users are created...'')
                    (for_each users (\<lambda>user_config.
                       adapter_call LXDock env self
                         (CreateUser (user_name user_config) (user_home user_config)
                                     (user_password user_config)))))"

text \<open>\<^verbatim>\<open>_perform_barebones_setup\<close> (lxdock).\<close>

definition perform_barebones_setup :: "collaborators \<Rightarrow> descriptor \<Rightarrow> unit action" where
  "perform_barebones_setup env self =
     thenM (log INFO ''Doing bare bones setup on the machine...'')
    (thenM (adapter_call LXDock env self GetSshPubkey)
       (case ssh_pubkey env of
          Some key \<Rightarrow> adapter_call LXDock env self (AddSshPubkey key)
        | None \<Rightarrow> log WARN ''SSH pubkey was not found. Provisioning tools may not work correctly...''))"

text \<open>
  \<^verbatim>\<open>_setup_shares\<close>. The devices under the product's namespace are those whose key starts
  with \<^verbatim>\<open>lxdockshare\<close> (\<^verbatim>\<open>nomadshare\<close>); \<open>existing_sources\<close> is taken before they are
  deleted.
\<close>

definition share_prefix :: "variant \<Rightarrow> string" where
  "share_prefix v = product v @ ''share''"

definition namespaced :: "variant \<Rightarrow> (string \<times> device) \<Rightarrow> bool" where
  "namespaced v = (\<lambda>(k, d). startswith k (share_prefix v))"

definition share_key :: "variant \<Rightarrow> nat \<Rightarrow> string" where
  "share_key v i = share_prefix v @ str_nat i"

definition shareconf :: "descriptor \<Rightarrow> share \<Rightarrow> device" where
  "shareconf self share =
     \<lparr>dev_type = ''disk'', dev_source = path_join (homedir self) (source share),
      dev_path = dest share\<rparr>"

text \<open>The body of the loop over the desired shares (lxdock).\<close>

definition lxdock_share_body ::
  "collaborators \<Rightarrow> descriptor \<Rightarrow> string set \<Rightarrow> nat \<times> share \<Rightarrow> unit action" where
  "lxdock_share_body env self existing_sources = (\<lambda>(i, share).
     let source = path_join (homedir self) (source share);
         set_host_acl = (case set_host_acl share of None \<Rightarrow> True | Some b \<Rightarrow> b)
     in thenM
          (if set_host_acl \<and> source \<notin> existing_sources
           then seq [
             log INFO (''Setting host-side ACL for '' @ source),
             adapter_call LXDock env self (AclCurrentUser source),
             bindM (is_privileged LXDock env self) (\<lambda>privileged.
               if \<not> privileged
               then seq [
                 adapter_call LXDock env self (AclMappedUser source None),
                 for_each (opt_users (options self)) (\<lambda>uconfig.
                   adapter_call LXDock env self
                     (AclMappedUser source
                        (Some (case user_home uconfig of Some h \<Rightarrow> h
                                 | None \<Rightarrow> ''/home/'' @ user_name uconfig))))]
               else return ())]
           else return ())
          (set_device (share_key LXDock i) (shareconf self share)))"

definition lxdock_setup_shares :: "collaborators \<Rightarrow> descriptor \<Rightarrow> unit action" where
  "lxdock_setup_shares env self =
     (case opt_shares (options self) of
        None \<Rightarrow> return ()
      | Some shares \<Rightarrow>
          thenM (log INFO ''Setting up shares...'')
         (bindM (container LXDock env self) (\<lambda>c.
            let existing_shares = filter (namespaced LXDock) (devices c);
                existing_sources = set (map (\<lambda>(k, d). dev_source d) existing_shares)
            in seq [
              for_each existing_shares (\<lambda>(k, d). del_device k),
              for_each (enumerate 1 shares) (lxdock_share_body env self existing_sources),
              container_save LXDock env self])))"

text \<open>
  In nomad the caller tests \<^verbatim>\<open>'shares' in self.options\<close>; the mapped root user is
  looked up once, before the loop, and every new source gets the grants.
\<close>

definition nomad_share_body ::
  "descriptor \<Rightarrow> bool \<Rightarrow> string set \<Rightarrow> nat \<times> share \<Rightarrow> unit action" where
  "nomad_share_body self privileged existing_sources = (\<lambda>(i, share).
     let source = path_join (homedir self) (source share)
     in thenM
          (if source \<notin> existing_sources
           then seq [
             log INFO (''Setting host-side ACL for '' @ source),
             emit (AclCurrentUser source),
             if \<not> privileged then emit (AclMappedUser source None) else return ()]
           else return ())
          (set_device (share_key Nomad i) (shareconf self share)))"

definition nomad_setup_shares :: "collaborators \<Rightarrow> descriptor \<Rightarrow> unit action" where
  "nomad_setup_shares env self =
     bindM (container Nomad env self) (\<lambda>c.
       let existing_shares = filter (namespaced Nomad) (devices c);
           existing_sources = set (map (\<lambda>(k, d). dev_source d) existing_shares)
       in seq [
         for_each existing_shares (\<lambda>(k, d). del_device k),
         bindM (is_privileged Nomad env self) (\<lambda>privileged.
           for_each (enumerate 1 (case opt_shares (options self) of None \<Rightarrow> [] | Some s \<Rightarrow> s))
             (nomad_share_body self privileged existing_sources)),
         container_save Nomad env self])"


section \<open>Provisioning and the shell\<close>

text \<open>The decorators \<^verbatim>\<open>must_be_created_and_running\<close> (lxdock) and \<^verbatim>\<open>must_be_running\<close> (nomad).\<close>

definition must_be_created_and_running ::
  "collaborators \<Rightarrow> descriptor \<Rightarrow> unit action \<Rightarrow> unit action" where
  "must_be_created_and_running env self method =
     bindM (exists env self) (\<lambda>created.
       if \<not> created then log ERROR ''The container is not created.''
       else bindM (is_running LXDock env self) (\<lambda>running.
         if \<not> running then log ERROR ''The container is not running.''
         else method))"

definition must_be_running :: "collaborators \<Rightarrow> descriptor \<Rightarrow> unit action \<Rightarrow> unit action" where
  "must_be_running env self method =
     bindM (is_running Nomad env self) (\<lambda>running.
       if \<not> running then log ERROR ''The container is not running.''
       else method)"

text \<open>
  \<^verbatim>\<open>provision\<close> (lxdock). A provisioning item whose lower-cased type is not registered
  gets no provisioner.
\<close>

definition lxdock_provision_body :: "collaborators \<Rightarrow> descriptor \<Rightarrow> unit action" where
  "lxdock_provision_body env self =
     thenM (setup_env env self)
    (bindM (is_provisioned LXDock env self) (\<lambda>provisioned.
       let barebone = \<not> provisioned;
           provisioners = filter (\<lambda>t. t \<in> set (registered env))
                            (map lower (opt_provisioning (options self)))
       in seq [
         if barebone then perform_barebones_setup env self else return (),
         log INFO ''Provisioning container...'',
         if barebone
         then for_each provisioners (\<lambda>p.
                thenM (log INFO (''Performing barebones setup for provisioner '' @ p))
                      (emit (ProvisionerSetup p)))
         else return (),
         for_each provisioners (\<lambda>p.
           thenM (log INFO (''Provisioning with '' @ p)) (emit (ProvisionerProvision p))),
         set_config LXDock env self ''user.lxdock.provisioned'' ''true'',
         container_save LXDock env self]))"

definition lxdock_provision :: "collaborators \<Rightarrow> descriptor \<Rightarrow> unit action" where
  "lxdock_provision env self =
     must_be_created_and_running env self (lxdock_provision_body env self)"

text \<open>\<^verbatim>\<open>provision(barebone=None)\<close> (nomad).\<close>

definition nomad_provision_body :: "collaborators \<Rightarrow> descriptor \<Rightarrow> bool option \<Rightarrow> unit action" where
  "nomad_provision_body env self barebone_arg =
     bindM (case barebone_arg of
              None \<Rightarrow> bindM (is_provisioned Nomad env self) (\<lambda>p. return (\<not> p))
            | Some b \<Rightarrow> return b) (\<lambda>barebone.
       seq [
         if barebone
         then thenM (log INFO ''Doing bare bone setup on the machine...'')
                    (thenM (container Nomad env self) (emit PrepareDebian))
         else return (),
         log INFO ''Provisioning container...'',
         for_each (opt_provisioning (options self)) (\<lambda>t.
           thenM (log INFO (''Provisioning with '' @ t))
                 (thenM (container Nomad env self) (emit (ProvisionWithAnsible t)))),
         set_config Nomad env self ''user.nomad.provisioned'' ''true'',
         container_save Nomad env self])"

definition nomad_provision :: "collaborators \<Rightarrow> descriptor \<Rightarrow> bool option \<Rightarrow> unit action" where
  "nomad_provision env self barebone_arg =
     must_be_running env self (nomad_provision_body env self barebone_arg)"

text \<open>
  \<^verbatim>\<open>shell\<close>. A Python string or \<^verbatim>\<open>None\<close> is true when it is a non-empty string. The
  script file's text is left out of the event of \<^verbatim>\<open>files.put\<close>.
\<close>

definition truthy :: "string option \<Rightarrow> bool" where
  "truthy s = (case s of None \<Rightarrow> False | Some t \<Rightarrow> t \<noteq> [])"

definition guest_shell_script_file :: string where
  "guest_shell_script_file = ''/.lxdock.d/shell_cmd.sh''"

definition lxdock_shell_body ::
  "collaborators \<Rightarrow> descriptor \<Rightarrow> string option \<Rightarrow> string list \<Rightarrow> unit action" where
  "lxdock_shell_body env self username cmd_args =
     thenM (setup_env env self)
       (let shellcfg = opt_shell (options self);
            shelluser = (if truthy username then username else shell_user shellcfg);
            cmd = (if truthy shelluser
                   then (let shellhome = (if \<not> truthy username then shell_home shellcfg else None);
                             homearg = (if truthy shellhome then ''--env HOME='' @ the shellhome else [])
                         in ''lxc exec '' @ lxd_name env self @ '' '' @ homearg @ '' -- su -m ''
                              @ the shelluser)
                   else ''lxc exec '' @ lxd_name env self @ '' -- su -m root'')
        in if cmd_args \<noteq> []
           then seq [
             adapter_call LXDock env self (GuestRun [''mkdir'', ''-p'', ''/.lxdock.d'']),
             thenM (container LXDock env self) (emit (FilesPut guest_shell_script_file)),
             adapter_call LXDock env self (GuestRun [''chmod'', ''a+rx'', guest_shell_script_file]),
             emit (SubprocessCall (cmd @ '' -s '' @ guest_shell_script_file))]
           else emit (SubprocessCall cmd))"

definition lxdock_shell ::
  "collaborators \<Rightarrow> descriptor \<Rightarrow> string option \<Rightarrow> string list \<Rightarrow> unit action" where
  "lxdock_shell env self username cmd_args =
     must_be_created_and_running env self (lxdock_shell_body env self username cmd_args)"

definition nomad_shell_body :: "collaborators \<Rightarrow> descriptor \<Rightarrow> unit action" where
  "nomad_shell_body env self =
     (let shellcfg = opt_shell (options self);
          shelluser = shell_user shellcfg
      in if truthy shelluser
         then (let shellhome = shell_home shellcfg;
                   homearg = (if truthy shellhome then ''--env HOME='' @ the shellhome else [])
               in emit (SubprocessCall (''lxc exec '' @ lxd_name env self @ '' '' @ homearg
                                          @ '' -- su -m '' @ the shelluser)))
         else emit (SubprocessCall (''lxc exec '' @ lxd_name env self @ '' -- bash'')))"

definition nomad_shell :: "collaborators \<Rightarrow> descriptor \<Rightarrow> unit action" where
  "nomad_shell env self = must_be_running env self (nomad_shell_body env self)"


section \<open>Bringing a container up\<close>

text \<open>\<^verbatim>\<open>up(provisioning_mode=None)\<close> (lxdock).\<close>

definition lxdock_up :: "collaborators \<Rightarrow> descriptor \<Rightarrow> ProvisioningMode option \<Rightarrow> unit action" where
  "lxdock_up env self provisioning_mode =
     bindM (is_running LXDock env self) (\<lambda>running.
       if running then log INFO ''Container is already running''
       else
         thenM (log INFO ''Starting container...'')
        (thenM (container_start LXDock env self)
        (bindM (is_running LXDock env self) (\<lambda>started.
           if \<not> started
           then thenM (log ERROR ''Something went wrong trying to start the container.'')
                      (raise ContainerOperationFailed)
           else bindM (lxdock_setup_ip env self) (\<lambda>ip.
             if ip = [] then return ()
             else seq [
               log INFO (''Container is up! IP: '' @ ip),
               setup_hostnames self ip,
               setup_users env self,
               lxdock_setup_shares env self,
               setup_env env self,
               bindM (is_provisioned LXDock env self) (\<lambda>provisioned.
                 let mode = (case provisioning_mode of None \<Rightarrow> AUTO | Some m \<Rightarrow> m)
                 in if mode \<noteq> DISABLED
                    then (if (\<not> provisioned \<and> mode = AUTO) \<or> mode = ENABLED
                          then lxdock_provision env self
                          else if provisioned
                          then log INFO ''Container already provisioned, not provisioning.''
                          else return ())
                    else return ())])))))"

text \<open>\<^verbatim>\<open>up()\<close> (nomad).\<close>

definition nomad_up :: "collaborators \<Rightarrow> descriptor \<Rightarrow> unit action" where
  "nomad_up env self =
     bindM (is_running Nomad env self) (\<lambda>running.
       if running then log INFO ''Container is already running''
       else seq [
         if opt_shares (options self) \<noteq> None
         then thenM (log INFO ''Setting up shares...'') (nomad_setup_shares env self)
         else return (),
         bindM (has_static_ip env self) (\<lambda>static.
           if static then assign_free_static_ip env self else return ()),
         log INFO ''Starting container...'',
         container_start Nomad env self,
         bindM (is_running Nomad env self) (\<lambda>started.
           if \<not> started
           then thenM (log ERROR ''Something went wrong trying to start the container.'')
                      (raise ContainerOperationFailed)
           else bindM (nomad_setup_ip env self) (\<lambda>ip.
             if ip = [] then return ()
             else seq [
               log INFO (''Container is up! IP: '' @ ip),
               setup_hostnames self ip,
               bindM (is_provisioned Nomad env self) (\<lambda>provisioned.
                 if \<not> provisioned then nomad_provision env self (Some True)
                 else log INFO ''Container already provisioned, not provisioning.'')]))])"


section \<open>Closed forms and example inputs\<close>

text \<open>
  What a loop over the declared hostnames leaves in the resolution file: every declared
  hostname bound to the address, or unbound, and the other bindings as they were.
\<close>

definition bind_all :: "string list \<Rightarrow> string \<Rightarrow> (string \<rightharpoonup> string) \<Rightarrow> (string \<rightharpoonup> string)" where
  "bind_all hs ip f = (\<lambda>h. if h \<in> set hs then Some ip else f h)"

definition unbind_all :: "string list \<Rightarrow> (string \<rightharpoonup> string) \<Rightarrow> (string \<rightharpoonup> string)" where
  "unbind_all hs f = (\<lambda>h. if h \<in> set hs then None else f h)"

text \<open>The container a creation yields, and the events of a lookup that ends in one.\<close>

definition fresh_container :: "variant \<Rightarrow> descriptor \<Rightarrow> pylxd_container" where
  "fresh_container v self =
     \<lparr>status_code = CONTAINER_STOPPED, config = created_config v self, devices = []\<rparr>"

definition creation_events :: "variant \<Rightarrow> collaborators \<Rightarrow> descriptor \<Rightarrow> event list" where
  "creation_events v env self =
     [ContainersGet (lxd_name env self), Log WARN ''Unable to find container'',
      Log INFO ''Creating new container'', ContainersCreate (container_config v env self)]"

text \<open>The events of a run: what it appended to the trace.\<close>

definition events_of :: "world \<Rightarrow> world \<Rightarrow> event list" where
  "events_of w w' = drop (length (trace w)) (trace w')"

definition is_stop :: "event \<Rightarrow> bool" where
  "is_stop e = (case e of Stop _ _ \<Rightarrow> True | _ \<Rightarrow> False)"

text \<open>
  The state before the first command: the daemon has no container of this name, the
  \<^verbatim>\<open>Container\<close> object is new, nothing is bound in the resolution file.
\<close>

definition absent_world :: world where
  "absent_world = \<lparr>remote = None, handle = None, hosts_file = Map.empty, polls = 0, trace = []\<rparr>"

text \<open>The state a new \<^verbatim>\<open>Container\<close> object finds when the daemon has the container \<open>c\<close>.\<close>

definition present_world :: "pylxd_container \<Rightarrow> (string \<rightharpoonup> string) \<Rightarrow> world" where
  "present_world c hosts = \<lparr>remote = Some c, handle = None, hosts_file = hosts, polls = 0, trace = []\<rparr>"

text \<open>The events of \<^verbatim>\<open>_unsetup_hostnames\<close> and of \<^verbatim>\<open>halt\<close> on a container that is not stopped.\<close>

definition unsetup_events :: "descriptor \<Rightarrow> world \<Rightarrow> event list" where
  "unsetup_events self w =
     map (\<lambda>h. Log INFO (''Unsetting '' @ h @ ''. sudo needed.'')) (opt_hostnames (options self))
       @ (if unbind_all (opt_hostnames (options self)) (hosts_file w) \<noteq> hosts_file w
          then [EtcHostsSave] else [])"

definition halt_events :: "collaborators \<Rightarrow> descriptor \<Rightarrow> world \<Rightarrow> event list" where
  "halt_events env self w =
     unsetup_events self w
       @ [Log INFO ''Stopping...'', Stop (Some 30) (Some False)]
       @ (if graceful_stop_fails env
          then [Log WARN ''Can't stop the container. Forcing...'', Stop None (Some True)]
          else [])"

text \<open>
  The address a bounded series of queries finds: the first non-empty answer among the
  queries \<open>p, p + 1, ..., p + n - 1\<close> of the run, and the number of queries made until
  then.
\<close>

fun first_ip :: "collaborators \<Rightarrow> nat \<Rightarrow> nat \<Rightarrow> string" where
  "first_ip env p 0 = []"
| "first_ip env p (Suc n) = (if ip_at env p \<noteq> [] then ip_at env p else first_ip env (Suc p) n)"

fun polls_until :: "collaborators \<Rightarrow> nat \<Rightarrow> nat \<Rightarrow> nat" where
  "polls_until env p 0 = 0"
| "polls_until env p (Suc n) = (if ip_at env p \<noteq> [] then 1 else Suc (polls_until env (Suc p) n))"

definition poll_events :: "nat \<Rightarrow> event list" where
  "poll_events n = concat (replicate n [Sleep 1, GetIp])"

definition is_sleep :: "event \<Rightarrow> bool" where
  "is_sleep e = (case e of Sleep _ \<Rightarrow> True | _ \<Rightarrow> False)"

definition is_query :: "event \<Rightarrow> bool" where
  "is_query e = (case e of GetIp \<Rightarrow> True | _ \<Rightarrow> False)"

text \<open>The events of the static-IP fallback of nomad's \<^verbatim>\<open>_setup_ip\<close>, leaving out the log.\<close>

definition fallback_cycle :: "collaborators \<Rightarrow> event list" where
  "fallback_cycle env =
     [Stop None None, FindFreeIp, SetStaticIp (fst (free_ip env)) (snd (free_ip env)), Save, Start]"

definition in_fallback :: "event \<Rightarrow> bool" where
  "in_fallback e = (daemon_mutation e \<or> guest_command e \<or> e = FindFreeIp)"

text \<open>
  The answer and the events of \<^verbatim>\<open>_setup_ip\<close> when the run has made \<open>p\<close> queries
  before it: lxdock's makes one query and then at most ten polls; nomad's goes on with the
  fallback and ten polls more.
\<close>

definition give_up_events :: "event list" where
  "give_up_events =
     [Log WARN ''STILL no IP! Container is up, but probably broken.'',
      Log INFO ''Maybe that restarting it will help? Not trying to provision.'']"

definition lxdock_ip :: "collaborators \<Rightarrow> nat \<Rightarrow> string" where
  "lxdock_ip env p = (if ip_at env p \<noteq> [] then ip_at env p else first_ip env (Suc p) 10)"

definition lxdock_ip_polls :: "collaborators \<Rightarrow> nat \<Rightarrow> nat" where
  "lxdock_ip_polls env p = (if ip_at env p \<noteq> [] then 0 else polls_until env (Suc p) 10)"

definition lxdock_ip_events :: "collaborators \<Rightarrow> nat \<Rightarrow> event list" where
  "lxdock_ip_events env p =
     GetIp # (if ip_at env p \<noteq> [] then []
              else Log INFO ''No IP yet, waiting for at most 10 seconds...''
                     # poll_events (polls_until env (Suc p) 10)
                     @ (if first_ip env (Suc p) 10 = [] then give_up_events else []))"

definition nomad_ip :: "collaborators \<Rightarrow> nat \<Rightarrow> string" where
  "nomad_ip env p =
     (if ip_at env p \<noteq> [] then ip_at env p
      else if first_ip env (Suc p) 10 \<noteq> [] then first_ip env (Suc p) 10
      else first_ip env (Suc p + polls_until env (Suc p) 10) 10)"

definition nomad_ip_events :: "collaborators \<Rightarrow> nat \<Rightarrow> event list" where
  "nomad_ip_events env p =
     GetIp # (if ip_at env p \<noteq> [] then []
              else Log INFO ''No IP yet, waiting 10 seconds...''
                     # poll_events (polls_until env (Suc p) 10)
                     @ (if first_ip env (Suc p) 10 \<noteq> [] then []
                        else Log INFO ''Still no IP! Forcing a static IP...''
                               # fallback_cycle env
                               @ poll_events (polls_until env (Suc p + polls_until env (Suc p) 10) 10)
                               @ (if nomad_ip env p = [] then give_up_events else [])))"

text \<open>
  An example project: one container \<open>web\<close> with one share, one hostname, one user, one
  environment override and one provisioner; collaborators that answer the address
  queries with \<open>ips\<close>, and a daemon that rejects the graceful stop.
\<close>

definition example_options :: options where
  "example_options =
     \<lparr>opt_name = ''web'', opt_image = ''debian/jessie'', opt_privileged = False,
      opt_mode = None, opt_protocol = None, opt_server = None, opt_lxc_config = [],
      opt_profiles = [],
      opt_shares = Some [\<lparr>source = ''.'', dest = ''/myshare'', set_host_acl = None\<rparr>],
      opt_hostnames = [''dev.local''],
      opt_users = [\<lparr>user_name = ''dev'', user_home = None, user_password = None\<rparr>],
      opt_environment = [(''LC_ALL'', ''C'')],
      opt_provisioning = [''Ansible''],
      opt_shell = \<lparr>shell_user = None, shell_home = None\<rparr>\<rparr>"

definition example_self :: descriptor where
  "example_self = \<lparr>project_name = ''demo'', homedir = ''/home/me/demo'', options = example_options\<rparr>"

definition example_env :: "(nat \<Rightarrow> string) \<Rightarrow> collaborators" where
  "example_env ips =
     \<lparr>folderid = (\<lambda>_. ''4242''), create_fails = False, start_status = CONTAINER_RUNNING,
      graceful_stop_fails = True, ip_at = ips, ssh_pubkey = Some ''ssh-rsa AAAA'',
      registered = [''ansible''], free_ip = (''10.0.3.100'', ''10.0.3.1'')\<rparr>"

definition tenth_poll :: "nat \<Rightarrow> string" where
  "tenth_poll n = (if n < 10 then [] else ''10.0.3.5'')"

definition example_container :: "status \<Rightarrow> pylxd_container" where
  "example_container s = \<lparr>status_code = s, config = created_config LXDock example_self, devices = []\<rparr>"

text \<open>The state in the middle of a command: the handle is fetched and agrees with the daemon.\<close>

definition fetched_world :: "pylxd_container \<Rightarrow> (string \<rightharpoonup> string) \<Rightarrow> world" where
  "fetched_world c hosts = \<lparr>remote = Some c, handle = Some c, hosts_file = hosts, polls = 0, trace = []\<rparr>"

text \<open>
  The devices a reconciliation pass over the desired list installs, in the order of the
  list, and the grants one share gets in lxdock and in nomad, given whether the container
  is privileged and the sources found installed before the pass.
\<close>

definition mirror :: "variant \<Rightarrow> descriptor \<Rightarrow> share list \<Rightarrow> device dict" where
  "mirror v self shares = map (\<lambda>(i, share). (share_key v i, shareconf self share)) (enumerate 1 shares)"

definition joined :: "descriptor \<Rightarrow> share \<Rightarrow> string" where
  "joined self share = path_join (homedir self) (source share)"

definition lxdock_acl_events :: "descriptor \<Rightarrow> bool \<Rightarrow> string set \<Rightarrow> share \<Rightarrow> event list" where
  "lxdock_acl_events self privileged existing share =
     (if (case set_host_acl share of None \<Rightarrow> True | Some b \<Rightarrow> b) \<and> joined self share \<notin> existing
      then [Log INFO (''Setting host-side ACL for '' @ joined self share),
            AclCurrentUser (joined self share)]
           @ (if \<not> privileged
              then AclMappedUser (joined self share) None
                     # map (\<lambda>uconfig. AclMappedUser (joined self share)
                                        (Some (case user_home uconfig of Some h \<Rightarrow> h
                                                 | None \<Rightarrow> ''/home/'' @ user_name uconfig)))
                           (opt_users (options self))
              else [])
      else [])"

definition nomad_acl_events :: "descriptor \<Rightarrow> bool \<Rightarrow> string set \<Rightarrow> share \<Rightarrow> event list" where
  "nomad_acl_events self privileged existing share =
     (if joined self share \<notin> existing
      then [Log INFO (''Setting host-side ACL for '' @ joined self share),
            AclCurrentUser (joined self share)]
           @ (if \<not> privileged then [AclMappedUser (joined self share) None] else [])
      else [])"

definition privileged_config :: "pylxd_container \<Rightarrow> bool" where
  "privileged_config c = (map_of (config c) ''security.privileged'' = Some ''true'')"

definition sources_of :: "variant \<Rightarrow> device dict \<Rightarrow> string set" where
  "sources_of v devs = set (map (\<lambda>(k, d). dev_source d) (filter (namespaced v) devs))"

definition acl_source :: "event \<Rightarrow> string" where
  "acl_source e = (case e of AclCurrentUser s \<Rightarrow> s | AclMappedUser s _ \<Rightarrow> s | _ \<Rightarrow> [])"

text \<open>
  The container the next read of \<^verbatim>\<open>self._container\<close> yields: the memoised handle, else
  the daemon's object, else a newly created one. \<open>ready\<close>: that read does not fail and
  the daemon has the container afterwards.
\<close>

definition seen :: "variant \<Rightarrow> descriptor \<Rightarrow> world \<Rightarrow> pylxd_container" where
  "seen v self w =
     (case handle w of Some h \<Rightarrow> h
      | None \<Rightarrow> (case remote w of Some r \<Rightarrow> r | None \<Rightarrow> fresh_container v self))"

definition ready :: "collaborators \<Rightarrow> world \<Rightarrow> bool" where
  "ready env w =
     (case handle w of Some h \<Rightarrow> remote w \<noteq> None
      | None \<Rightarrow> remote w \<noteq> None \<or> \<not> create_fails env)"

definition touch_events :: "variant \<Rightarrow> collaborators \<Rightarrow> descriptor \<Rightarrow> world \<Rightarrow> event list" where
  "touch_events v env self w =
     (case handle w of Some h \<Rightarrow> []
      | None \<Rightarrow> (case remote w of Some r \<Rightarrow> [ContainersGet (lxd_name env self)]
                 | None \<Rightarrow> creation_events v env self))"

text \<open>The device map after a pass: the devices of others, then the mirror of the desired list.\<close>

definition reconciled :: "variant \<Rightarrow> descriptor \<Rightarrow> share list \<Rightarrow> device dict \<Rightarrow> device dict" where
  "reconciled v self shares devs = filter (\<lambda>e. \<not> namespaced v e) devs @ mirror v self shares"

text \<open>The state after a read of \<^verbatim>\<open>self._container\<close> in a \<open>ready\<close> state.\<close>

definition touched :: "variant \<Rightarrow> collaborators \<Rightarrow> descriptor \<Rightarrow> world \<Rightarrow> world" where
  "touched v env self w =
     w\<lparr>remote := Some (case remote w of Some r \<Rightarrow> r | None \<Rightarrow> fresh_container v self),
       handle := Some (seen v self w),
       trace := trace w @ touch_events v env self w\<rparr>"

text \<open>
  Example share lists: \<open>[A, B]\<close>, of which the example project keeps \<open>[B]\<close>, and a share
  \<open>C\<close> whose host-side grants are disabled; a list that
  names one source directory twice; and a container that still carries a namespaced
  device of an earlier configuration.
\<close>

definition share_A :: share where
  "share_A = \<lparr>source = ''data'', dest = ''/data'', set_host_acl = None\<rparr>"

definition share_B :: share where
  "share_B = \<lparr>source = ''.'', dest = ''/myshare'', set_host_acl = None\<rparr>"

definition share_C :: share where
  "share_C = \<lparr>source = ''private'', dest = ''/private'', set_host_acl = Some False\<rparr>"

definition with_shares :: "share list \<Rightarrow> descriptor" where
  "with_shares shares = example_self\<lparr>options := example_options\<lparr>opt_shares := Some shares\<rparr>\<rparr>"

definition twice_shared :: "share list" where
  "twice_shared = [\<lparr>source = ''data'', dest = ''/a'', set_host_acl = None\<rparr>,
                   \<lparr>source = ''data'', dest = ''/b'', set_host_acl = None\<rparr>]"

definition stale_container :: pylxd_container where
  "stale_container =
     \<lparr>status_code = CONTAINER_STOPPED, config = created_config LXDock example_self,
      devices = [(''lxdockshare3'', \<lparr>dev_type = ''disk'', dev_source = ''/old'', dev_path = ''/old''\<rparr>)]\<rparr>"

text \<open>The configuration after \<^verbatim>\<open>_setup_env\<close> has written the overrides into it.\<close>

definition overridden :: "string dict \<Rightarrow> string dict \<Rightarrow> string dict" where
  "overridden env_override cfg =
     fold (\<lambda>(key, val). AList.update (environment_key key) val) env_override cfg"

definition provisioned_key :: "variant \<Rightarrow> string" where
  "provisioned_key v = ''user.'' @ product v @ ''.provisioned''"

definition provisioned_config :: "variant \<Rightarrow> pylxd_container \<Rightarrow> bool" where
  "provisioned_config v c = (map_of (config c) (provisioned_key v) = Some ''true'')"

text \<open>
  The states after \<^verbatim>\<open>_setup_users\<close>, \<^verbatim>\<open>_setup_shares\<close> and \<^verbatim>\<open>_setup_env\<close> when the
  handle is in place.
\<close>

definition users_done :: "descriptor \<Rightarrow> world \<Rightarrow> world" where
  "users_done self w =
     w\<lparr>trace := trace w
        @ (if opt_users (options self) = [] then []
           else Log INFO ''Ensuring users are created...''
                  # map (\<lambda>u. CreateUser (user_name u) (user_home u) (user_password u))
                        (opt_users (options self)))\<rparr>"

definition lxdock_shares_done :: "descriptor \<Rightarrow> world \<Rightarrow> world" where
  "lxdock_shares_done self w =
     (case opt_shares (options self) of
        None \<Rightarrow> w
      | Some shares \<Rightarrow>
          w\<lparr>remote := map_option (\<lambda>r. r\<lparr>config := config (the (handle w)),
                 devices := reconciled LXDock self shares (devices (the (handle w)))\<rparr>) (remote w),
            handle := map_option (\<lambda>h. h\<lparr>devices := reconciled LXDock self shares (devices h)\<rparr>)
                        (handle w),
            trace := trace w @ Log INFO ''Setting up shares...''
              # concat (map (lxdock_acl_events self (privileged_config (the (handle w)))
                               (sources_of LXDock (devices (the (handle w))))) shares)
              @ [Save]\<rparr>)"

definition nomad_shares_done :: "descriptor \<Rightarrow> world \<Rightarrow> world" where
  "nomad_shares_done self w =
     (let shares = (case opt_shares (options self) of None \<Rightarrow> [] | Some s \<Rightarrow> s)
      in w\<lparr>remote := map_option (\<lambda>r. r\<lparr>config := config (the (handle w)),
                 devices := reconciled Nomad self shares (devices (the (handle w)))\<rparr>) (remote w),
            handle := map_option (\<lambda>h. h\<lparr>devices := reconciled Nomad self shares (devices h)\<rparr>)
                        (handle w),
            trace := trace w
              @ concat (map (nomad_acl_events self (privileged_config (the (handle w)))
                               (sources_of Nomad (devices (the (handle w))))) shares)
              @ [Save]\<rparr>)"

definition env_done :: "descriptor \<Rightarrow> world \<Rightarrow> world" where
  "env_done self w =
     (if opt_environment (options self) = [] then w
      else w\<lparr>remote := map_option (\<lambda>r. r\<lparr>config := overridden (opt_environment (options self))
                                                       (config (the (handle w))),
                                         devices := devices (the (handle w))\<rparr>) (remote w),
             handle := map_option (\<lambda>h. h\<lparr>config := overridden (opt_environment (options self))
                                                       (config h)\<rparr>) (handle w),
             trace := trace w @ [Save]\<rparr>)"

text \<open>
  The state the next command starts from: a new process with a new \<^verbatim>\<open>Container\<close>
  object, nothing memoised and no address query made yet; the daemon's object and the
  resolution file are as the last command left them.
\<close>

definition next_command :: "world \<Rightarrow> world" where
  "next_command w = w\<lparr>handle := None, polls := 0\<rparr>"

definition remote_status :: "world \<Rightarrow> status option" where
  "remote_status w = map_option status_code (remote w)"

definition remote_config :: "world \<Rightarrow> string \<Rightarrow> string option" where
  "remote_config w key = (case remote w of None \<Rightarrow> None | Some c \<Rightarrow> map_of (config c) key)"

text \<open>The events of a provisioning run, in either variant.\<close>

definition provisioning_event :: "event \<Rightarrow> bool" where
  "provisioning_event e =
     (case e of ProvisionerSetup _ \<Rightarrow> True | ProvisionerProvision _ \<Rightarrow> True
        | GetSshPubkey \<Rightarrow> True | AddSshPubkey _ \<Rightarrow> True
        | PrepareDebian \<Rightarrow> True | ProvisionWithAnsible _ \<Rightarrow> True | _ \<Rightarrow> False)"

text \<open>The example project after an edit of its environment overrides.\<close>

definition edited_self :: descriptor where
  "edited_self =
     example_self\<lparr>options := example_options\<lparr>opt_environment := [(''LC_ALL'', ''en_US.UTF-8'')]\<rparr>\<rparr>"

definition always :: "string \<Rightarrow> nat \<Rightarrow> string" where
  "always ip n = ip"

text \<open>The events of \<^verbatim>\<open>_setup_users\<close>, \<^verbatim>\<open>_setup_shares\<close> and \<^verbatim>\<open>_setup_env\<close> when the handle is in place.\<close>

definition users_events :: "descriptor \<Rightarrow> event list" where
  "users_events self =
     (if opt_users (options self) = [] then []
      else Log INFO ''Ensuring users are created...''
             # map (\<lambda>u. CreateUser (user_name u) (user_home u) (user_password u))
                   (opt_users (options self)))"

definition lxdock_shares_events :: "descriptor \<Rightarrow> world \<Rightarrow> event list" where
  "lxdock_shares_events self w =
     (case opt_shares (options self) of
        None \<Rightarrow> []
      | Some shares \<Rightarrow>
          Log INFO ''Setting up shares...''
            # concat (map (lxdock_acl_events self (privileged_config (the (handle w)))
                             (sources_of LXDock (devices (the (handle w))))) shares)
            @ [Save])"

definition nomad_shares_events :: "descriptor \<Rightarrow> world \<Rightarrow> event list" where
  "nomad_shares_events self w =
     concat (map (nomad_acl_events self (privileged_config (the (handle w)))
                    (sources_of Nomad (devices (the (handle w)))))
               (case opt_shares (options self) of None \<Rightarrow> [] | Some s \<Rightarrow> s))
       @ [Save]"

definition env_events :: "descriptor \<Rightarrow> event list" where
  "env_events self = (if opt_environment (options self) = [] then [] else [Save])"

text \<open>
  The state of lxdock's \<^verbatim>\<open>up\<close> after the start, a successful IP acquisition and
  \<^verbatim>\<open>_setup_hostnames\<close>, from a state with the handle in place and \<open>polls w\<close> queries
  made.
\<close>

definition hostnames_events :: "descriptor \<Rightarrow> string \<Rightarrow> world \<Rightarrow> event list" where
  "hostnames_events self ip w =
     map (\<lambda>h. Log INFO (''Setting '' @ h @ '' to point to '' @ ip @ ''.'')) (opt_hostnames (options self))
       @ (if bind_all (opt_hostnames (options self)) ip (hosts_file w) \<noteq> hosts_file w
          then [Log INFO ''Saving host bindings to /etc/hosts. sudo may be needed'', EtcHostsSave]
          else [])"

definition after_hostnames :: "collaborators \<Rightarrow> descriptor \<Rightarrow> world \<Rightarrow> world" where
  "after_hostnames env self w =
     (set_status CONTAINER_RUNNING w)
       \<lparr>polls := Suc (polls w) + lxdock_ip_polls env (polls w),
        hosts_file := bind_all (opt_hostnames (options self)) (lxdock_ip env (polls w)) (hosts_file w),
        trace := trace w @ [Log INFO ''Starting container...'', Start]
          @ lxdock_ip_events env (polls w)
          @ Log INFO (''Container is up! IP: '' @ lxdock_ip env (polls w))
          # hostnames_events self (lxdock_ip env (polls w)) w\<rparr>"

definition gate_log :: "ProvisioningMode option \<Rightarrow> event list" where
  "gate_log mode =
     (if mode = Some DISABLED then []
      else [Log INFO ''Container already provisioned, not provisioning.''])"

text \<open>
  The example project's history: the state its first \<^verbatim>\<open>up\<close> leaves, on a host where no
  container exists and the address \<open>10.0.3.5\<close> is answered at once, and the state a \<^verbatim>\<open>halt\<close>
  given as the next command leaves.
\<close>

definition after_first_up :: world where
  "after_first_up =
     snd (lxdock_up (example_env (always ''10.0.3.5'')) example_self None absent_world)"

definition after_halt :: world where
  "after_halt =
     snd (halt LXDock (example_env (always ''10.0.3.5'')) example_self (next_command after_first_up))"

text \<open>
  The events of the steps that \<^verbatim>\<open>up\<close> takes once the container has an address (hostname
  setup, user creation, share reconciliation, override application, provisioning): the
  commands in the guest, the host-side grants, the saves of the container and of the
  resolution file.
\<close>

definition setup_step :: "event \<Rightarrow> bool" where
  "setup_step e =
     (guest_command e \<or> acl_grant e \<or> provisioning_event e \<or> e = Save \<or> e = EtcHostsSave)"

text \<open>
  What nomad's \<^verbatim>\<open>up\<close> does before the start: the lookup of the container, the share
  reconciliation when shares are declared, and the assignment of a static address to a
  container that carries the static flag.
\<close>

definition static_flag :: "pylxd_container \<Rightarrow> bool" where
  "static_flag c = (map_of (config c) ''user.nomad.static_ip'' = Some ''true'')"

definition nomad_prestart_events :: "collaborators \<Rightarrow> descriptor \<Rightarrow> world \<Rightarrow> event list" where
  "nomad_prestart_events env self w =
     touch_events Nomad env self w
       @ (if opt_shares (options self) \<noteq> None
          then Log INFO ''Setting up shares...'' # nomad_shares_events self (touched Nomad env self w)
          else [])
       @ (if static_flag (seen Nomad self w)
          then [FindFreeIp, SetStaticIp (fst (free_ip env)) (snd (free_ip env)), Save]
          else [])"

definition never :: "nat \<Rightarrow> string" where
  "never n = []"

section \<open>The identity resolver: length of the name\<close>

lemma length_py_slice_to:
  "length (py_slice_to s n) = (if 0 \<le> n then min (nat n) (length s) else length s - nat (- n))"
  by (auto simp: py_slice_to_def)

lemma lxd_name_of_length:
  "length project_id \<le> 63 \<Longrightarrow>
   length (lxd_name_of project name project_id) =
     min (63 - length project_id) (length project + 1 + length name) + 1 + length project_id"
  by (simp add: lxd_name_of_def Let_def length_py_slice_to min_def nat_diff_distrib)

text \<open>
  C4: the resolved name is said to be at most 63 characters long. The slice leaves room
  for the identifier but not for the hyphen that joins them: a project name of sixty
  letters, the container name \<open>web\<close> and the five-digit identifier \<open>12345\<close> give a name
  of 64 characters.
\<close>

theorem lxd_name_sixty_four:
  "length (lxd_name_of (replicate 60 CHR ''a'') ''web'' ''12345'') = 64"
  by (simp add: lxd_name_of_def Let_def py_slice_to_def)

section \<open>Running the handle and the hostname loops\<close>

lemmas monad_defs = return_def raise_def bindM_def thenM_def gets_def modify_def emit_def log_def
  try_except_def daemon_call_def

lemma container_cached [simp]:
  "handle w \<noteq> None \<Longrightarrow> container v env self w = (Inr (the (handle w)), w)"
  by (auto simp: container_def monad_defs)

lemma container_fetch:
  "handle w = None \<Longrightarrow> remote w \<noteq> None \<Longrightarrow>
   container v env self w =
     (Inr (the (remote w)),
      w\<lparr>handle := remote w, trace := trace w @ [ContainersGet (lxd_name env self)]\<rparr>)"
  by (auto simp: container_def get_container_def get_container_no_create_def monad_defs)

lemma container_create:
  "handle w = None \<Longrightarrow> remote w = None \<Longrightarrow> \<not> create_fails env \<Longrightarrow>
   container v env self w =
     (Inr (fresh_container v self),
      w\<lparr>remote := Some (fresh_container v self), handle := Some (fresh_container v self),
        trace := trace w @ creation_events v env self\<rparr>)"
  by (auto simp: container_def get_container_def get_container_no_create_def monad_defs
      fresh_container_def creation_events_def Let_def)

lemma container_create_fails:
  "handle w = None \<Longrightarrow> remote w = None \<Longrightarrow> create_fails env \<Longrightarrow>
   container v env self w =
     (Inl ContainerOperationFailed,
      w\<lparr>trace := trace w @ creation_events v env self @ [Log ERROR ''Can't create container'']\<rparr>)"
  by (auto simp: container_def get_container_def get_container_no_create_def monad_defs
      fresh_container_def creation_events_def Let_def)

lemma for_fold_pure:
  "for_fold xs (\<lambda>x e. thenM (log l (msg x)) (return (g x e))) e w =
     (Inr (fold g xs e), w\<lparr>trace := trace w @ map (\<lambda>x. Log l (msg x)) xs\<rparr>)"
  by (induction xs arbitrary: e w) (simp_all add: monad_defs)

lemma bindings_fold_absent:
  "bindings (fold ensure_binding_absent hs e) = unbind_all hs (bindings e)"
  by (induction hs arbitrary: e) (auto simp: ensure_binding_absent_def unbind_all_def fun_eq_iff)

lemma changed_fold_absent:
  "changed (fold ensure_binding_absent hs e) = (changed e \<or> (\<exists>h\<in>set hs. bindings e h \<noteq> None))"
  by (induction hs arbitrary: e) (auto simp: ensure_binding_absent_def)

lemma bindings_fold_present:
  "bindings (fold (\<lambda>h. ensure_binding_present h ip) hs e) = bind_all hs ip (bindings e)"
  by (induction hs arbitrary: e) (auto simp: ensure_binding_present_def bind_all_def fun_eq_iff)

lemma changed_fold_present:
  "changed (fold (\<lambda>h. ensure_binding_present h ip) hs e) =
     (changed e \<or> (\<exists>h\<in>set hs. bindings e h \<noteq> Some ip))"
  by (induction hs arbitrary: e) (auto simp: ensure_binding_present_def)

lemma unbind_all_changes: "(unbind_all hs f \<noteq> f) = (\<exists>h\<in>set hs. f h \<noteq> None)"
proof
  assume "unbind_all hs f \<noteq> f"
  then obtain h where "unbind_all hs f h \<noteq> f h" by (auto simp: fun_eq_iff)
  then have "h \<in> set hs \<and> f h \<noteq> None"
    by (cases "h \<in> set hs") (auto simp: unbind_all_def)
  then show "\<exists>h\<in>set hs. f h \<noteq> None" by blast
next
  assume "\<exists>h\<in>set hs. f h \<noteq> None"
  then obtain h where "h \<in> set hs" "f h \<noteq> None" by blast
  then have "unbind_all hs f h \<noteq> f h" by (auto simp: unbind_all_def)
  then show "unbind_all hs f \<noteq> f" by auto
qed

lemma bind_all_changes: "(bind_all hs ip f \<noteq> f) = (\<exists>h\<in>set hs. f h \<noteq> Some ip)"
proof
  assume "bind_all hs ip f \<noteq> f"
  then obtain h where "bind_all hs ip f h \<noteq> f h" by (auto simp: fun_eq_iff)
  then have "h \<in> set hs \<and> f h \<noteq> Some ip"
    by (cases "h \<in> set hs") (auto simp: bind_all_def)
  then show "\<exists>h\<in>set hs. f h \<noteq> Some ip" by blast
next
  assume "\<exists>h\<in>set hs. f h \<noteq> Some ip"
  then obtain h where "h \<in> set hs" "f h \<noteq> Some ip" by blast
  then have "bind_all hs ip f h \<noteq> f h" by (auto simp: bind_all_def)
  then show "bind_all hs ip f \<noteq> f" by auto
qed

lemma unsetup_hostnames_run:
  "unsetup_hostnames self w =
     (Inr (), w\<lparr>hosts_file := unbind_all (opt_hostnames (options self)) (hosts_file w),
               trace := trace w
                 @ map (\<lambda>h. Log INFO (''Unsetting '' @ h @ ''. sudo needed.'')) (opt_hostnames (options self))
                 @ (if unbind_all (opt_hostnames (options self)) (hosts_file w) \<noteq> hosts_file w
                    then [EtcHostsSave] else [])\<rparr>)"
proof (cases "opt_hostnames (options self) = []")
  case True
  then show ?thesis by (simp add: unsetup_hostnames_def return_def unbind_all_def)
next
  case False
  show ?thesis
  proof (cases "unbind_all (opt_hostnames (options self)) (hosts_file w) = hosts_file w")
    case True
    with False show ?thesis
      unfolding unsetup_hostnames_def Let_def EtcHosts_def etchosts_save_def for_fold_pure
      using unbind_all_changes [of "opt_hostnames (options self)" "hosts_file w"]
      by (simp add: bindM_def gets_def return_def changed_fold_absent bindings_fold_absent)
  next
    case changes: False
    with False show ?thesis
      unfolding unsetup_hostnames_def Let_def EtcHosts_def etchosts_save_def for_fold_pure
      using unbind_all_changes [of "opt_hostnames (options self)" "hosts_file w"]
      by (simp add: bindM_def gets_def return_def changed_fold_absent
          bindings_fold_absent thenM_def emit_def modify_def)
  qed
qed

lemma setup_hostnames_run:
  "setup_hostnames self ip w =
     (Inr (), w\<lparr>hosts_file := bind_all (opt_hostnames (options self)) ip (hosts_file w),
               trace := trace w
                 @ map (\<lambda>h. Log INFO (''Setting '' @ h @ '' to point to '' @ ip @ ''.'')) (opt_hostnames (options self))
                 @ (if bind_all (opt_hostnames (options self)) ip (hosts_file w) \<noteq> hosts_file w
                    then [Log INFO ''Saving host bindings to /etc/hosts. sudo may be needed'', EtcHostsSave]
                    else [])\<rparr>)"
proof (cases "opt_hostnames (options self) = []")
  case True
  then show ?thesis by (simp add: setup_hostnames_def return_def bind_all_def)
next
  case False
  show ?thesis
  proof (cases "bind_all (opt_hostnames (options self)) ip (hosts_file w) = hosts_file w")
    case True
    with False show ?thesis
      unfolding setup_hostnames_def Let_def EtcHosts_def etchosts_save_def for_fold_pure
      using bind_all_changes [of "opt_hostnames (options self)" ip "hosts_file w"]
      by (simp add: bindM_def gets_def return_def changed_fold_present bindings_fold_present)
  next
    case changes: False
    with False show ?thesis
      unfolding setup_hostnames_def Let_def EtcHosts_def etchosts_save_def for_fold_pure
      using bind_all_changes [of "opt_hostnames (options self)" ip "hosts_file w"]
      by (simp add: bindM_def gets_def return_def changed_fold_present
          bindings_fold_present thenM_def emit_def modify_def log_def)
  qed
qed

section \<open>Guards, halt and destroy\<close>

lemma events_of_append [simp]: "trace w' = trace w @ t \<Longrightarrow> events_of w w' = t"
  by (simp add: events_of_def)

lemma mutation_creation_events [simp]:
  "filter daemon_mutation (creation_events v env self) = [ContainersCreate (container_config v env self)]"
  by (simp add: creation_events_def daemon_mutation_def)

lemma is_stopped_absent:
  "is_stopped v env self absent_world =
     (if create_fails env
      then (Inl ContainerOperationFailed,
            absent_world\<lparr>trace := creation_events v env self @ [Log ERROR ''Can't create container'']\<rparr>)
      else (Inr True,
            absent_world\<lparr>remote := Some (fresh_container v self), handle := Some (fresh_container v self),
                          trace := creation_events v env self\<rparr>))"
  by (simp add: is_stopped_def bindM_def return_def container_create container_create_fails
      absent_world_def fresh_container_def)

lemma is_running_absent:
  "is_running v env self absent_world =
     (if create_fails env
      then (Inl ContainerOperationFailed,
            absent_world\<lparr>trace := creation_events v env self @ [Log ERROR ''Can't create container'']\<rparr>)
      else (Inr False,
            absent_world\<lparr>remote := Some (fresh_container v self), handle := Some (fresh_container v self),
                          trace := creation_events v env self\<rparr>))"
  by (simp add: is_running_def bindM_def return_def container_create container_create_fails
      absent_world_def fresh_container_def)

lemma destroy_absent:
  "destroy v env self absent_world =
     (Inr (), absent_world\<lparr>trace := [ContainersGet (lxd_name env self),
                                      Log INFO ''Container doesn't exist, nothing to destroy.'']\<rparr>)"
  by (simp add: destroy_def get_container_no_create_def absent_world_def monad_defs)

lemma lxdock_guard_absent:
  "must_be_created_and_running env self method absent_world =
     (Inr (), absent_world\<lparr>trace := [ContainersGet (lxd_name env self),
                                      Log ERROR ''The container is not created.'']\<rparr>)"
  by (simp add: must_be_created_and_running_def exists_def get_container_no_create_def
      absent_world_def monad_defs)

lemma lxdock_guard_not_running:
  "status_code c \<noteq> CONTAINER_RUNNING \<Longrightarrow>
   must_be_created_and_running env self method (present_world c hosts) =
     (Inr (), (present_world c hosts)\<lparr>handle := Some c,
                trace := [ContainersGet (lxd_name env self), ContainersGet (lxd_name env self),
                          Log ERROR ''The container is not running.'']\<rparr>)"
  by (simp add: must_be_created_and_running_def exists_def get_container_no_create_def
      is_running_def container_fetch present_world_def monad_defs)

text \<open>
  C5: \<^verbatim>\<open>halt\<close> on a container the daemon does not have is said to make no daemon
  mutation call. Its first statement reads \<^verbatim>\<open>self.is_stopped\<close>, which reads
  \<^verbatim>\<open>self._container\<close>, which creates the container: the one mutation call of the run is
  the creation.
\<close>

theorem halt_absent_creates:
  "filter daemon_mutation (trace (snd (halt v env self absent_world)))
     = [ContainersCreate (container_config v env self)]"
  by (simp add: halt_def bindM_def is_stopped_absent log_def emit_def modify_def
      daemon_mutation_def)

text \<open>
  C6: \<^verbatim>\<open>provision\<close> and \<^verbatim>\<open>shell\<close> on a container the daemon does not have are said
  to return without effect. In nomad the guard \<^verbatim>\<open>must_be_running\<close> reads
  \<^verbatim>\<open>self.is_running\<close>, which creates the container before the guard can refuse.
\<close>

theorem nomad_guard_absent_creates:
  "filter daemon_mutation (trace (snd (nomad_provision env self barebone absent_world)))
     = [ContainersCreate (container_config Nomad env self)]
   \<and> filter daemon_mutation (trace (snd (nomad_shell env self absent_world)))
     = [ContainersCreate (container_config Nomad env self)]"
  by (simp add: nomad_provision_def nomad_shell_def must_be_running_def bindM_def
      is_running_absent log_def emit_def modify_def daemon_mutation_def)

section \<open>Stopping: the graceful stop and its fallback\<close>

lemma container_stop_run:
  "handle w \<noteq> None \<Longrightarrow> remote w \<noteq> None \<Longrightarrow>
   container_stop v env self timeout force w =
     (if force = Some False \<and> graceful_stop_fails env
      then (Inl LXDAPIException, w\<lparr>trace := trace w @ [Stop timeout force]\<rparr>)
      else (Inr (), set_status CONTAINER_STOPPED (w\<lparr>trace := trace w @ [Stop timeout force]\<rparr>)))"
  by (auto simp: container_stop_def monad_defs)

lemma halt_run:
  assumes "handle w \<noteq> None" and "remote w \<noteq> None"
    and "status_code (the (handle w)) \<noteq> CONTAINER_STOPPED"
  shows "halt v env self w =
     (Inr (), set_status CONTAINER_STOPPED
                (w\<lparr>hosts_file := unbind_all (opt_hostnames (options self)) (hosts_file w),
                   trace := trace w @ halt_events env self w\<rparr>))"
  using assms
  by (simp add: halt_def is_stopped_def unsetup_hostnames_run container_stop_run
      halt_events_def unsetup_events_def monad_defs set_status_def)

lemma filter_stop_halt_events [simp]:
  "filter is_stop (halt_events env self w) =
     Stop (Some 30) (Some False) # (if graceful_stop_fails env then [Stop None (Some True)] else [])"
  by (simp add: halt_events_def unsetup_events_def is_stop_def)

text \<open>
  C9: on an existing container that is not stopped, \<^verbatim>\<open>halt\<close> returns normally and its
  stop calls are the graceful one (timeout 30, not forced), followed by one forced stop
  exactly when the daemon rejected the graceful one.
\<close>

theorem halt_graceful_then_forced:
  assumes "remote w = Some c" and "handle w = None \<or> handle w = Some c"
    and "status_code c \<noteq> CONTAINER_STOPPED"
  shows "\<exists>w'. halt v env self w = (Inr (), w')
           \<and> filter is_stop (events_of w w')
               = Stop (Some 30) (Some False)
                   # (if graceful_stop_fails env then [Stop None (Some True)] else [])
           \<and> map_option status_code (remote w') = Some CONTAINER_STOPPED"
proof (cases "handle w")
  case None
  let ?w1 = "w\<lparr>handle := remote w, trace := trace w @ [ContainersGet (lxd_name env self)]\<rparr>"
  have fetch: "is_stopped v env self w = (Inr False, ?w1)"
    using None assms by (simp add: is_stopped_def bindM_def return_def container_fetch)
  have rest: "halt v env self ?w1 =
     (Inr (), set_status CONTAINER_STOPPED
                (?w1\<lparr>hosts_file := unbind_all (opt_hostnames (options self)) (hosts_file ?w1),
                     trace := trace ?w1 @ halt_events env self ?w1\<rparr>))"
    using assms by (intro halt_run) simp_all
  have cached: "is_stopped v env self ?w1 = (Inr False, ?w1)"
    using assms by (simp add: is_stopped_def bindM_def return_def)
  have same: "halt v env self w = halt v env self ?w1"
    by (simp add: halt_def bindM_def fetch cached)
  show ?thesis
    unfolding same rest using assms
    by (simp add: set_status_def events_of_def is_stop_def)
next
  case (Some h)
  with assms have "h = c" by simp
  with Some assms show ?thesis
    by (simp add: halt_run set_status_def)
qed

section \<open>Running the calls on a handle that is there\<close>

lemma set_config_run [simp]:
  "handle w \<noteq> None \<Longrightarrow>
   set_config v env self key val w =
     (Inr (), w\<lparr>handle := map_option (\<lambda>c. c\<lparr>config := AList.update key val (config c)\<rparr>) (handle w)\<rparr>)"
  by (simp add: set_config_def monad_defs)

lemma container_save_run [simp]:
  "handle w \<noteq> None \<Longrightarrow> remote w \<noteq> None \<Longrightarrow>
   container_save v env self w =
     (Inr (), w\<lparr>remote := map_option (\<lambda>r. r\<lparr>config := config (the (handle w)),
                                               devices := devices (the (handle w))\<rparr>) (remote w),
               trace := trace w @ [Save]\<rparr>)"
  by (auto simp: container_save_def monad_defs)

lemma container_start_run [simp]:
  "handle w \<noteq> None \<Longrightarrow> remote w \<noteq> None \<Longrightarrow>
   container_start v env self w =
     (Inr (), set_status (start_status env) (w\<lparr>trace := trace w @ [Start]\<rparr>))"
  by (auto simp: container_start_def monad_defs)

lemma adapter_call_run [simp]:
  "handle w \<noteq> None \<Longrightarrow> adapter_call v env self e w = (Inr (), w\<lparr>trace := trace w @ [e]\<rparr>)"
  by (simp add: adapter_call_def monad_defs)

lemma get_ip_run [simp]:
  "handle w \<noteq> None \<Longrightarrow>
   get_ip v env self w =
     (Inr (ip_at env (polls w)), w\<lparr>polls := Suc (polls w), trace := trace w @ [GetIp]\<rparr>)"
  by (simp add: get_ip_def monad_defs)

lemma set_status_fields [simp]:
  "handle (set_status s w) = map_option (\<lambda>c. c\<lparr>status_code := s\<rparr>) (handle w)"
  "remote (set_status s w) = map_option (\<lambda>c. c\<lparr>status_code := s\<rparr>) (remote w)"
  "trace (set_status s w) = trace w"
  "polls (set_status s w) = polls w"
  "hosts_file (set_status s w) = hosts_file w"
  by (simp_all add: set_status_def)

section \<open>IP acquisition\<close>

lemma poll_events_Suc: "poll_events (Suc n) = [Sleep 1, GetIp] @ poll_events n"
  by (simp add: poll_events_def)

lemma wait_for_ip_run:
  "handle w \<noteq> None \<Longrightarrow>
   wait_for_ip v env self n w =
     (Inr (first_ip env (polls w) n),
      w\<lparr>polls := polls w + polls_until env (polls w) n,
        trace := trace w @ poll_events (polls_until env (polls w) n)\<rparr>)"
proof (induction n arbitrary: w)
  case 0
  then show ?case by (simp add: return_def poll_events_def)
next
  case (Suc n)
  let ?w1 = "w\<lparr>polls := Suc (polls w), trace := trace w @ [Sleep 1, GetIp]\<rparr>"
  have step: "wait_for_ip v env self (Suc n) w =
      (if ip_at env (polls w) \<noteq> [] then (Inr (ip_at env (polls w)), ?w1)
       else wait_for_ip v env self n ?w1)"
    using Suc.prems by (simp add: monad_defs)
  have "handle ?w1 \<noteq> None" using Suc.prems by simp
  from Suc.IH [OF this] show ?case
    unfolding step by (simp add: poll_events_Suc poll_events_def)
qed

lemma first_ip_found:
  "k < n \<Longrightarrow> \<forall>j<k. ip_at env (p + j) = [] \<Longrightarrow> ip_at env (p + k) \<noteq> [] \<Longrightarrow>
   first_ip env p n = ip_at env (p + k) \<and> polls_until env p n = Suc k"
proof (induction n arbitrary: p k)
  case 0
  then show ?case by simp
next
  case (Suc n)
  show ?case
  proof (cases k)
    case 0
    with Suc.prems show ?thesis by simp
  next
    case (Suc k')
    with Suc.prems have empty: "ip_at env p = []" by (metis add.right_neutral zero_less_Suc)
    have "k' < n" using Suc.prems(1) Suc by simp
    moreover have "\<forall>j<k'. ip_at env (Suc p + j) = []"
      using Suc.prems(2) Suc by (metis Suc_less_eq add_Suc_shift)
    moreover have "ip_at env (Suc p + k') \<noteq> []" using Suc.prems(3) Suc by simp
    ultimately have "first_ip env (Suc p) n = ip_at env (Suc p + k') \<and> polls_until env (Suc p) n = Suc k'"
      by (rule Suc.IH)
    with empty Suc show ?thesis by simp
  qed
qed

lemma first_ip_none:
  "\<forall>j<n. ip_at env (p + j) = [] \<Longrightarrow> first_ip env p n = [] \<and> polls_until env p n = n"
proof (induction n arbitrary: p)
  case 0
  then show ?case by simp
next
  case (Suc n)
  have empty: "ip_at env p = []" using Suc.prems by (metis add.right_neutral zero_less_Suc)
  have "\<forall>j<n. ip_at env (Suc p + j) = []"
    using Suc.prems by (metis Suc_less_eq add_Suc_shift)
  then have "first_ip env (Suc p) n = [] \<and> polls_until env (Suc p) n = n" by (rule Suc.IH)
  with empty show ?case by simp
qed

lemma polls_until_le: "polls_until env p n \<le> n"
  by (induction n arbitrary: p) auto

lemma filter_sleep_poll_events [simp]: "filter is_sleep (poll_events n) = replicate n (Sleep 1)"
  by (induction n) (simp_all add: poll_events_def is_sleep_def)

lemma filter_query_poll_events [simp]: "filter is_query (poll_events n) = replicate n GetIp"
  by (induction n) (simp_all add: poll_events_def is_query_def)

lemma filter_fallback_poll_events [simp]: "filter in_fallback (poll_events n) = []"
  by (induction n)
     (simp_all add: poll_events_def in_fallback_def daemon_mutation_def guest_command_def)

section \<open>IP acquisition: the two variants\<close>

lemma lxdock_setup_ip_run:
  "handle w \<noteq> None \<Longrightarrow>
   lxdock_setup_ip env self w =
     (Inr (lxdock_ip env (polls w)),
      w\<lparr>polls := Suc (polls w) + lxdock_ip_polls env (polls w),
        trace := trace w @ lxdock_ip_events env (polls w)\<rparr>)"
  by (simp add: lxdock_setup_ip_def wait_for_ip_run lxdock_ip_def lxdock_ip_polls_def
      lxdock_ip_events_def give_up_events_def monad_defs)

lemma assign_free_static_ip_run:
  "handle w \<noteq> None \<Longrightarrow> remote w \<noteq> None \<Longrightarrow>
   \<exists>w'. assign_free_static_ip env self w = (Inr (), w')
      \<and> handle w' \<noteq> None \<and> remote w' \<noteq> None \<and> hosts_file w' = hosts_file w
      \<and> polls w' = polls w
      \<and> trace w' = trace w @ [FindFreeIp, SetStaticIp (fst (free_ip env)) (snd (free_ip env)), Save]"
  by (simp add: assign_free_static_ip_def monad_defs)

lemma nomad_setup_ip_run:
  assumes "handle w \<noteq> None" and "remote w \<noteq> None"
  shows "\<exists>w'. nomad_setup_ip env self w = (Inr (nomad_ip env (polls w)), w')
      \<and> handle w' \<noteq> None \<and> remote w' \<noteq> None \<and> hosts_file w' = hosts_file w
      \<and> trace w' = trace w @ nomad_ip_events env (polls w)"
  using assms
  by (simp add: nomad_setup_ip_def wait_for_ip_run container_stop_run assign_free_static_ip_def
      nomad_ip_def nomad_ip_events_def give_up_events_def fallback_cycle_def monad_defs)


lemma filter_give_up [simp]:
  "filter is_sleep give_up_events = []" "filter is_query give_up_events = []"
  "filter in_fallback give_up_events = []"
  by (simp_all add: give_up_events_def is_sleep_def is_query_def in_fallback_def
      daemon_mutation_def guest_command_def)

lemma filter_fallback_cycle [simp]:
  "filter is_sleep (fallback_cycle env) = []" "filter is_query (fallback_cycle env) = []"
  "filter in_fallback (fallback_cycle env) = fallback_cycle env"
  by (simp_all add: fallback_cycle_def is_sleep_def is_query_def in_fallback_def
      daemon_mutation_def guest_command_def)

lemma filter_lxdock_ip_events:
  "filter is_sleep (lxdock_ip_events env p) = replicate (lxdock_ip_polls env p) (Sleep 1)"
  "filter is_query (lxdock_ip_events env p) = replicate (Suc (lxdock_ip_polls env p)) GetIp"
  "filter in_fallback (lxdock_ip_events env p) = []"
  by (simp_all add: lxdock_ip_events_def lxdock_ip_polls_def is_sleep_def is_query_def
      in_fallback_def daemon_mutation_def guest_command_def)

lemma filter_nomad_ip_events:
  "filter in_fallback (nomad_ip_events env p) =
     (if ip_at env p = [] \<and> first_ip env (Suc p) 10 = [] then fallback_cycle env else [])"
  "filter is_sleep (nomad_ip_events env p) =
     (if ip_at env p \<noteq> [] then []
      else replicate (polls_until env (Suc p) 10) (Sleep 1)
           @ (if first_ip env (Suc p) 10 \<noteq> [] then []
              else replicate (polls_until env (Suc p + polls_until env (Suc p) 10) 10) (Sleep 1)))"
  by (simp_all add: nomad_ip_events_def is_sleep_def is_query_def
      in_fallback_def daemon_mutation_def guest_command_def)

lemma empty_window_split:
  assumes "\<forall>j<Suc n. ip_at env (p + j) = []"
  shows "ip_at env p = []" and "\<forall>j<n. ip_at env (Suc p + j) = []"
proof -
  from assms have "ip_at env (p + 0) = []" by blast
  then show "ip_at env p = []" by simp
  show "\<forall>j<n. ip_at env (Suc p + j) = []"
  proof (intro allI impI)
    fix j assume "j < n"
    then have "Suc j < Suc n" by simp
    with assms have "ip_at env (p + Suc j) = []" by blast
    then show "ip_at env (Suc p + j) = []" by simp
  qed
qed

lemma empty_window_shift:
  assumes "\<forall>j<m + n. ip_at env (p + j) = []"
  shows "\<forall>j<n. ip_at env (p + m + j) = []"
proof (intro allI impI)
  fix j assume "j < n"
  then have "m + j < m + n" by simp
  with assms have "ip_at env (p + (m + j)) = []" by blast
  then show "ip_at env (p + m + j) = []" by (simp add: add.assoc)
qed

text \<open>
  C3: IP acquisition. With the handle in place and \<open>p\<close> queries made before:
  an address in the first answer is returned at once (one query, no sleep);
  otherwise each poll sleeps one second and queries once, and the first of the ten polls
  that sees an address returns it (the tenth is \<open>k = 9\<close>), with no stop, no static
  address and no restart;
  when the first answer and all ten polls are empty, lxdock returns the empty result
  after ten sleeps and eleven queries, while nomad makes exactly one
  stop / find free address / push static configuration / save / start cycle and then
  polls at most ten times more, returning the first address these polls see, or the
  empty result after twenty sleeps in all.
\<close>

theorem ip_acquisition:
  assumes "handle w \<noteq> None" and "remote w \<noteq> None"
  shows
   "(ip_at env (polls w) \<noteq> [] \<longrightarrow>
       (\<exists>w'. lxdock_setup_ip env self w = (Inr (ip_at env (polls w)), w')
              \<and> events_of w w' = [GetIp])
     \<and> (\<exists>w'. nomad_setup_ip env self w = (Inr (ip_at env (polls w)), w')
              \<and> events_of w w' = [GetIp]))
  \<and> (ip_at env (polls w) = [] \<and> k < 10 \<and> (\<forall>j<k. ip_at env (Suc (polls w) + j) = [])
        \<and> ip_at env (Suc (polls w) + k) \<noteq> [] \<longrightarrow>
       (\<exists>w'. lxdock_setup_ip env self w = (Inr (ip_at env (Suc (polls w) + k)), w')
              \<and> filter is_sleep (events_of w w') = replicate (Suc k) (Sleep 1)
              \<and> filter is_query (events_of w w') = replicate (Suc (Suc k)) GetIp
              \<and> filter in_fallback (events_of w w') = [])
     \<and> (\<exists>w'. nomad_setup_ip env self w = (Inr (ip_at env (Suc (polls w) + k)), w')
              \<and> filter is_sleep (events_of w w') = replicate (Suc k) (Sleep 1)
              \<and> filter in_fallback (events_of w w') = []))
  \<and> ((\<forall>j<11. ip_at env (polls w + j) = []) \<longrightarrow>
       (\<exists>w'. lxdock_setup_ip env self w = (Inr [], w')
              \<and> filter is_sleep (events_of w w') = replicate 10 (Sleep 1)
              \<and> filter is_query (events_of w w') = replicate 11 GetIp
              \<and> filter in_fallback (events_of w w') = [])
     \<and> (\<exists>w'. nomad_setup_ip env self w = (Inr (first_ip env (polls w + 11) 10), w')
              \<and> filter in_fallback (events_of w w') = fallback_cycle env
              \<and> filter is_sleep (events_of w w')
                   = replicate (10 + polls_until env (polls w + 11) 10) (Sleep 1)))
  \<and> ((\<forall>j<21. ip_at env (polls w + j) = []) \<longrightarrow>
       (\<exists>w'. nomad_setup_ip env self w = (Inr [], w')
              \<and> filter in_fallback (events_of w w') = fallback_cycle env
              \<and> filter is_sleep (events_of w w') = replicate 20 (Sleep 1)))"
proof (intro conjI impI)
  assume fast: "ip_at env (polls w) \<noteq> []"
  show "\<exists>w'. lxdock_setup_ip env self w = (Inr (ip_at env (polls w)), w') \<and> events_of w w' = [GetIp]"
    using assms fast
    by (simp add: lxdock_setup_ip_run lxdock_ip_def lxdock_ip_events_def)
  from nomad_setup_ip_run [OF assms, of env self]
  show "\<exists>w'. nomad_setup_ip env self w = (Inr (ip_at env (polls w)), w') \<and> events_of w w' = [GetIp]"
    using fast by (auto simp: nomad_ip_def nomad_ip_events_def)
next
  assume found: "ip_at env (polls w) = [] \<and> k < 10 \<and> (\<forall>j<k. ip_at env (Suc (polls w) + j) = [])
        \<and> ip_at env (Suc (polls w) + k) \<noteq> []"
  then have first: "first_ip env (Suc (polls w)) 10 = ip_at env (Suc (polls w) + k)
        \<and> polls_until env (Suc (polls w)) 10 = Suc k"
    by (intro first_ip_found) simp_all
  show "\<exists>w'. lxdock_setup_ip env self w = (Inr (ip_at env (Suc (polls w) + k)), w')
              \<and> filter is_sleep (events_of w w') = replicate (Suc k) (Sleep 1)
              \<and> filter is_query (events_of w w') = replicate (Suc (Suc k)) GetIp
              \<and> filter in_fallback (events_of w w') = []"
    using assms found first
    by (simp add: lxdock_setup_ip_run filter_lxdock_ip_events lxdock_ip_def lxdock_ip_polls_def)
  from nomad_setup_ip_run [OF assms, of env self]
  show "\<exists>w'. nomad_setup_ip env self w = (Inr (ip_at env (Suc (polls w) + k)), w')
              \<and> filter is_sleep (events_of w w') = replicate (Suc k) (Sleep 1)
              \<and> filter in_fallback (events_of w w') = []"
    using found first by (auto simp: nomad_ip_def filter_nomad_ip_events)
next
  assume none: "\<forall>j<11. ip_at env (polls w + j) = []"
  then have "\<forall>j<Suc 10. ip_at env (polls w + j) = []" by simp
  then have e0: "ip_at env (polls w) = []" and e10: "\<forall>j<10. ip_at env (Suc (polls w) + j) = []"
    by (rule empty_window_split)+
  from e10 have first: "first_ip env (Suc (polls w)) 10 = [] \<and> polls_until env (Suc (polls w)) 10 = 10"
    by (rule first_ip_none)
  show "\<exists>w'. lxdock_setup_ip env self w = (Inr [], w')
              \<and> filter is_sleep (events_of w w') = replicate 10 (Sleep 1)
              \<and> filter is_query (events_of w w') = replicate 11 GetIp
              \<and> filter in_fallback (events_of w w') = []"
    using assms e0 first
    by (simp add: lxdock_setup_ip_run filter_lxdock_ip_events lxdock_ip_def lxdock_ip_polls_def)
  from nomad_setup_ip_run [OF assms, of env self]
  show "\<exists>w'. nomad_setup_ip env self w = (Inr (first_ip env (polls w + 11) 10), w')
              \<and> filter in_fallback (events_of w w') = fallback_cycle env
              \<and> filter is_sleep (events_of w w')
                   = replicate (10 + polls_until env (polls w + 11) 10) (Sleep 1)"
    using e0 first
    by (auto simp: nomad_ip_def filter_nomad_ip_events replicate_add add.commute [of "polls w" 11])
next
  assume none: "\<forall>j<21. ip_at env (polls w + j) = []"
  then have "\<forall>j<Suc 10. ip_at env (polls w + j) = []" by simp
  then have e0: "ip_at env (polls w) = []" and e10: "\<forall>j<10. ip_at env (Suc (polls w) + j) = []"
    by (rule empty_window_split)+
  from e10 have first: "first_ip env (Suc (polls w)) 10 = [] \<and> polls_until env (Suc (polls w)) 10 = 10"
    by (rule first_ip_none)
  from none have "\<forall>j<11 + 10. ip_at env (polls w + j) = []" by simp
  then have "\<forall>j<10. ip_at env (polls w + 11 + j) = []" by (rule empty_window_shift)
  then have second: "first_ip env (polls w + 11) 10 = [] \<and> polls_until env (polls w + 11) 10 = 10"
    by (rule first_ip_none)
  from nomad_setup_ip_run [OF assms, of env self]
  show "\<exists>w'. nomad_setup_ip env self w = (Inr [], w')
              \<and> filter in_fallback (events_of w w') = fallback_cycle env
              \<and> filter is_sleep (events_of w w') = replicate 20 (Sleep 1)"
    using e0 first second
    by (auto simp: nomad_ip_def filter_nomad_ip_events add.commute [of "polls w" 11]
        simp flip: replicate_add)
qed

section \<open>Witnesses for stopping and IP acquisition\<close>

theorem halt_graceful_then_forced_witness:
  "remote (present_world (example_container CONTAINER_RUNNING) Map.empty)
     = Some (example_container CONTAINER_RUNNING)
   \<and> handle (present_world (example_container CONTAINER_RUNNING) Map.empty) = None
   \<and> status_code (example_container CONTAINER_RUNNING) \<noteq> CONTAINER_STOPPED
   \<and> (\<exists>w'. halt LXDock (example_env tenth_poll) example_self
               (present_world (example_container CONTAINER_RUNNING) Map.empty) = (Inr (), w')
          \<and> filter is_stop (events_of (present_world (example_container CONTAINER_RUNNING) Map.empty) w')
               = [Stop (Some 30) (Some False), Stop None (Some True)]
          \<and> map_option status_code (remote w') = Some CONTAINER_STOPPED)"
proof -
  have h1: "remote (present_world (example_container CONTAINER_RUNNING) Map.empty)
     = Some (example_container CONTAINER_RUNNING)"
    by (simp add: present_world_def)
  have h2: "handle (present_world (example_container CONTAINER_RUNNING) Map.empty) = None
     \<or> handle (present_world (example_container CONTAINER_RUNNING) Map.empty)
          = Some (example_container CONTAINER_RUNNING)"
    by (simp add: present_world_def)
  have h3: "status_code (example_container CONTAINER_RUNNING) \<noteq> CONTAINER_STOPPED"
    by (simp add: example_container_def)
  have fails: "graceful_stop_fails (example_env tenth_poll)" by (simp add: example_env_def)
  from halt_graceful_then_forced [OF h1 h2 h3, of LXDock "example_env tenth_poll" example_self]
  show ?thesis using h1 h3 fails by (simp add: present_world_def)
qed

theorem ip_acquisition_witness:
  "handle (fetched_world (example_container CONTAINER_RUNNING) Map.empty) \<noteq> None
   \<and> remote (fetched_world (example_container CONTAINER_RUNNING) Map.empty) \<noteq> None
   \<and> ip_at (example_env (\<lambda>n. ''10.0.3.5'')) 0 \<noteq> []
   \<and> (\<exists>w'. lxdock_setup_ip (example_env (\<lambda>n. ''10.0.3.5'')) example_self
               (fetched_world (example_container CONTAINER_RUNNING) Map.empty) = (Inr ''10.0.3.5'', w')
          \<and> events_of (fetched_world (example_container CONTAINER_RUNNING) Map.empty) w' = [GetIp])
   \<and> ip_at (example_env tenth_poll) 0 = [] \<and> (9::nat) < 10
   \<and> ip_at (example_env tenth_poll) (Suc 0 + 9) \<noteq> []
   \<and> (\<exists>w'. lxdock_setup_ip (example_env tenth_poll) example_self
               (fetched_world (example_container CONTAINER_RUNNING) Map.empty) = (Inr ''10.0.3.5'', w')
          \<and> filter is_sleep (events_of (fetched_world (example_container CONTAINER_RUNNING) Map.empty) w')
               = replicate 10 (Sleep 1))
   \<and> ip_at (example_env (\<lambda>n. [])) 20 = []
   \<and> (\<exists>w'. nomad_setup_ip (example_env (\<lambda>n. [])) example_self
               (fetched_world (example_container CONTAINER_RUNNING) Map.empty) = (Inr [], w')
          \<and> filter in_fallback (events_of (fetched_world (example_container CONTAINER_RUNNING) Map.empty) w')
               = [Stop None None, FindFreeIp, SetStaticIp ''10.0.3.100'' ''10.0.3.1'', Save, Start]
          \<and> filter is_sleep (events_of (fetched_world (example_container CONTAINER_RUNNING) Map.empty) w')
               = replicate 20 (Sleep 1))"
proof -
  let ?w = "fetched_world (example_container CONTAINER_RUNNING) Map.empty"
  have h1: "handle ?w \<noteq> None" and h2: "remote ?w \<noteq> None" and p: "polls ?w = 0"
    by (simp_all add: fetched_world_def)
  have fast: "ip_at (example_env (\<lambda>n. ''10.0.3.5'')) (polls ?w) \<noteq> []"
    by (simp add: example_env_def)
  have tenth: "ip_at (example_env tenth_poll) (polls ?w) = [] \<and> (9::nat) < 10
      \<and> (\<forall>j<9. ip_at (example_env tenth_poll) (Suc (polls ?w) + j) = [])
      \<and> ip_at (example_env tenth_poll) (Suc (polls ?w) + 9) \<noteq> []"
    by (simp add: example_env_def tenth_poll_def p)
  have never: "\<forall>j<21. ip_at (example_env (\<lambda>n. [])) (polls ?w + j) = []"
    by (simp add: example_env_def)
  have cycle: "fallback_cycle (example_env (\<lambda>n. []))
      = [Stop None None, FindFreeIp, SetStaticIp ''10.0.3.100'' ''10.0.3.1'', Save, Start]"
    by (simp add: fallback_cycle_def example_env_def)
  have a: "\<exists>w'. lxdock_setup_ip (example_env (\<lambda>n. ''10.0.3.5'')) example_self ?w
                  = (Inr (ip_at (example_env (\<lambda>n. ''10.0.3.5'')) (polls ?w)), w')
             \<and> events_of ?w w' = [GetIp]"
    using ip_acquisition [OF h1 h2, where env = "example_env (\<lambda>n. ''10.0.3.5'')" and self = example_self]
      fast by blast
  have b: "\<exists>w'. lxdock_setup_ip (example_env tenth_poll) example_self ?w
                  = (Inr (ip_at (example_env tenth_poll) (Suc (polls ?w) + 9)), w')
             \<and> filter is_sleep (events_of ?w w') = replicate (Suc 9) (Sleep 1)"
    using ip_acquisition [OF h1 h2, where env = "example_env tenth_poll" and self = example_self
        and k = 9] tenth by blast
  have c: "\<exists>w'. nomad_setup_ip (example_env (\<lambda>n. [])) example_self ?w = (Inr [], w')
             \<and> filter in_fallback (events_of ?w w') = fallback_cycle (example_env (\<lambda>n. []))
             \<and> filter is_sleep (events_of ?w w') = replicate 20 (Sleep 1)"
    using ip_acquisition [OF h1 h2, where env = "example_env (\<lambda>n. [])" and self = example_self]
      never by blast
  have ip_fast: "ip_at (example_env (\<lambda>n. ''10.0.3.5'')) 0 = ''10.0.3.5''"
    by (simp add: example_env_def)
  have ip_tenth: "ip_at (example_env tenth_poll) 10 = ''10.0.3.5''"
    by (simp add: example_env_def tenth_poll_def)
  show ?thesis
    using h1 h2 fast tenth never a b c
    unfolding cycle p by (simp add: ip_fast ip_tenth)
qed

section \<open>Share keys\<close>

lemma digit_char_inj: "a < 10 \<Longrightarrow> b < 10 \<Longrightarrow> digit_char a = digit_char b \<Longrightarrow> a = b"
proof -
  assume a: "a < 10" and b: "b < 10" and eq: "digit_char a = digit_char b"
  from eq have "(of_char (char_of (48 + a)) :: nat) = of_char (char_of (48 + b))"
    by (simp add: digit_char_def)
  with a b show "a = b" by simp
qed

lemma str_nat_nonempty: "str_nat n \<noteq> []"
  by (subst str_nat.simps) simp

lemma str_nat_inj: "str_nat m = str_nat n \<Longrightarrow> m = n"
proof (induction m arbitrary: n rule: str_nat.induct)
  case (1 m)
  show ?case
  proof (cases "m < 10")
    case small: True
    show ?thesis
    proof (cases "n < 10")
      case True
      with small "1.prems" show ?thesis
        by (simp add: str_nat.simps [of m] str_nat.simps [of n] digit_char_inj)
    next
      case False
      with small "1.prems" str_nat_nonempty [of "n div 10"] show ?thesis
        by (simp add: str_nat.simps [of m] str_nat.simps [of n])
    qed
  next
    case big: False
    show ?thesis
    proof (cases "n < 10")
      case True
      with big "1.prems" str_nat_nonempty [of "m div 10"] show ?thesis
        by (simp add: str_nat.simps [of m] str_nat.simps [of n])
    next
      case False
      with big "1.prems" have front: "str_nat (m div 10) = str_nat (n div 10)"
        and units: "digit_char (m mod 10) = digit_char (n mod 10)"
        by (simp_all add: str_nat.simps [of m] str_nat.simps [of n])
      from "1.IH" [OF big front] have "m div 10 = n div 10" .
      moreover from units have "m mod 10 = n mod 10" by (intro digit_char_inj) simp_all
      ultimately show ?thesis by (metis div_mult_mod_eq)
    qed
  qed
qed

lemma share_key_inj [simp]: "(share_key v i = share_key v j) = (i = j)"
  by (auto simp: share_key_def dest: str_nat_inj)

lemma namespaced_share_key [simp]: "namespaced v (share_key v i, d)"
  by (simp add: namespaced_def share_key_def startswith_def)

section \<open>The two loops of a reconciliation pass\<close>

lemma fold_delete_keys:
  "fold (\<lambda>(k, d). AList.delete k) xs ys = filter (\<lambda>(k, d). k \<notin> fst ` set xs) ys"
proof (induction xs arbitrary: ys)
  case Nil
  then show ?case by simp
next
  case (Cons x xs)
  obtain k d where x: "x = (k, d)" by (cases x)
  have "filter (\<lambda>(k', d'). k' \<notin> fst ` set xs) (AList.delete k ys)
      = filter (\<lambda>(k', d'). k' \<notin> fst ` set ((k, d) # xs)) ys"
    by (induction ys) (auto simp: AList.delete_eq)
  with Cons.IH [of "AList.delete k ys"] x show ?case by simp
qed

lemma delete_namespaced:
  "fold (\<lambda>(k, d). AList.delete k) (filter (namespaced v) devs) devs
     = filter (\<lambda>e. \<not> namespaced v e) devs"
proof -
  have "(k \<notin> fst ` set (filter (namespaced v) devs)) = (\<not> namespaced v (k, d))"
    if "(k, d) \<in> set devs" for k d
  proof
    assume "k \<notin> fst ` set (filter (namespaced v) devs)"
    with that show "\<not> namespaced v (k, d)" by force
  next
    assume "\<not> namespaced v (k, d)"
    then show "k \<notin> fst ` set (filter (namespaced v) devs)"
      by (auto simp: namespaced_def)
  qed
  then show ?thesis
    unfolding fold_delete_keys by (intro filter_cong) auto
qed

lemma update_new_key: "k \<notin> fst ` set al \<Longrightarrow> AList.update k v al = al @ [(k, v)]"
  by (induction al) auto

lemma fold_update_shares:
  "\<forall>i\<ge>n. share_key v i \<notin> fst ` set al \<Longrightarrow>
   fold (\<lambda>(i, share). AList.update (share_key v i) (shareconf self share)) (enumerate n shares) al
     = al @ map (\<lambda>(i, share). (share_key v i, shareconf self share)) (enumerate n shares)"
proof (induction shares arbitrary: n al)
  case Nil
  then show ?case by simp
next
  case (Cons s shares)
  from Cons.prems have new: "share_key v n \<notin> fst ` set al" by simp
  have "\<forall>i\<ge>Suc n. share_key v i \<notin> fst ` set (al @ [(share_key v n, shareconf self s)])"
    using Cons.prems by auto
  from Cons.IH [OF this] new show ?case by (simp add: update_new_key)
qed

lemma no_key_without_namespace:
  "share_key v i \<notin> fst ` set (filter (\<lambda>e. \<not> namespaced v e) devs)"
proof
  assume "share_key v i \<in> fst ` set (filter (\<lambda>e. \<not> namespaced v e) devs)"
  then obtain d where "\<not> namespaced v (share_key v i, d)" by auto
  then show False by simp
qed

lemma reinstall_shares:
  "fold (\<lambda>(i, share). AList.update (share_key v i) (shareconf self share)) (enumerate 1 shares)
        (filter (\<lambda>e. \<not> namespaced v e) devs)
     = filter (\<lambda>e. \<not> namespaced v e) devs @ mirror v self shares"
  unfolding mirror_def
proof (rule fold_update_shares)
  show "\<forall>i\<ge>1. share_key v i \<notin> fst ` set (filter (\<lambda>e. \<not> namespaced v e) devs)"
    using no_key_without_namespace by blast
qed

lemma namespaced_mirror [simp]: "filter (namespaced v) (mirror v self shares) = mirror v self shares"
  by (auto simp: mirror_def filter_id_conv)

lemma not_namespaced_mirror [simp]: "filter (\<lambda>e. \<not> namespaced v e) (mirror v self shares) = []"
  by (auto simp: mirror_def filter_empty_conv)

lemma sources_of_mirror: "sources_of v (mirror v self shares) = joined self ` set shares"
proof -
  have "map (\<lambda>(k, d). dev_source d) (mirror v self shares) = map (joined self) shares"
    unfolding mirror_def
    by (induction shares rule: rev_induct)
       (simp_all add: enumerate_append_eq shareconf_def joined_def)
  then show ?thesis by (simp add: sources_of_def)
qed

section \<open>Running a reconciliation pass\<close>

lemma delete_loop_run:
  "handle w = Some h \<Longrightarrow>
   for_each xs (\<lambda>(k, d). del_device k) w =
     (Inr (), w\<lparr>handle := Some (h\<lparr>devices := fold (\<lambda>(k, d). AList.delete k) xs (devices h)\<rparr>)\<rparr>)"
proof (induction xs arbitrary: w h)
  case Nil
  then show ?case by (simp add: return_def)
next
  case (Cons x xs)
  obtain k d where x: "x = (k, d)" by (cases x)
  let ?h1 = "h\<lparr>devices := AList.delete k (devices h)\<rparr>"
  let ?w1 = "w\<lparr>handle := Some ?h1\<rparr>"
  have "handle ?w1 = Some ?h1" by simp
  from Cons.IH [OF this] Cons.prems x show ?case
    by (simp add: del_device_def monad_defs)
qed

lemma emit_loop_run:
  "handle w \<noteq> None \<Longrightarrow>
   for_each xs (\<lambda>x. adapter_call v env self (f x)) w = (Inr (), w\<lparr>trace := trace w @ map f xs\<rparr>)"
proof (induction xs arbitrary: w)
  case Nil
  then show ?case by (simp add: return_def)
next
  case (Cons x xs)
  let ?w1 = "w\<lparr>trace := trace w @ [f x]\<rparr>"
  have "handle ?w1 \<noteq> None" using Cons.prems by simp
  from Cons.IH [OF this] Cons.prems show ?case by (simp add: monad_defs)
qed

lemma lxdock_share_body_run:
  "handle w = Some h \<Longrightarrow>
   lxdock_share_body env self existing (i, share) w =
     (Inr (), w\<lparr>handle := Some (h\<lparr>devices := AList.update (share_key LXDock i) (shareconf self share)
                                                (devices h)\<rparr>),
               trace := trace w @ lxdock_acl_events self (privileged_config h) existing share\<rparr>)"
  by (simp add: lxdock_share_body_def lxdock_acl_events_def joined_def privileged_config_def
      is_privileged_def emit_loop_run set_device_def Let_def monad_defs)

lemma nomad_share_body_run:
  "handle w = Some h \<Longrightarrow>
   nomad_share_body self privileged existing (i, share) w =
     (Inr (), w\<lparr>handle := Some (h\<lparr>devices := AList.update (share_key Nomad i) (shareconf self share)
                                                (devices h)\<rparr>),
               trace := trace w @ nomad_acl_events self privileged existing share\<rparr>)"
  by (simp add: nomad_share_body_def nomad_acl_events_def joined_def
      set_device_def Let_def monad_defs)

lemma lxdock_share_loop_run:
  "handle w = Some h \<Longrightarrow>
   for_each (enumerate n shares) (lxdock_share_body env self existing) w =
     (Inr (), w\<lparr>handle := Some (h\<lparr>devices :=
                   fold (\<lambda>(i, share). AList.update (share_key LXDock i) (shareconf self share))
                        (enumerate n shares) (devices h)\<rparr>),
               trace := trace w
                 @ concat (map (lxdock_acl_events self (privileged_config h) existing) shares)\<rparr>)"
proof (induction shares arbitrary: n w h)
  case Nil
  then show ?case by (simp add: return_def)
next
  case (Cons s shares)
  let ?h1 = "h\<lparr>devices := AList.update (share_key LXDock n) (shareconf self s) (devices h)\<rparr>"
  let ?w1 = "w\<lparr>handle := Some ?h1,
               trace := trace w @ lxdock_acl_events self (privileged_config h) existing s\<rparr>"
  have "handle ?w1 = Some ?h1" by simp
  from Cons.IH [OF this, of "Suc n"] Cons.prems show ?case
    by (simp add: lxdock_share_body_run thenM_def bindM_def privileged_config_def)
qed

lemma nomad_share_loop_run:
  "handle w = Some h \<Longrightarrow>
   for_each (enumerate n shares) (nomad_share_body self privileged existing) w =
     (Inr (), w\<lparr>handle := Some (h\<lparr>devices :=
                   fold (\<lambda>(i, share). AList.update (share_key Nomad i) (shareconf self share))
                        (enumerate n shares) (devices h)\<rparr>),
               trace := trace w @ concat (map (nomad_acl_events self privileged existing) shares)\<rparr>)"
proof (induction shares arbitrary: n w h)
  case Nil
  then show ?case by (simp add: return_def)
next
  case (Cons s shares)
  let ?h1 = "h\<lparr>devices := AList.update (share_key Nomad n) (shareconf self s) (devices h)\<rparr>"
  let ?w1 = "w\<lparr>handle := Some ?h1, trace := trace w @ nomad_acl_events self privileged existing s\<rparr>"
  have "handle ?w1 = Some ?h1" by simp
  from Cons.IH [OF this, of "Suc n"] Cons.prems show ?case
    by (simp add: nomad_share_body_run thenM_def bindM_def)
qed

lemma reinstall_shares_Suc:
  "fold (\<lambda>(i, share). AList.update (share_key v i) (shareconf self share)) (enumerate (Suc 0) shares)
        (filter (\<lambda>e. \<not> namespaced v e) devs)
     = filter (\<lambda>e. \<not> namespaced v e) devs @ mirror v self shares"
  using reinstall_shares [of v self shares devs] by simp

lemma container_ready:
  "ready env w \<Longrightarrow> container v env self w = (Inr (seen v self w), touched v env self w)"
proof (cases "handle w")
  case None
  assume "ready env w"
  with None show ?thesis
    by (cases "remote w")
       (simp_all add: ready_def seen_def touched_def touch_events_def container_create
          container_fetch)
next
  case (Some h)
  assume "ready env w"
  with Some obtain r where "remote w = Some r" by (auto simp: ready_def)
  with Some show ?thesis by (simp add: seen_def touched_def touch_events_def)
qed

lemma touched_fields [simp]:
  "handle (touched v env self w) = Some (seen v self w)"
  "remote (touched v env self w) = Some (case remote w of Some r \<Rightarrow> r | None \<Rightarrow> fresh_container v self)"
  "hosts_file (touched v env self w) = hosts_file w"
  "polls (touched v env self w) = polls w"
  "trace (touched v env self w) = trace w @ touch_events v env self w"
  by (simp_all add: touched_def)

lemma ready_trace [simp]: "ready env (w\<lparr>trace := t\<rparr>) = ready env w"
  by (simp add: ready_def split: option.splits)

lemma seen_trace [simp]: "seen v self (w\<lparr>trace := t\<rparr>) = seen v self w"
  by (simp add: seen_def split: option.splits)

lemma touch_events_trace [simp]:
  "touch_events v env self (w\<lparr>trace := t\<rparr>) = touch_events v env self w"
  by (simp add: touch_events_def split: option.splits)

lemma ready_touched [simp]: "ready env (touched v env self w)"
  by (simp add: ready_def touched_def)

lemma seen_synced:
  "ready env w \<Longrightarrow> handle w = None \<or> handle w = remote w \<Longrightarrow>
   remote (touched v env self w) = Some (seen v self w)"
  by (auto simp: ready_def seen_def split: option.splits)

lemma lxdock_setup_shares_run:
  assumes "opt_shares (options self) = Some shares" and "ready env w"
  shows "lxdock_setup_shares env self w =
     (Inr (), w\<lparr>remote := Some ((case remote w of Some r \<Rightarrow> r | None \<Rightarrow> fresh_container LXDock self)
                                 \<lparr>config := config (seen LXDock self w),
                                   devices := reconciled LXDock self shares (devices (seen LXDock self w))\<rparr>),
               handle := Some ((seen LXDock self w)
                                 \<lparr>devices := reconciled LXDock self shares (devices (seen LXDock self w))\<rparr>),
               trace := trace w @ Log INFO ''Setting up shares...'' # touch_events LXDock env self w
                 @ concat (map (lxdock_acl_events self (privileged_config (seen LXDock self w))
                                  (sources_of LXDock (devices (seen LXDock self w)))) shares)
                 @ [Save]\<rparr>)"
proof -
  let ?w0 = "w\<lparr>trace := trace w @ [Log INFO ''Setting up shares...'']\<rparr>"
  let ?h = "seen LXDock self w"
  have fetch: "container LXDock env self ?w0 = (Inr ?h, touched LXDock env self ?w0)"
    using container_ready [of env ?w0 LXDock self] assms(2) by simp
  have h: "handle (touched LXDock env self ?w0) = Some ?h" by simp
  show ?thesis
    using assms(1) h
    by (simp add: lxdock_setup_shares_def Let_def log_def emit_def modify_def thenM_def bindM_def
        return_def fetch delete_loop_run lxdock_share_loop_run delete_namespaced
        reinstall_shares_Suc reconciled_def sources_of_def daemon_call_def gets_def
        container_save_def touched_def privileged_config_def)
qed

lemma nomad_setup_shares_run:
  assumes "ready env w"
  shows "nomad_setup_shares env self w =
     (Inr (), w\<lparr>remote := Some ((case remote w of Some r \<Rightarrow> r | None \<Rightarrow> fresh_container Nomad self)
                   \<lparr>config := config (seen Nomad self w),
                     devices := reconciled Nomad self
                       (case opt_shares (options self) of None \<Rightarrow> [] | Some s \<Rightarrow> s)
                       (devices (seen Nomad self w))\<rparr>),
               handle := Some ((seen Nomad self w)\<lparr>devices := reconciled Nomad self
                       (case opt_shares (options self) of None \<Rightarrow> [] | Some s \<Rightarrow> s)
                       (devices (seen Nomad self w))\<rparr>),
               trace := trace w @ touch_events Nomad env self w
                 @ concat (map (nomad_acl_events self (privileged_config (seen Nomad self w))
                                  (sources_of Nomad (devices (seen Nomad self w))))
                             (case opt_shares (options self) of None \<Rightarrow> [] | Some s \<Rightarrow> s))
                 @ [Save]\<rparr>)"
proof -
  let ?h = "seen Nomad self w"
  have fetch: "container Nomad env self w = (Inr ?h, touched Nomad env self w)"
    using assms by (rule container_ready)
  have h: "handle (touched Nomad env self w) = Some ?h" by simp
  show ?thesis
    using h
    by (simp add: nomad_setup_shares_def Let_def log_def emit_def modify_def thenM_def bindM_def
        return_def fetch delete_loop_run nomad_share_loop_run delete_namespaced
        reinstall_shares_Suc reconciled_def sources_of_def daemon_call_def gets_def
        container_save_def touched_def is_privileged_def privileged_config_def)
qed

section \<open>Share reconciliation mirrors the desired list\<close>

lemma namespaced_reconciled [simp]:
  "filter (namespaced v) (reconciled v self shares devs) = mirror v self shares"
  by (simp add: reconciled_def)

lemma others_reconciled [simp]:
  "filter (\<lambda>e. \<not> namespaced v e) (reconciled v self shares devs) = filter (\<lambda>e. \<not> namespaced v e) devs"
  by (simp add: reconciled_def)

lemma keys_mirror: "map fst (mirror v self shares) = map (share_key v) [1..<Suc (length shares)]"
proof -
  have "map fst (mirror v self shares) = map (share_key v) (map fst (enumerate 1 shares))"
    by (simp only: mirror_def map_map comp_def case_prod_unfold fst_conv)
  also have "map fst (enumerate 1 shares) = [1..<1 + length shares]"
    by (rule map_fst_enumerate)
  finally show ?thesis by simp
qed

lemma distinct_keys_mirror: "distinct (map fst (mirror v self shares))"
  unfolding keys_mirror by (simp add: distinct_map inj_on_def)

lemma lxdock_pass:
  assumes "opt_shares (options self) = Some shares" and "ready env w"
  shows "\<exists>w' c. lxdock_setup_shares env self w = (Inr (), w') \<and> remote w' = Some c
           \<and> handle w' \<noteq> None
           \<and> devices c = reconciled LXDock self shares (devices (seen LXDock self w))
           \<and> seen LXDock self w' = (seen LXDock self w)\<lparr>devices := devices c\<rparr>
           \<and> seen LXDock self (w'\<lparr>handle := None\<rparr>) = c"
  using lxdock_setup_shares_run [OF assms] by (simp add: seen_def)

lemma nomad_pass:
  assumes "ready env w"
  shows "\<exists>w' c. nomad_setup_shares env self w = (Inr (), w') \<and> remote w' = Some c
           \<and> handle w' \<noteq> None
           \<and> devices c = reconciled Nomad self
                (case opt_shares (options self) of None \<Rightarrow> [] | Some s \<Rightarrow> s)
                (devices (seen Nomad self w))
           \<and> seen Nomad self w' = (seen Nomad self w)\<lparr>devices := devices c\<rparr>
           \<and> seen Nomad self (w'\<lparr>handle := None\<rparr>) = c"
  using nomad_setup_shares_run [OF assms] by (simp add: seen_def)

lemma ready_after [simp]: "handle w \<noteq> None \<Longrightarrow> remote w \<noteq> None \<Longrightarrow> ready env w"
  by (auto simp: ready_def)

lemma ready_forget [simp]: "remote w \<noteq> None \<Longrightarrow> ready env (w\<lparr>handle := None\<rparr>)"
  by (auto simp: ready_def)

text \<open>
  C1: one reconciliation pass over the desired list, from any state in which the
  container can be reached, returns normally and leaves as namespaced devices of the
  daemon's object exactly the mirror of the desired list: entry \<open>i\<close> (counted from 1)
  under the key \<open>share_key i\<close>, in the order of the list, with distinct keys, whatever
  namespaced devices there were before; the devices of others are kept. So a pass over
  \<open>[A, B]\<close> followed by a pass over \<open>[B]\<close> (by the same object or by a new one) leaves
  the one entry of \<open>B\<close>.
\<close>

theorem share_reconciliation_mirrors:
  assumes "ready env w"
  shows
   "(opt_shares (options self) = Some shares \<longrightarrow>
      (\<exists>w' c. lxdock_setup_shares env self w = (Inr (), w') \<and> remote w' = Some c
         \<and> filter (namespaced LXDock) (devices c) = mirror LXDock self shares
         \<and> map fst (filter (namespaced LXDock) (devices c))
              = map (share_key LXDock) [1..<Suc (length shares)]
         \<and> distinct (map fst (filter (namespaced LXDock) (devices c)))
         \<and> filter (\<lambda>e. \<not> namespaced LXDock e) (devices c)
              = filter (\<lambda>e. \<not> namespaced LXDock e) (devices (seen LXDock self w)))
    \<and> (\<exists>w' c. nomad_setup_shares env self w = (Inr (), w') \<and> remote w' = Some c
         \<and> filter (namespaced Nomad) (devices c) = mirror Nomad self shares
         \<and> map fst (filter (namespaced Nomad) (devices c))
              = map (share_key Nomad) [1..<Suc (length shares)]
         \<and> distinct (map fst (filter (namespaced Nomad) (devices c)))
         \<and> filter (\<lambda>e. \<not> namespaced Nomad e) (devices c)
              = filter (\<lambda>e. \<not> namespaced Nomad e) (devices (seen Nomad self w))))
  \<and> (opt_shares (options self) = Some [A, B] \<and> opt_shares (options self') = Some [B] \<longrightarrow>
      (\<exists>w1 w2 c. lxdock_setup_shares env self w = (Inr (), w1)
         \<and> lxdock_setup_shares env self' w1 = (Inr (), w2) \<and> remote w2 = Some c
         \<and> filter (namespaced LXDock) (devices c) = [(share_key LXDock 1, shareconf self' B)])
    \<and> (\<exists>w1 w2 c. lxdock_setup_shares env self w = (Inr (), w1)
         \<and> lxdock_setup_shares env self' (w1\<lparr>handle := None\<rparr>) = (Inr (), w2) \<and> remote w2 = Some c
         \<and> filter (namespaced LXDock) (devices c) = [(share_key LXDock 1, shareconf self' B)])
    \<and> (\<exists>w1 w2 c. nomad_setup_shares env self w = (Inr (), w1)
         \<and> nomad_setup_shares env self' (w1\<lparr>handle := None\<rparr>) = (Inr (), w2) \<and> remote w2 = Some c
         \<and> filter (namespaced Nomad) (devices c) = [(share_key Nomad 1, shareconf self' B)]))"
proof (intro conjI impI)
  assume shares: "opt_shares (options self) = Some shares"
  from lxdock_pass [OF shares assms]
  show "\<exists>w' c. lxdock_setup_shares env self w = (Inr (), w') \<and> remote w' = Some c
         \<and> filter (namespaced LXDock) (devices c) = mirror LXDock self shares
         \<and> map fst (filter (namespaced LXDock) (devices c))
              = map (share_key LXDock) [1..<Suc (length shares)]
         \<and> distinct (map fst (filter (namespaced LXDock) (devices c)))
         \<and> filter (\<lambda>e. \<not> namespaced LXDock e) (devices c)
              = filter (\<lambda>e. \<not> namespaced LXDock e) (devices (seen LXDock self w))"
    using keys_mirror [of LXDock self shares] distinct_keys_mirror [of LXDock self shares]
    by auto
  from nomad_pass [OF assms, of self] shares
  show "\<exists>w' c. nomad_setup_shares env self w = (Inr (), w') \<and> remote w' = Some c
         \<and> filter (namespaced Nomad) (devices c) = mirror Nomad self shares
         \<and> map fst (filter (namespaced Nomad) (devices c))
              = map (share_key Nomad) [1..<Suc (length shares)]
         \<and> distinct (map fst (filter (namespaced Nomad) (devices c)))
         \<and> filter (\<lambda>e. \<not> namespaced Nomad e) (devices c)
              = filter (\<lambda>e. \<not> namespaced Nomad e) (devices (seen Nomad self w))"
    using keys_mirror [of Nomad self shares] distinct_keys_mirror [of Nomad self shares]
    by auto
next
  assume two: "opt_shares (options self) = Some [A, B] \<and> opt_shares (options self') = Some [B]"
  then have first: "opt_shares (options self) = Some [A, B]"
    and second: "opt_shares (options self') = Some [B]" by simp_all
  have one: "mirror v self' [B] = [(share_key v 1, shareconf self' B)]" for v
    by (simp add: mirror_def)
  from lxdock_pass [OF first assms] obtain w1 where
    w1: "lxdock_setup_shares env self w = (Inr (), w1)" "remote w1 \<noteq> None" "handle w1 \<noteq> None"
    by auto
  then have r1: "ready env w1" and r1': "ready env (w1\<lparr>handle := None\<rparr>)" by simp_all
  from lxdock_pass [OF second r1] w1(1) one [of LXDock]
  show "\<exists>w1 w2 c. lxdock_setup_shares env self w = (Inr (), w1)
         \<and> lxdock_setup_shares env self' w1 = (Inr (), w2) \<and> remote w2 = Some c
         \<and> filter (namespaced LXDock) (devices c) = [(share_key LXDock 1, shareconf self' B)]"
    by auto
  from lxdock_pass [OF second r1'] w1(1) one [of LXDock]
  show "\<exists>w1 w2 c. lxdock_setup_shares env self w = (Inr (), w1)
         \<and> lxdock_setup_shares env self' (w1\<lparr>handle := None\<rparr>) = (Inr (), w2) \<and> remote w2 = Some c
         \<and> filter (namespaced LXDock) (devices c) = [(share_key LXDock 1, shareconf self' B)]"
    by auto
  from nomad_pass [OF assms, of self] obtain n1 where
    n1: "nomad_setup_shares env self w = (Inr (), n1)" "remote n1 \<noteq> None" by auto
  then have "ready env (n1\<lparr>handle := None\<rparr>)" by simp
  from nomad_pass [OF this, of self'] n1(1) second one [of Nomad]
  show "\<exists>w1 w2 c. nomad_setup_shares env self w = (Inr (), w1)
         \<and> nomad_setup_shares env self' (w1\<lparr>handle := None\<rparr>) = (Inr (), w2) \<and> remote w2 = Some c
         \<and> filter (namespaced Nomad) (devices c) = [(share_key Nomad 1, shareconf self' B)]"
    by auto
qed

section \<open>Share reconciliation on the example project\<close>

lemma share_key_one:
  "share_key LXDock (Suc 0) = ''lxdockshare1''" "share_key Nomad (Suc 0) = ''nomadshare1''"
  "share_key LXDock (Suc (Suc 0)) = ''lxdockshare2''" "share_key Nomad (Suc (Suc 0)) = ''nomadshare2''"
  by code_simp+

theorem share_reconciliation_mirrors_witness:
  "ready (example_env tenth_poll) (present_world stale_container Map.empty)
   \<and> opt_shares (options (with_shares [share_A, share_B])) = Some [share_A, share_B]
   \<and> opt_shares (options (with_shares [share_B])) = Some [share_B]
   \<and> (\<exists>w1 w2 c.
        lxdock_setup_shares (example_env tenth_poll) (with_shares [share_A, share_B])
          (present_world stale_container Map.empty) = (Inr (), w1)
      \<and> lxdock_setup_shares (example_env tenth_poll) (with_shares [share_B]) (w1\<lparr>handle := None\<rparr>)
          = (Inr (), w2)
      \<and> remote w2 = Some c
      \<and> filter (namespaced LXDock) (devices c)
          = [(''lxdockshare1'', \<lparr>dev_type = ''disk'', dev_source = ''/home/me/demo/.'',
                                  dev_path = ''/myshare''\<rparr>)])"
proof -
  let ?env = "example_env tenth_poll"
  let ?w = "present_world stale_container Map.empty"
  have r: "ready ?env ?w" by (simp add: ready_def present_world_def)
  have two: "opt_shares (options (with_shares [share_A, share_B])) = Some [share_A, share_B]
      \<and> opt_shares (options (with_shares [share_B])) = Some [share_B]"
    by (simp add: with_shares_def)
  have conf: "shareconf (with_shares [share_B]) share_B
      = \<lparr>dev_type = ''disk'', dev_source = ''/home/me/demo/.'', dev_path = ''/myshare''\<rparr>"
    by (simp add: shareconf_def with_shares_def example_self_def share_B_def path_join_def)
  from share_reconciliation_mirrors [OF r, where self = "with_shares [share_A, share_B]"
      and self' = "with_shares [share_B]" and A = share_A and B = share_B] two
  have "\<exists>w1 w2 c.
        lxdock_setup_shares ?env (with_shares [share_A, share_B]) ?w = (Inr (), w1)
      \<and> lxdock_setup_shares ?env (with_shares [share_B]) (w1\<lparr>handle := None\<rparr>) = (Inr (), w2)
      \<and> remote w2 = Some c
      \<and> filter (namespaced LXDock) (devices c)
          = [(share_key LXDock 1, shareconf (with_shares [share_B]) share_B)]"
    by blast
  with r two show ?thesis by (simp add: share_key_one conf)
qed

section \<open>Host-side grants of a reconciliation pass\<close>

lemma lxdock_acl_events_source:
  "e \<in> set (lxdock_acl_events self privileged existing share) \<Longrightarrow> acl_grant e \<Longrightarrow>
   acl_source e = joined self share \<and> joined self share \<notin> existing"
  by (auto simp: lxdock_acl_events_def acl_source_def acl_grant_def split: if_splits)

lemma nomad_acl_events_source:
  "e \<in> set (nomad_acl_events self privileged existing share) \<Longrightarrow> acl_grant e \<Longrightarrow>
   acl_source e = joined self share \<and> joined self share \<notin> existing"
  by (auto simp: nomad_acl_events_def acl_source_def acl_grant_def split: if_splits)

lemma lxdock_acl_events_count:
  "count_list (lxdock_acl_events self privileged existing share) (AclCurrentUser s)
     = (if (case set_host_acl share of None \<Rightarrow> True | Some b \<Rightarrow> b) \<and> joined self share \<notin> existing
           \<and> joined self share = s then 1 else 0)"
proof -
  have "count_list (map f us) (AclCurrentUser s) = 0"
    if "\<And>u. f u \<noteq> AclCurrentUser s" for f :: "user_config \<Rightarrow> event" and us
    using that by (induction us) simp_all
  then show ?thesis by (auto simp: lxdock_acl_events_def)
qed

lemma nomad_acl_events_count:
  "count_list (nomad_acl_events self privileged existing share) (AclCurrentUser s)
     = (if joined self share \<notin> existing \<and> joined self share = s then 1 else 0)"
  by (auto simp: nomad_acl_events_def)

lemma count_once:
  assumes "distinct (map key xs)"
    and "\<And>x. count_list (f x) e = (if P x \<and> key x = k then 1 else 0)"
  shows "count_list (concat (map f xs)) e \<le> 1"
  using assms(1)
proof (induction xs)
  case Nil
  then show ?case by simp
next
  case (Cons x xs)
  show ?case
  proof (cases "key x = k")
    case True
    from Cons.prems have "key x \<notin> key ` set xs" by simp
    with True have "\<forall>y\<in>set xs. key y \<noteq> k" by (metis imageI)
    then have "count_list (concat (map f xs)) e = 0"
      by (induction xs) (simp_all add: assms(2))
    then show ?thesis by (simp add: assms(2))
  next
    case False
    with Cons show ?thesis by (simp add: assms(2))
  qed
qed

lemma count_per_listing:
  assumes "\<And>x. count_list (f x) e = (if P x then 1 else 0)"
  shows "count_list (concat (map f xs)) e = length (filter P xs)"
  by (induction xs) (simp_all add: assms)

lemma acl_enabled:
  "(case set_host_acl share of None \<Rightarrow> True | Some b \<Rightarrow> b) = (set_host_acl share \<noteq> Some False)"
  by (cases "set_host_acl share") auto

lemma lxdock_acl_events_enabled:
  "e \<in> set (lxdock_acl_events self privileged existing share) \<Longrightarrow> acl_grant e \<Longrightarrow>
   set_host_acl share \<noteq> Some False"
  by (auto simp: lxdock_acl_events_def split: if_splits)

lemma acl_quiet:
  assumes "\<And>x. x \<in> set xs \<Longrightarrow> f x = []"
  shows "concat (map f xs) = []"
  using assms by (induction xs) simp_all

lemma lxdock_acl_events_known:
  "joined self share \<in> existing \<Longrightarrow> lxdock_acl_events self privileged existing share = []"
  by (simp add: lxdock_acl_events_def)

lemma nomad_acl_events_known:
  "joined self share \<in> existing \<Longrightarrow> nomad_acl_events self privileged existing share = []"
  by (simp add: nomad_acl_events_def)

lemma sources_of_reconciled [simp]:
  "sources_of v (reconciled v self shares devs) = joined self ` set shares"
  using sources_of_mirror [of v self shares] by (simp add: sources_of_def)

lemma no_grant_in_touch [simp]: "filter acl_grant (touch_events v env self w) = []"
  by (simp add: touch_events_def creation_events_def acl_grant_def split: option.splits)

lemma count_touch [simp]: "count_list (touch_events v env self w) (AclCurrentUser s) = 0"
  by (simp add: touch_events_def creation_events_def split: option.splits)

lemma grant_in_touch [simp]: "e \<in> set (touch_events v env self w) \<Longrightarrow> \<not> acl_grant e"
  by (auto simp: touch_events_def creation_events_def acl_grant_def split: option.splits)

lemma lxdock_pass_grants:
  assumes "opt_shares (options self) = Some shares" and "ready env w"
  shows "\<exists>w'. lxdock_setup_shares env self w = (Inr (), w')
           \<and> handle w' \<noteq> None \<and> remote w' \<noteq> None
           \<and> events_of w w' = Log INFO ''Setting up shares...'' # touch_events LXDock env self w
                @ concat (map (lxdock_acl_events self (privileged_config (seen LXDock self w))
                                 (sources_of LXDock (devices (seen LXDock self w)))) shares)
                @ [Save]
           \<and> sources_of LXDock (devices (seen LXDock self w')) = joined self ` set shares
           \<and> sources_of LXDock (devices (seen LXDock self (w'\<lparr>handle := None\<rparr>)))
                = joined self ` set shares"
  using lxdock_setup_shares_run [OF assms] by (simp add: seen_def events_of_def)

lemma nomad_pass_grants:
  assumes "opt_shares (options self) = Some shares" and "ready env w"
  shows "\<exists>w'. nomad_setup_shares env self w = (Inr (), w')
           \<and> handle w' \<noteq> None \<and> remote w' \<noteq> None
           \<and> events_of w w' = touch_events Nomad env self w
                @ concat (map (nomad_acl_events self (privileged_config (seen Nomad self w))
                                 (sources_of Nomad (devices (seen Nomad self w)))) shares)
                @ [Save]
           \<and> sources_of Nomad (devices (seen Nomad self w')) = joined self ` set shares
           \<and> sources_of Nomad (devices (seen Nomad self (w'\<lparr>handle := None\<rparr>)))
                = joined self ` set shares"
  using nomad_setup_shares_run [OF assms(2), of self] assms(1) by (simp add: seen_def events_of_def)

lemma lxdock_quiet_pass:
  assumes "opt_shares (options self) = Some shares" and "ready env w"
    and "sources_of LXDock (devices (seen LXDock self w)) = joined self ` set shares"
  shows "filter acl_grant (events_of w (snd (lxdock_setup_shares env self w))) = []"
proof -
  have "concat (map (lxdock_acl_events self (privileged_config (seen LXDock self w))
                       (joined self ` set shares)) shares) = []"
    by (rule acl_quiet) (simp add: lxdock_acl_events_known)
  with lxdock_pass_grants [OF assms(1,2)] assms(3) show ?thesis
    by (auto simp: acl_grant_def)
qed

lemma nomad_quiet_pass:
  assumes "opt_shares (options self) = Some shares" and "ready env w"
    and "sources_of Nomad (devices (seen Nomad self w)) = joined self ` set shares"
  shows "filter acl_grant (events_of w (snd (nomad_setup_shares env self w))) = []"
proof -
  have "concat (map (nomad_acl_events self (privileged_config (seen Nomad self w))
                       (joined self ` set shares)) shares) = []"
    by (rule acl_quiet) (simp add: nomad_acl_events_known)
  with nomad_pass_grants [OF assms(1,2)] assms(3) show ?thesis
    by (auto simp: acl_grant_def)
qed

section \<open>Grants across passes\<close>

text \<open>
  C7 as stated: host-side grants happen at most once per source path. A desired list that
  names one source directory twice (mounted at two places in the guest) gets the grant
  twice in one pass, because the snapshot of installed sources is not extended while the
  loop runs.
\<close>

theorem acl_twice_counterexample:
  "count_list
     (trace (snd (lxdock_setup_shares (example_env tenth_poll) (with_shares twice_shared)
                    (present_world (example_container CONTAINER_STOPPED) Map.empty))))
     (AclCurrentUser ''/home/me/demo/data'') = 2"
proof -
  let ?w = "present_world (example_container CONTAINER_STOPPED) Map.empty"
  have r: "ready (example_env tenth_poll) ?w" by (simp add: ready_def present_world_def)
  have s: "opt_shares (options (with_shares twice_shared)) = Some twice_shared"
    by (simp add: with_shares_def)
  have j: "map (joined (with_shares twice_shared)) twice_shared
      = [''/home/me/demo/data'', ''/home/me/demo/data'']"
    by (simp add: joined_def with_shares_def example_self_def twice_shared_def path_join_def)
  have none: "sources_of LXDock (devices (seen LXDock (with_shares twice_shared) ?w)) = {}"
    by (simp add: sources_of_def seen_def present_world_def example_container_def)
  have "count_list (concat (map (lxdock_acl_events (with_shares twice_shared) p {}) twice_shared))
          (AclCurrentUser ''/home/me/demo/data'') = 2" for p
    using j by (simp add: lxdock_acl_events_count twice_shared_def)
  then show ?thesis
    unfolding lxdock_setup_shares_run [OF s r] none
    by (simp add: present_world_def)
qed

text \<open>
  C7 as amended: the snapshot of a pass is the set of sources of the namespaced devices
  found installed before they are removed. In a pass, a grant is made only for a desired
  share whose joined source path is not in the snapshot, and in lxdock only for a share
  whose \<^verbatim>\<open>set_host_acl\<close> is not disabled. A path in the snapshot is not granted to the
  current user; a path outside it is granted once per listing: as many times as the
  desired list names it (in lxdock: names it in a share with \<^verbatim>\<open>set_host_acl\<close> not
  disabled). So when the joined sources of the desired list are distinct, no source is
  granted to the current user twice in the pass; and a second pass over the same list, by
  the same object or by a new one, makes no grant at all.
\<close>

theorem acl_grants_follow_snapshot:
  assumes "ready env w" and "opt_shares (options self) = Some shares"
  shows
   "(\<exists>w'. lxdock_setup_shares env self w = (Inr (), w')
       \<and> (\<forall>e\<in>set (events_of w w'). acl_grant e \<longrightarrow>
             acl_source e \<in> joined self ` {share \<in> set shares. set_host_acl share \<noteq> Some False}
             \<and> acl_source e \<notin> sources_of LXDock (devices (seen LXDock self w)))
       \<and> (\<forall>s. count_list (events_of w w') (AclCurrentUser s)
               = (if s \<in> sources_of LXDock (devices (seen LXDock self w)) then 0
                  else length (filter (\<lambda>share. joined self share = s
                                          \<and> set_host_acl share \<noteq> Some False) shares)))
       \<and> (distinct (map (joined self) shares) \<longrightarrow>
             (\<forall>s. count_list (events_of w w') (AclCurrentUser s) \<le> 1))
       \<and> filter acl_grant (events_of w' (snd (lxdock_setup_shares env self w'))) = []
       \<and> filter acl_grant (events_of (w'\<lparr>handle := None\<rparr>)
                              (snd (lxdock_setup_shares env self (w'\<lparr>handle := None\<rparr>)))) = [])
  \<and> (\<exists>w'. nomad_setup_shares env self w = (Inr (), w')
       \<and> (\<forall>e\<in>set (events_of w w'). acl_grant e \<longrightarrow>
             acl_source e \<in> joined self ` set shares
             \<and> acl_source e \<notin> sources_of Nomad (devices (seen Nomad self w)))
       \<and> (\<forall>s. count_list (events_of w w') (AclCurrentUser s)
               = (if s \<in> sources_of Nomad (devices (seen Nomad self w)) then 0
                  else length (filter (\<lambda>share. joined self share = s) shares)))
       \<and> (distinct (map (joined self) shares) \<longrightarrow>
             (\<forall>s. count_list (events_of w w') (AclCurrentUser s) \<le> 1))
       \<and> filter acl_grant (events_of w' (snd (nomad_setup_shares env self w'))) = []
       \<and> filter acl_grant (events_of (w'\<lparr>handle := None\<rparr>)
                              (snd (nomad_setup_shares env self (w'\<lparr>handle := None\<rparr>)))) = [])"
proof
  let ?ex = "sources_of LXDock (devices (seen LXDock self w))"
  let ?p = "privileged_config (seen LXDock self w)"
  from lxdock_pass_grants [OF assms(2,1)] obtain w' where
    run: "lxdock_setup_shares env self w = (Inr (), w')"
    and there: "handle w' \<noteq> None" "remote w' \<noteq> None"
    and ev: "events_of w w' = Log INFO ''Setting up shares...'' # touch_events LXDock env self w
                @ concat (map (lxdock_acl_events self ?p ?ex) shares) @ [Save]"
    and after: "sources_of LXDock (devices (seen LXDock self w')) = joined self ` set shares"
      "sources_of LXDock (devices (seen LXDock self (w'\<lparr>handle := None\<rparr>))) = joined self ` set shares"
    by blast
  have only: "\<forall>e\<in>set (events_of w w'). acl_grant e \<longrightarrow>
             acl_source e \<in> joined self ` {share \<in> set shares. set_host_acl share \<noteq> Some False}
             \<and> acl_source e \<notin> ?ex"
  proof (intro ballI impI)
    fix e assume e: "e \<in> set (events_of w w')" and g: "acl_grant e"
    from e g have "e \<in> set (concat (map (lxdock_acl_events self ?p ?ex) shares))"
      unfolding ev using grant_in_touch [of e LXDock env self w] by (auto simp: acl_grant_def)
    then obtain share where sh: "share \<in> set shares" "e \<in> set (lxdock_acl_events self ?p ?ex share)"
      by auto
    from sh(2) g have "set_host_acl share \<noteq> Some False"
      by (rule lxdock_acl_events_enabled)
    with sh g lxdock_acl_events_source [of e self ?p ?ex share]
    show "acl_source e \<in> joined self ` {share \<in> set shares. set_host_acl share \<noteq> Some False}
             \<and> acl_source e \<notin> ?ex" by auto
  qed
  have exact: "\<forall>s. count_list (events_of w w') (AclCurrentUser s)
               = (if s \<in> ?ex then 0
                  else length (filter (\<lambda>share. joined self share = s
                                          \<and> set_host_acl share \<noteq> Some False) shares))"
  proof
    fix s
    have same: "(\<lambda>share. (case set_host_acl share of None \<Rightarrow> True | Some b \<Rightarrow> b)
                    \<and> joined self share \<notin> ?ex \<and> joined self share = s)
          = (\<lambda>share. s \<notin> ?ex \<and> joined self share = s \<and> set_host_acl share \<noteq> Some False)"
      by (auto simp: acl_enabled fun_eq_iff)
    have "count_list (concat (map (lxdock_acl_events self ?p ?ex) shares)) (AclCurrentUser s)
        = length (filter (\<lambda>share. (case set_host_acl share of None \<Rightarrow> True | Some b \<Rightarrow> b)
                    \<and> joined self share \<notin> ?ex \<and> joined self share = s) shares)"
      by (rule count_per_listing) (simp add: lxdock_acl_events_count)
    then show "count_list (events_of w w') (AclCurrentUser s)
               = (if s \<in> ?ex then 0
                  else length (filter (\<lambda>share. joined self share = s
                                          \<and> set_host_acl share \<noteq> Some False) shares))"
      unfolding ev same by simp
  qed
  have once: "distinct (map (joined self) shares) \<longrightarrow>
             (\<forall>s. count_list (events_of w w') (AclCurrentUser s) \<le> 1)"
  proof (intro impI allI)
    fix s assume "distinct (map (joined self) shares)"
    then have "count_list (concat (map (lxdock_acl_events self ?p ?ex) shares)) (AclCurrentUser s) \<le> 1"
      by (rule count_once [where key = "joined self" and k = s
            and P = "\<lambda>share. (case set_host_acl share of None \<Rightarrow> True | Some b \<Rightarrow> b)
                               \<and> joined self share \<notin> ?ex"])
         (simp add: lxdock_acl_events_count)
    then show "count_list (events_of w w') (AclCurrentUser s) \<le> 1"
      unfolding ev by simp
  qed
  have again: "filter acl_grant (events_of w' (snd (lxdock_setup_shares env self w'))) = []"
    using there after(1) by (intro lxdock_quiet_pass [OF assms(2)]) simp_all
  have anew: "filter acl_grant (events_of (w'\<lparr>handle := None\<rparr>)
                              (snd (lxdock_setup_shares env self (w'\<lparr>handle := None\<rparr>)))) = []"
    using there after(2) by (intro lxdock_quiet_pass [OF assms(2)]) simp_all
  from run only exact once again anew
  show "\<exists>w'. lxdock_setup_shares env self w = (Inr (), w')
       \<and> (\<forall>e\<in>set (events_of w w'). acl_grant e \<longrightarrow>
             acl_source e \<in> joined self ` {share \<in> set shares. set_host_acl share \<noteq> Some False}
             \<and> acl_source e \<notin> ?ex)
       \<and> (\<forall>s. count_list (events_of w w') (AclCurrentUser s)
               = (if s \<in> ?ex then 0
                  else length (filter (\<lambda>share. joined self share = s
                                          \<and> set_host_acl share \<noteq> Some False) shares)))
       \<and> (distinct (map (joined self) shares) \<longrightarrow>
             (\<forall>s. count_list (events_of w w') (AclCurrentUser s) \<le> 1))
       \<and> filter acl_grant (events_of w' (snd (lxdock_setup_shares env self w'))) = []
       \<and> filter acl_grant (events_of (w'\<lparr>handle := None\<rparr>)
                              (snd (lxdock_setup_shares env self (w'\<lparr>handle := None\<rparr>)))) = []"
    by blast
next
  let ?ex = "sources_of Nomad (devices (seen Nomad self w))"
  let ?p = "privileged_config (seen Nomad self w)"
  from nomad_pass_grants [OF assms(2,1)] obtain w' where
    run: "nomad_setup_shares env self w = (Inr (), w')"
    and there: "handle w' \<noteq> None" "remote w' \<noteq> None"
    and ev: "events_of w w' = touch_events Nomad env self w
                @ concat (map (nomad_acl_events self ?p ?ex) shares) @ [Save]"
    and after: "sources_of Nomad (devices (seen Nomad self w')) = joined self ` set shares"
      "sources_of Nomad (devices (seen Nomad self (w'\<lparr>handle := None\<rparr>))) = joined self ` set shares"
    by blast
  have only: "\<forall>e\<in>set (events_of w w'). acl_grant e \<longrightarrow>
             acl_source e \<in> joined self ` set shares \<and> acl_source e \<notin> ?ex"
  proof (intro ballI impI)
    fix e assume e: "e \<in> set (events_of w w')" and g: "acl_grant e"
    from e g have "e \<in> set (concat (map (nomad_acl_events self ?p ?ex) shares))"
      unfolding ev using grant_in_touch [of e Nomad env self w] by (auto simp: acl_grant_def)
    then obtain share where "share \<in> set shares" "e \<in> set (nomad_acl_events self ?p ?ex share)"
      by auto
    with g nomad_acl_events_source [of e self ?p ?ex share]
    show "acl_source e \<in> joined self ` set shares \<and> acl_source e \<notin> ?ex" by auto
  qed
  have exact: "\<forall>s. count_list (events_of w w') (AclCurrentUser s)
               = (if s \<in> ?ex then 0 else length (filter (\<lambda>share. joined self share = s) shares))"
  proof
    fix s
    have same: "(\<lambda>share. joined self share \<notin> ?ex \<and> joined self share = s)
          = (\<lambda>share. s \<notin> ?ex \<and> joined self share = s)"
      by (auto simp: fun_eq_iff)
    have "count_list (concat (map (nomad_acl_events self ?p ?ex) shares)) (AclCurrentUser s)
        = length (filter (\<lambda>share. joined self share \<notin> ?ex \<and> joined self share = s) shares)"
      by (rule count_per_listing) (simp add: nomad_acl_events_count)
    then show "count_list (events_of w w') (AclCurrentUser s)
               = (if s \<in> ?ex then 0 else length (filter (\<lambda>share. joined self share = s) shares))"
      unfolding ev same by simp
  qed
  have once: "distinct (map (joined self) shares) \<longrightarrow>
             (\<forall>s. count_list (events_of w w') (AclCurrentUser s) \<le> 1)"
  proof (intro impI allI)
    fix s assume "distinct (map (joined self) shares)"
    then have "count_list (concat (map (nomad_acl_events self ?p ?ex) shares)) (AclCurrentUser s) \<le> 1"
      by (rule count_once [where key = "joined self" and k = s
            and P = "\<lambda>share. joined self share \<notin> ?ex"])
         (simp add: nomad_acl_events_count)
    then show "count_list (events_of w w') (AclCurrentUser s) \<le> 1"
      unfolding ev by simp
  qed
  have again: "filter acl_grant (events_of w' (snd (nomad_setup_shares env self w'))) = []"
    using there after(1) by (intro nomad_quiet_pass [OF assms(2)]) simp_all
  have anew: "filter acl_grant (events_of (w'\<lparr>handle := None\<rparr>)
                              (snd (nomad_setup_shares env self (w'\<lparr>handle := None\<rparr>)))) = []"
    using there after(2) by (intro nomad_quiet_pass [OF assms(2)]) simp_all
  from run only exact once again anew
  show "\<exists>w'. nomad_setup_shares env self w = (Inr (), w')
       \<and> (\<forall>e\<in>set (events_of w w'). acl_grant e \<longrightarrow>
             acl_source e \<in> joined self ` set shares \<and> acl_source e \<notin> ?ex)
       \<and> (\<forall>s. count_list (events_of w w') (AclCurrentUser s)
               = (if s \<in> ?ex then 0 else length (filter (\<lambda>share. joined self share = s) shares)))
       \<and> (distinct (map (joined self) shares) \<longrightarrow>
             (\<forall>s. count_list (events_of w w') (AclCurrentUser s) \<le> 1))
       \<and> filter acl_grant (events_of w' (snd (nomad_setup_shares env self w'))) = []
       \<and> filter acl_grant (events_of (w'\<lparr>handle := None\<rparr>)
                              (snd (nomad_setup_shares env self (w'\<lparr>handle := None\<rparr>)))) = []"
    by blast
qed

theorem acl_grants_follow_snapshot_witness:
  "ready (example_env tenth_poll) (present_world (example_container CONTAINER_STOPPED) Map.empty)
   \<and> opt_shares (options (with_shares [share_A, share_B, share_C])) = Some [share_A, share_B, share_C]
   \<and> distinct (map (joined (with_shares [share_A, share_B, share_C])) [share_A, share_B, share_C])
   \<and> (\<exists>w'. lxdock_setup_shares (example_env tenth_poll) (with_shares [share_A, share_B, share_C])
               (present_world (example_container CONTAINER_STOPPED) Map.empty) = (Inr (), w')
          \<and> count_list (events_of (present_world (example_container CONTAINER_STOPPED) Map.empty) w')
               (AclCurrentUser ''/home/me/demo/data'') = 1
          \<and> count_list (events_of (present_world (example_container CONTAINER_STOPPED) Map.empty) w')
               (AclCurrentUser ''/home/me/demo/private'') = 0
          \<and> (\<forall>s. count_list (events_of (present_world (example_container CONTAINER_STOPPED) Map.empty) w')
                               (AclCurrentUser s) \<le> 1)
          \<and> filter acl_grant
               (events_of (w'\<lparr>handle := None\<rparr>)
                  (snd (lxdock_setup_shares (example_env tenth_poll)
                          (with_shares [share_A, share_B, share_C]) (w'\<lparr>handle := None\<rparr>)))) = [])
   \<and> opt_shares (options (with_shares twice_shared)) = Some twice_shared
   \<and> (\<exists>w'. nomad_setup_shares (example_env tenth_poll) (with_shares twice_shared)
               (present_world (example_container CONTAINER_STOPPED) Map.empty) = (Inr (), w')
          \<and> count_list (events_of (present_world (example_container CONTAINER_STOPPED) Map.empty) w')
               (AclCurrentUser ''/home/me/demo/data'') = 2)"
proof -
  let ?env = "example_env tenth_poll"
  let ?self = "with_shares [share_A, share_B, share_C]"
  let ?twice = "with_shares twice_shared"
  let ?w = "present_world (example_container CONTAINER_STOPPED) Map.empty"
  have r: "ready ?env ?w" by (simp add: ready_def present_world_def)
  have s: "opt_shares (options ?self) = Some [share_A, share_B, share_C]"
    by (simp add: with_shares_def)
  have t: "opt_shares (options ?twice) = Some twice_shared"
    by (simp add: with_shares_def)
  have j: "map (joined ?self) [share_A, share_B, share_C]
      = [''/home/me/demo/data'', ''/home/me/demo/.'', ''/home/me/demo/private'']"
    by (simp add: joined_def with_shares_def example_self_def share_A_def share_B_def
        share_C_def path_join_def)
  then have d: "distinct (map (joined ?self) [share_A, share_B, share_C])" by simp
  have acl: "set_host_acl share_A \<noteq> Some False" "set_host_acl share_C = Some False"
    by (simp_all add: share_A_def share_C_def)
  have jt: "map (joined ?twice) twice_shared = [''/home/me/demo/data'', ''/home/me/demo/data'']"
    by (simp add: joined_def with_shares_def example_self_def twice_shared_def path_join_def)
  have none: "sources_of LXDock (devices (seen LXDock ?self ?w)) = {}"
    "sources_of Nomad (devices (seen Nomad ?twice ?w)) = {}"
    by (simp_all add: sources_of_def seen_def present_world_def example_container_def)
  from acl_grants_follow_snapshot [OF r s] obtain w' where
    run: "lxdock_setup_shares ?env ?self ?w = (Inr (), w')"
    and exact: "\<forall>s. count_list (events_of ?w w') (AclCurrentUser s)
               = (if s \<in> sources_of LXDock (devices (seen LXDock ?self ?w)) then 0
                  else length (filter (\<lambda>share. joined ?self share = s
                                          \<and> set_host_acl share \<noteq> Some False)
                                 [share_A, share_B, share_C]))"
    and once: "distinct (map (joined ?self) [share_A, share_B, share_C]) \<longrightarrow>
                 (\<forall>s. count_list (events_of ?w w') (AclCurrentUser s) \<le> 1)"
    and anew: "filter acl_grant
                 (events_of (w'\<lparr>handle := None\<rparr>)
                    (snd (lxdock_setup_shares ?env ?self (w'\<lparr>handle := None\<rparr>)))) = []"
    by blast
  have one: "count_list (events_of ?w w') (AclCurrentUser ''/home/me/demo/data'') = 1"
    and zero: "count_list (events_of ?w w') (AclCurrentUser ''/home/me/demo/private'') = 0"
    using j acl by (simp_all add: exact none)
  from acl_grants_follow_snapshot [OF r t] obtain v' where
    nrun: "nomad_setup_shares ?env ?twice ?w = (Inr (), v')"
    and nexact: "\<forall>s. count_list (events_of ?w v') (AclCurrentUser s)
               = (if s \<in> sources_of Nomad (devices (seen Nomad ?twice ?w)) then 0
                  else length (filter (\<lambda>share. joined ?twice share = s) twice_shared))"
    by blast
  have "length (filter (\<lambda>share. joined ?twice share = ''/home/me/demo/data'') twice_shared)
          = length (filter (\<lambda>x. x = ''/home/me/demo/data'') (map (joined ?twice) twice_shared))"
    by (simp add: filter_map comp_def)
  then have two: "count_list (events_of ?w v') (AclCurrentUser ''/home/me/demo/data'') = 2"
    by (simp add: nexact none jt)
  from r s d run one zero once anew t nrun two show ?thesis by blast
qed

section \<open>Running the steps of \<open>up\<close>\<close>

lemma thenM_run:
  "thenM m n w = (case m w of (Inl e, w') \<Rightarrow> (Inl e, w') | (Inr x, w') \<Rightarrow> n w')"
  by (simp add: thenM_def bindM_def)

lemma emit_run: "emit e w = (Inr (), w\<lparr>trace := trace w @ [e]\<rparr>)"
  by (simp add: emit_def modify_def)

lemma log_run: "log l msg w = (Inr (), w\<lparr>trace := trace w @ [Log l msg]\<rparr>)"
  by (simp add: log_def emit_run)

lemma daemon_call_run:
  "daemon_call e done w =
     (case remote w of None \<Rightarrow> (Inl LXDAPIException, w\<lparr>trace := trace w @ [e]\<rparr>)
      | Some r \<Rightarrow> done (w\<lparr>trace := trace w @ [e]\<rparr>))"
  by (simp add: daemon_call_def monad_defs split: option.splits)

lemmas run_simps = return_def raise_def bindM_def thenM_run try_except_def gets_def modify_def
  emit_run log_run daemon_call_run

lemma env_loop_run:
  "handle w \<noteq> None \<Longrightarrow>
   for_each xs (\<lambda>(key, val). set_config v env self (environment_key key) val) w =
     (Inr (), w\<lparr>handle := Some ((the (handle w))\<lparr>config := overridden xs (config (the (handle w)))\<rparr>)\<rparr>)"
proof (induction xs arbitrary: w)
  case Nil
  then show ?case by (auto simp: return_def overridden_def)
next
  case (Cons x xs)
  obtain k val where x: "x = (k, val)" by (cases x)
  from Cons.prems obtain h where h: "handle w = Some h" by auto
  let ?w1 = "w\<lparr>handle := Some (h\<lparr>config := AList.update (environment_key k) val (config h)\<rparr>)\<rparr>"
  have "handle ?w1 \<noteq> None" by simp
  from Cons.IH [OF this] h x show ?case
    by (simp add: run_simps overridden_def)
qed

lemma setup_env_run:
  "handle w \<noteq> None \<Longrightarrow> remote w \<noteq> None \<Longrightarrow> setup_env env self w = (Inr (), env_done self w)"
  by (auto simp: setup_env_def env_done_def Let_def env_loop_run thenM_run return_def)

lemma setup_users_run:
  "handle w \<noteq> None \<Longrightarrow> setup_users env self w = (Inr (), users_done self w)"
  by (simp add: setup_users_def users_done_def Let_def emit_loop_run run_simps)

lemma lxdock_setup_shares_cached:
  assumes "handle w \<noteq> None" and "remote w \<noteq> None"
  shows "lxdock_setup_shares env self w = (Inr (), lxdock_shares_done self w)"
proof (cases "opt_shares (options self)")
  case None
  then show ?thesis by (simp add: lxdock_setup_shares_def lxdock_shares_done_def return_def)
next
  case (Some shares)
  from assms have "ready env w" by simp
  from lxdock_setup_shares_run [OF Some this] assms Some show ?thesis
    by (auto simp: lxdock_shares_done_def seen_def touch_events_def)
qed

lemma nomad_setup_shares_cached:
  assumes "handle w \<noteq> None" and "remote w \<noteq> None"
  shows "nomad_setup_shares env self w = (Inr (), nomad_shares_done self w)"
proof -
  from assms have "ready env w" by simp
  from nomad_setup_shares_run [OF this, of self] assms show ?thesis
    by (auto simp: nomad_shares_done_def Let_def seen_def touch_events_def)
qed

lemma done_fields [simp]:
  "hosts_file (users_done self w) = hosts_file w"
  "hosts_file (lxdock_shares_done self w) = hosts_file w"
  "hosts_file (nomad_shares_done self w) = hosts_file w"
  "hosts_file (env_done self w) = hosts_file w"
  "polls (users_done self w) = polls w"
  "polls (lxdock_shares_done self w) = polls w"
  "polls (nomad_shares_done self w) = polls w"
  "polls (env_done self w) = polls w"
  "handle (users_done self w) = handle w"
  "remote (users_done self w) = remote w"
  by (simp_all add: users_done_def lxdock_shares_done_def nomad_shares_done_def env_done_def
      Let_def split: option.splits)

lemma done_there [simp]:
  "(handle (lxdock_shares_done self w) = None) = (handle w = None)"
  "(remote (lxdock_shares_done self w) = None) = (remote w = None)"
  "(handle (nomad_shares_done self w) = None) = (handle w = None)"
  "(remote (nomad_shares_done self w) = None) = (remote w = None)"
  "(handle (env_done self w) = None) = (handle w = None)"
  "(remote (env_done self w) = None) = (remote w = None)"
  by (simp_all add: lxdock_shares_done_def nomad_shares_done_def env_done_def
      Let_def split: option.splits)

lemma done_status [simp]:
  "handle w \<noteq> None \<Longrightarrow> status_code (the (handle (lxdock_shares_done self w))) = status_code (the (handle w))"
  "handle w \<noteq> None \<Longrightarrow> status_code (the (handle (nomad_shares_done self w))) = status_code (the (handle w))"
  "handle w \<noteq> None \<Longrightarrow> status_code (the (handle (env_done self w))) = status_code (the (handle w))"
  by (auto simp: lxdock_shares_done_def nomad_shares_done_def env_done_def
      Let_def split: option.splits)

lemma log_emit_loop_run:
  "for_each xs (\<lambda>x. thenM (log l (m x)) (emit (f x))) w =
     (Inr (), w\<lparr>trace := trace w @ concat (map (\<lambda>x. [Log l (m x), f x]) xs)\<rparr>)"
  by (induction xs arbitrary: w) (simp_all add: run_simps)

lemma log_call_loop_run:
  "handle w \<noteq> None \<Longrightarrow>
   for_each xs (\<lambda>x. thenM (log l (m x)) (thenM (container v env self) (emit (f x)))) w =
     (Inr (), w\<lparr>trace := trace w @ concat (map (\<lambda>x. [Log l (m x), f x]) xs)\<rparr>)"
proof (induction xs arbitrary: w)
  case Nil
  then show ?case by (simp add: return_def)
next
  case (Cons x xs)
  let ?w1 = "w\<lparr>trace := trace w @ [Log l (m x), f x]\<rparr>"
  have "handle ?w1 \<noteq> None" using Cons.prems by simp
  from Cons.IH [OF this] Cons.prems show ?case by (simp add: run_simps)
qed

lemma perform_barebones_setup_run:
  "handle w \<noteq> None \<Longrightarrow>
   perform_barebones_setup env self w =
     (Inr (), w\<lparr>trace := trace w
        @ [Log INFO ''Doing bare bones setup on the machine...'', GetSshPubkey,
           case ssh_pubkey env of Some key \<Rightarrow> AddSshPubkey key
           | None \<Rightarrow> Log WARN ''SSH pubkey was not found. Provisioning tools may not work correctly...'']\<rparr>)"
  by (simp add: perform_barebones_setup_def run_simps split: option.splits)

lemma unit_then_return [simp]: "thenM m (return ()) = m" for m :: "unit action"
proof
  fix w show "thenM m (return ()) w = m w"
    by (cases "m w") (auto simp: run_simps split: sum.splits)
qed

lemma exists_run: "remote w \<noteq> None \<Longrightarrow>
   exists env self w = (Inr True, w\<lparr>trace := trace w @ [ContainersGet (lxd_name env self)]\<rparr>)"
  by (auto simp: exists_def get_container_no_create_def run_simps)

lemma lxdock_provision_returns:
  assumes "handle w \<noteq> None" and "remote w \<noteq> None"
  shows "fst (lxdock_provision env self w) = Inr ()"
    and "hosts_file (snd (lxdock_provision env self w)) = hosts_file w"
    and "handle (snd (lxdock_provision env self w)) \<noteq> None"
    and "remote (snd (lxdock_provision env self w)) \<noteq> None"
proof -
  from assms obtain h r where hr: "handle w = Some h" "remote w = Some r" by auto
  have there: "handle (env_done self (w\<lparr>trace := t\<rparr>)) \<noteq> None"
    "remote (env_done self (w\<lparr>trace := t\<rparr>)) \<noteq> None" for t
    using hr by simp_all
  note defs = lxdock_provision_def must_be_created_and_running_def exists_run is_running_def
      lxdock_provision_body_def Let_def setup_env_run is_provisioned_def
      perform_barebones_setup_run log_emit_loop_run run_simps
  show "fst (lxdock_provision env self w) = Inr ()"
    using hr by (simp add: defs there del: not_None_eq)
  show "hosts_file (snd (lxdock_provision env self w)) = hosts_file w"
    using hr by (simp add: defs there del: not_None_eq)
  show "handle (snd (lxdock_provision env self w)) \<noteq> None"
    using hr by (simp add: defs there del: not_None_eq)
  show "remote (snd (lxdock_provision env self w)) \<noteq> None"
    using hr by (simp add: defs there del: not_None_eq)
qed

lemma lxdock_up_touch:
  assumes "ready env w"
  shows "lxdock_up env self mode w = lxdock_up env self mode (touched LXDock env self w)"
proof -
  let ?b = "status_code (seen LXDock self w) = CONTAINER_RUNNING"
  have first: "is_running LXDock env self w = (Inr ?b, touched LXDock env self w)"
    using container_ready [OF assms, of LXDock self] by (simp add: is_running_def run_simps)
  have again: "is_running LXDock env self (touched LXDock env self w)
      = (Inr ?b, touched LXDock env self w)"
    by (simp add: is_running_def run_simps)
  show ?thesis
    by (simp only: lxdock_up_def bindM_def first again prod.case sum.case)
qed

lemma lxdock_up_hosts:
  assumes "handle w \<noteq> None" and "remote w \<noteq> None"
    and "status_code (the (handle w)) \<noteq> CONTAINER_RUNNING"
    and "start_status env = CONTAINER_RUNNING"
    and "lxdock_ip env (polls w) \<noteq> []"
  shows "fst (lxdock_up env self mode w) = Inr ()"
    and "hosts_file (snd (lxdock_up env self mode w))
          = bind_all (opt_hostnames (options self)) (lxdock_ip env (polls w)) (hosts_file w)"
proof -
  from assms(1,2) obtain h r where hr: "handle w = Some h" "remote w = Some r" by auto
  with assms show "fst (lxdock_up env self mode w) = Inr ()"
    by (simp add: lxdock_up_def is_running_def lxdock_setup_ip_run setup_hostnames_run
        setup_users_run lxdock_setup_shares_cached setup_env_run is_provisioned_def
        lxdock_provision_returns Let_def run_simps)
  from assms hr show "hosts_file (snd (lxdock_up env self mode w))
          = bind_all (opt_hostnames (options self)) (lxdock_ip env (polls w)) (hosts_file w)"
    by (simp add: lxdock_up_def is_running_def lxdock_setup_ip_run setup_hostnames_run
        setup_users_run lxdock_setup_shares_cached setup_env_run is_provisioned_def
        lxdock_provision_returns Let_def run_simps)
qed

section \<open>Hostname bindings across up and halt\<close>

lemma done_remote_status [simp]:
  "map_option status_code (remote (lxdock_shares_done self w)) = map_option status_code (remote w)"
  "map_option status_code (remote (nomad_shares_done self w)) = map_option status_code (remote w)"
  "map_option status_code (remote (env_done self w)) = map_option status_code (remote w)"
  by (simp_all add: lxdock_shares_done_def nomad_shares_done_def
      env_done_def Let_def option.map_comp comp_def split: option.splits)

lemma status_after_save [simp]:
  "map_option status_code (map_option (\<lambda>r. r\<lparr>config := c, devices := d\<rparr>) x) = map_option status_code x"
  by (simp add: option.map_comp comp_def)

lemma status_after_set [simp]:
  "map_option status_code (map_option (\<lambda>c. c\<lparr>status_code := s\<rparr>) x) = map_option (\<lambda>c. s) x"
  by (simp add: option.map_comp comp_def)

lemma lxdock_provision_status:
  assumes "handle w \<noteq> None" and "remote w \<noteq> None"
  shows "map_option status_code (remote (snd (lxdock_provision env self w)))
           = map_option status_code (remote w)"
proof -
  from assms obtain h r where hr: "handle w = Some h" "remote w = Some r" by auto
  have there: "handle (env_done self (w\<lparr>trace := t\<rparr>)) \<noteq> None"
    "remote (env_done self (w\<lparr>trace := t\<rparr>)) \<noteq> None" for t
    using hr by simp_all
  show ?thesis
    using hr(1) assms(2)
    by (simp add: lxdock_provision_def must_be_created_and_running_def exists_run is_running_def
        lxdock_provision_body_def Let_def setup_env_run is_provisioned_def
        perform_barebones_setup_run log_emit_loop_run run_simps there remote_status_def
        del: not_None_eq)
qed

lemma lxdock_up_running:
  assumes "handle w \<noteq> None" and "remote w \<noteq> None"
    and "status_code (the (handle w)) \<noteq> CONTAINER_RUNNING"
    and "start_status env = CONTAINER_RUNNING"
    and "lxdock_ip env (polls w) \<noteq> []"
  shows "remote_status (snd (lxdock_up env self mode w)) = Some CONTAINER_RUNNING"
proof -
  from assms(1,2) obtain h r where hr: "handle w = Some h" "remote w = Some r" by auto
  with assms show ?thesis
    by (simp add: lxdock_up_def is_running_def lxdock_setup_ip_run setup_hostnames_run
        setup_users_run lxdock_setup_shares_cached setup_env_run is_provisioned_def
        lxdock_provision_returns lxdock_provision_status Let_def run_simps remote_status_def
        del: map_option_eq_Some not_None_eq)
qed

lemma seen_touched [simp]: "the (handle (touched v env self w)) = seen v self w"
  by simp

lemma lxdock_up_completes:
  assumes "ready env w" and "status_code (seen LXDock self w) \<noteq> CONTAINER_RUNNING"
    and "start_status env = CONTAINER_RUNNING" and "lxdock_ip env (polls w) \<noteq> []"
  shows "\<exists>w'. lxdock_up env self mode w = (Inr (), w')
           \<and> hosts_file w' = bind_all (opt_hostnames (options self)) (lxdock_ip env (polls w)) (hosts_file w)
           \<and> remote_status w' = Some CONTAINER_RUNNING"
proof -
  let ?t = "touched LXDock env self w"
  have t: "handle ?t \<noteq> None" "remote ?t \<noteq> None"
    "status_code (the (handle ?t)) \<noteq> CONTAINER_RUNNING" "lxdock_ip env (polls ?t) \<noteq> []"
    using assms by simp_all
  have "fst (lxdock_up env self mode ?t) = Inr ()"
    by (rule lxdock_up_hosts(1) [OF t(1) t(2) t(3) assms(3) t(4)])
  moreover have "hosts_file (snd (lxdock_up env self mode ?t))
          = bind_all (opt_hostnames (options self)) (lxdock_ip env (polls ?t)) (hosts_file ?t)"
    by (rule lxdock_up_hosts(2) [OF t(1) t(2) t(3) assms(3) t(4)])
  moreover have "remote_status (snd (lxdock_up env self mode ?t)) = Some CONTAINER_RUNNING"
    by (rule lxdock_up_running [OF t(1) t(2) t(3) assms(3) t(4)])
  ultimately show ?thesis
    unfolding lxdock_up_touch [OF assms(1)]
    by (cases "lxdock_up env self mode ?t") simp
qed

lemma halt_touch:
  assumes "ready env w"
  shows "halt v env self w = halt v env self (touched v env self w)"
proof -
  let ?b = "status_code (seen v self w) = CONTAINER_STOPPED"
  have first: "is_stopped v env self w = (Inr ?b, touched v env self w)"
    using container_ready [OF assms, of v self] by (simp add: is_stopped_def run_simps)
  have again: "is_stopped v env self (touched v env self w) = (Inr ?b, touched v env self w)"
    by (simp add: is_stopped_def run_simps)
  show ?thesis
    by (simp only: halt_def bindM_def first again prod.case sum.case)
qed

lemma halt_completes:
  assumes "ready env w" and "status_code (seen v self w) \<noteq> CONTAINER_STOPPED"
  shows "\<exists>w'. halt v env self w = (Inr (), w')
           \<and> hosts_file w' = unbind_all (opt_hostnames (options self)) (hosts_file w)
           \<and> remote_status w' = Some CONTAINER_STOPPED"
proof -
  let ?t = "touched v env self w"
  have "halt v env self ?t =
     (Inr (), set_status CONTAINER_STOPPED
                (?t\<lparr>hosts_file := unbind_all (opt_hostnames (options self)) (hosts_file ?t),
                    trace := trace ?t @ halt_events env self ?t\<rparr>))"
    using assms by (intro halt_run) simp_all
  then show ?thesis
    unfolding halt_touch [OF assms(1)] by (simp add: remote_status_def set_status_def)
qed

lemma ready_next_command [simp]: "remote w \<noteq> None \<Longrightarrow> ready env (next_command w)"
  by (simp add: ready_def next_command_def)

lemma seen_next_command:
  "remote_status w = Some s \<Longrightarrow> status_code (seen v self (next_command w)) = s"
  by (auto simp: remote_status_def seen_def next_command_def)

lemma next_command_fields [simp]:
  "hosts_file (next_command w) = hosts_file w" "polls (next_command w) = 0"
  "remote (next_command w) = remote w"
  by (simp_all add: next_command_def)

section \<open>The lifecycle of the hostname bindings\<close>

lemma bound_after_setup: "\<forall>h\<in>set hs. bind_all hs ip f h = Some ip"
  by (simp add: bind_all_def)

lemma unbound_after_unsetup: "\<forall>h\<in>set hs. unbind_all hs f h = None"
  by (simp add: unbind_all_def)

lemma setup_hostnames_persists:
  "\<exists>w'. setup_hostnames self ip w = (Inr (), w')
     \<and> (\<forall>h\<in>set (opt_hostnames (options self)). hosts_file w' h = Some ip)
     \<and> (EtcHostsSave \<in> set (events_of w w')) = (hosts_file w' \<noteq> hosts_file w)"
proof -
  obtain w' where run: "setup_hostnames self ip w = (Inr (), w')"
    and bound: "hosts_file w' = bind_all (opt_hostnames (options self)) ip (hosts_file w)"
    and saved: "(EtcHostsSave \<in> set (events_of w w')) = (hosts_file w' \<noteq> hosts_file w)"
    by (auto simp: setup_hostnames_run events_of_def)
  have "\<forall>h\<in>set (opt_hostnames (options self)). hosts_file w' h = Some ip"
    unfolding bound by (rule bound_after_setup)
  with run saved show ?thesis by blast
qed

lemma unsetup_hostnames_persists:
  "\<exists>w'. unsetup_hostnames self w = (Inr (), w')
     \<and> (\<forall>h\<in>set (opt_hostnames (options self)). hosts_file w' h = None)
     \<and> (EtcHostsSave \<in> set (events_of w w')) = (hosts_file w' \<noteq> hosts_file w)"
proof -
  obtain w' where run: "unsetup_hostnames self w = (Inr (), w')"
    and bound: "hosts_file w' = unbind_all (opt_hostnames (options self)) (hosts_file w)"
    and saved: "(EtcHostsSave \<in> set (events_of w w')) = (hosts_file w' \<noteq> hosts_file w)"
    by (auto simp: unsetup_hostnames_run events_of_def)
  have "\<forall>h\<in>set (opt_hostnames (options self)). hosts_file w' h = None"
    unfolding bound by (rule unbound_after_unsetup)
  with run saved show ?thesis by blast
qed

text \<open>
  C8: the lifecycle of the hostname bindings, with the resolution file modelled from the
  spec. When \<^verbatim>\<open>up\<close> completes with the address \<open>x\<close>, every declared hostname is bound
  to \<open>x\<close>; a later \<^verbatim>\<open>halt\<close> (a new command) leaves none of them bound; a later \<^verbatim>\<open>up\<close>
  that completes with \<open>y\<close> binds every one to \<open>y\<close>. \<^verbatim>\<open>_setup_hostnames\<close> and
  \<^verbatim>\<open>_unsetup_hostnames\<close> save the file exactly when the bindings they leave differ from
  those they found.
\<close>

theorem hostname_bindings_lifecycle:
  assumes "ready env w" and "status_code (seen LXDock self w) \<noteq> CONTAINER_RUNNING"
    and "start_status env = CONTAINER_RUNNING" and "lxdock_ip env (polls w) = x" and "x \<noteq> []"
    and "start_status env'' = CONTAINER_RUNNING" and "lxdock_ip env'' 0 = y" and "y \<noteq> []"
  shows
   "(\<exists>w1 w2 w3.
        lxdock_up env self mode w = (Inr (), w1)
      \<and> (\<forall>h\<in>set (opt_hostnames (options self)). hosts_file w1 h = Some x)
      \<and> halt LXDock env' self (next_command w1) = (Inr (), w2)
      \<and> (\<forall>h\<in>set (opt_hostnames (options self)). hosts_file w2 h = None)
      \<and> lxdock_up env'' self mode' (next_command w2) = (Inr (), w3)
      \<and> (\<forall>h\<in>set (opt_hostnames (options self)). hosts_file w3 h = Some y))
  \<and> (\<exists>w'. setup_hostnames self x w = (Inr (), w')
        \<and> (\<forall>h\<in>set (opt_hostnames (options self)). hosts_file w' h = Some x)
        \<and> (EtcHostsSave \<in> set (events_of w w')) = (hosts_file w' \<noteq> hosts_file w))
  \<and> (\<exists>w'. unsetup_hostnames self w = (Inr (), w')
        \<and> (\<forall>h\<in>set (opt_hostnames (options self)). hosts_file w' h = None)
        \<and> (EtcHostsSave \<in> set (events_of w w')) = (hosts_file w' \<noteq> hosts_file w))"
proof (intro conjI)
  let ?hs = "opt_hostnames (options self)"
  from lxdock_up_completes [OF assms(1,2,3), where mode = mode] assms(4,5) obtain w1 where
    up1: "lxdock_up env self mode w = (Inr (), w1)"
    and h1: "hosts_file w1 = bind_all ?hs x (hosts_file w)"
    and s1: "remote_status w1 = Some CONTAINER_RUNNING" by auto
  from s1 have r1: "ready env' (next_command w1)" by (auto simp: remote_status_def)
  from s1 have "status_code (seen LXDock self (next_command w1)) \<noteq> CONTAINER_STOPPED"
    by (simp add: seen_next_command)
  from halt_completes [OF r1 this] obtain w2 where
    down: "halt LXDock env' self (next_command w1) = (Inr (), w2)"
    and h2: "hosts_file w2 = unbind_all ?hs (hosts_file w1)"
    and s2: "remote_status w2 = Some CONTAINER_STOPPED" by auto
  from s2 have r2: "ready env'' (next_command w2)" by (auto simp: remote_status_def)
  from s2 have n2: "status_code (seen LXDock self (next_command w2)) \<noteq> CONTAINER_RUNNING"
    by (simp add: seen_next_command)
  have "lxdock_ip env'' (polls (next_command w2)) \<noteq> []" using assms(7,8) by simp
  from lxdock_up_completes [OF r2 n2 assms(6) this, where mode = mode'] assms(7) obtain w3 where
    up2: "lxdock_up env'' self mode' (next_command w2) = (Inr (), w3)"
    and h3: "hosts_file w3 = bind_all ?hs y (hosts_file w2)" by auto
  have b1: "\<forall>h\<in>set ?hs. hosts_file w1 h = Some x" unfolding h1 by (rule bound_after_setup)
  have b2: "\<forall>h\<in>set ?hs. hosts_file w2 h = None" unfolding h2 by (rule unbound_after_unsetup)
  have b3: "\<forall>h\<in>set ?hs. hosts_file w3 h = Some y" unfolding h3 by (rule bound_after_setup)
  from up1 b1 down b2 up2 b3
  show "\<exists>w1 w2 w3.
        lxdock_up env self mode w = (Inr (), w1)
      \<and> (\<forall>h\<in>set ?hs. hosts_file w1 h = Some x)
      \<and> halt LXDock env' self (next_command w1) = (Inr (), w2)
      \<and> (\<forall>h\<in>set ?hs. hosts_file w2 h = None)
      \<and> lxdock_up env'' self mode' (next_command w2) = (Inr (), w3)
      \<and> (\<forall>h\<in>set ?hs. hosts_file w3 h = Some y)"
    by blast
next
  show "\<exists>w'. setup_hostnames self x w = (Inr (), w')
        \<and> (\<forall>h\<in>set (opt_hostnames (options self)). hosts_file w' h = Some x)
        \<and> (EtcHostsSave \<in> set (events_of w w')) = (hosts_file w' \<noteq> hosts_file w)"
    by (rule setup_hostnames_persists)
next
  show "\<exists>w'. unsetup_hostnames self w = (Inr (), w')
        \<and> (\<forall>h\<in>set (opt_hostnames (options self)). hosts_file w' h = None)
        \<and> (EtcHostsSave \<in> set (events_of w w')) = (hosts_file w' \<noteq> hosts_file w)"
    by (rule unsetup_hostnames_persists)
qed


theorem hostname_bindings_lifecycle_witness:
  "ready (example_env (\<lambda>n. ''10.0.3.5'')) absent_world
   \<and> status_code (seen LXDock example_self absent_world) \<noteq> CONTAINER_RUNNING
   \<and> start_status (example_env (\<lambda>n. ''10.0.3.5'')) = CONTAINER_RUNNING
   \<and> lxdock_ip (example_env (\<lambda>n. ''10.0.3.5'')) (polls absent_world) = ''10.0.3.5''
   \<and> start_status (example_env (\<lambda>n. ''10.0.3.9'')) = CONTAINER_RUNNING
   \<and> lxdock_ip (example_env (\<lambda>n. ''10.0.3.9'')) 0 = ''10.0.3.9''
   \<and> (\<exists>w1 w2 w3.
         lxdock_up (example_env (\<lambda>n. ''10.0.3.5'')) example_self None absent_world = (Inr (), w1)
       \<and> hosts_file w1 ''dev.local'' = Some ''10.0.3.5''
       \<and> halt LXDock (example_env (\<lambda>n. ''10.0.3.5'')) example_self (next_command w1) = (Inr (), w2)
       \<and> hosts_file w2 ''dev.local'' = None
       \<and> lxdock_up (example_env (\<lambda>n. ''10.0.3.9'')) example_self None (next_command w2) = (Inr (), w3)
       \<and> hosts_file w3 ''dev.local'' = Some ''10.0.3.9'')"
proof -
  let ?e1 = "example_env (\<lambda>n. ''10.0.3.5'')" and ?e2 = "example_env (\<lambda>n. ''10.0.3.9'')"
  have a1: "ready ?e1 absent_world" by (simp add: ready_def absent_world_def example_env_def)
  have a2: "status_code (seen LXDock example_self absent_world) \<noteq> CONTAINER_RUNNING"
    by (simp add: seen_def absent_world_def fresh_container_def)
  have a3: "start_status ?e1 = CONTAINER_RUNNING" by (simp add: example_env_def)
  have a4: "lxdock_ip ?e1 (polls absent_world) = ''10.0.3.5''"
    by (simp add: lxdock_ip_def example_env_def)
  have a5: "''10.0.3.5'' \<noteq> []" by simp
  have a6: "start_status ?e2 = CONTAINER_RUNNING" by (simp add: example_env_def)
  have a7: "lxdock_ip ?e2 0 = ''10.0.3.9''" by (simp add: lxdock_ip_def example_env_def)
  have a8: "''10.0.3.9'' \<noteq> []" by simp
  have hs: "opt_hostnames (options example_self) = [''dev.local'']"
    by (simp add: example_self_def example_options_def)
  from hostname_bindings_lifecycle [OF a1 a2 a3 a4 a5 a6 a7 a8, where mode = None
      and mode' = None and env' = ?e1]
  obtain w1 w2 w3 where
    "lxdock_up ?e1 example_self None absent_world = (Inr (), w1)"
    "\<forall>h\<in>set (opt_hostnames (options example_self)). hosts_file w1 h = Some ''10.0.3.5''"
    "halt LXDock ?e1 example_self (next_command w1) = (Inr (), w2)"
    "\<forall>h\<in>set (opt_hostnames (options example_self)). hosts_file w2 h = None"
    "lxdock_up ?e2 example_self None (next_command w2) = (Inr (), w3)"
    "\<forall>h\<in>set (opt_hostnames (options example_self)). hosts_file w3 h = Some ''10.0.3.9''"
    by blast
  then have "\<exists>w1 w2 w3.
         lxdock_up ?e1 example_self None absent_world = (Inr (), w1)
       \<and> hosts_file w1 ''dev.local'' = Some ''10.0.3.5''
       \<and> halt LXDock ?e1 example_self (next_command w1) = (Inr (), w2)
       \<and> hosts_file w2 ''dev.local'' = None
       \<and> lxdock_up ?e2 example_self None (next_command w2) = (Inr (), w3)
       \<and> hosts_file w3 ''dev.local'' = Some ''10.0.3.9''"
    unfolding hs by auto
  with a1 a2 a3 a4 a6 a7 show ?thesis by blast
qed

section \<open>A second \<open>up\<close>\<close>

lemma lxdock_up_already_running:
  assumes "ready env w" and "status_code (seen LXDock self w) = CONTAINER_RUNNING"
  shows "lxdock_up env self mode w =
     (Inr (), w\<lparr>handle := Some (seen LXDock self w),
               trace := trace w @ touch_events LXDock env self w
                          @ [Log INFO ''Container is already running'']\<rparr>)"
proof -
  have exists: "remote w \<noteq> None"
    using assms by (auto simp: ready_def seen_def fresh_container_def split: option.splits)
  then have same: "touched LXDock env self w
      = w\<lparr>handle := Some (seen LXDock self w), trace := trace w @ touch_events LXDock env self w\<rparr>"
    by (auto simp: touched_def)
  show ?thesis
    unfolding lxdock_up_touch [OF assms(1)] same
    using assms(2) by (simp add: lxdock_up_def is_running_def run_simps)
qed

lemma touch_events_existing:
  "remote w \<noteq> None \<Longrightarrow> filter daemon_mutation (touch_events v env self w) = []"
  "remote w \<noteq> None \<Longrightarrow> filter guest_command (touch_events v env self w) = []"
  by (auto simp: touch_events_def daemon_mutation_def guest_command_def split: option.splits)

lemma overridden_other:
  "\<forall>k\<in>fst ` set xs. environment_key k \<noteq> key \<Longrightarrow> map_of (overridden xs cfg) key = map_of cfg key"
proof (induction xs arbitrary: cfg)
  case Nil
  then show ?case by (simp add: overridden_def)
next
  case (Cons x xs)
  obtain k v where x: "x = (k, v)" by (cases x)
  from Cons.prems x have "environment_key k \<noteq> key" and "\<forall>k\<in>fst ` set xs. environment_key k \<noteq> key"
    by auto
  with Cons.IH [of "AList.update (environment_key k) v cfg"] x show ?case
    by (simp add: overridden_def update_conv')
qed

lemma environment_key_inj [simp]: "(environment_key a = environment_key b) = (a = b)"
  by (simp add: environment_key_def)

lemma overridden_applied:
  "distinct (map fst xs) \<Longrightarrow> (k, v) \<in> set xs \<Longrightarrow>
   map_of (overridden xs cfg) (environment_key k) = Some v"
proof (induction xs arbitrary: cfg)
  case Nil
  then show ?case by simp
next
  case (Cons x xs)
  obtain k' v' where x: "x = (k', v')" by (cases x)
  show ?case
  proof (cases "(k, v) = (k', v')")
    case True
    with Cons.prems x have "\<forall>j\<in>fst ` set xs. environment_key j \<noteq> environment_key k" by auto
    then have "map_of (overridden xs (AList.update (environment_key k) v cfg)) (environment_key k)
        = map_of (AList.update (environment_key k) v cfg) (environment_key k)"
      by (rule overridden_other)
    with True x show ?thesis by (simp add: overridden_def update_conv')
  next
    case False
    with Cons.prems x have "(k, v) \<in> set xs" and "distinct (map fst xs)" by auto
    from Cons.IH [OF this(2,1), of "AList.update (environment_key k') v' cfg"] x show ?thesis
      by (simp add: overridden_def)
  qed
qed

lemma provisioned_key_kept [simp]:
  "map_of (overridden xs cfg) ''user.lxdock.provisioned'' = map_of cfg ''user.lxdock.provisioned''"
  by (rule overridden_other) (simp add: environment_key_def)

lemma done_config [simp]:
  "handle w \<noteq> None \<Longrightarrow> config (the (handle (lxdock_shares_done self w))) = config (the (handle w))"
  "handle w \<noteq> None \<Longrightarrow> config (the (handle (env_done self w)))
     = overridden (opt_environment (options self)) (config (the (handle w)))"
  by (auto simp: lxdock_shares_done_def env_done_def overridden_def split: option.splits)

lemma no_provisioning_in_grants [simp]:
  "filter provisioning_event (concat (map (lxdock_acl_events self p ex) shares)) = []"
  "filter provisioning_event (concat (map (nomad_acl_events self p ex) shares)) = []"
  by (induction shares)
     (auto simp: lxdock_acl_events_def nomad_acl_events_def provisioning_event_def)

lemma no_provisioning_in_polls [simp]:
  "filter provisioning_event (poll_events n) = []"
  by (induction n) (simp_all add: poll_events_def provisioning_event_def)

lemma no_provisioning_in_ip [simp]:
  "filter provisioning_event (lxdock_ip_events env p) = []"
  by (simp add: lxdock_ip_events_def give_up_events_def provisioning_event_def)

lemma no_provisioning_in_touch [simp]:
  "filter provisioning_event (touch_events v env self w) = []"
  by (simp add: touch_events_def creation_events_def provisioning_event_def split: option.splits)

lemma trace_done:
  "trace (users_done self w) = trace w @ users_events self"
  "trace (lxdock_shares_done self w) = trace w @ lxdock_shares_events self w"
  "trace (nomad_shares_done self w) = trace w @ nomad_shares_events self w"
  "trace (env_done self w) = trace w @ env_events self"
  by (simp_all add: users_done_def lxdock_shares_done_def nomad_shares_done_def env_done_def
      users_events_def lxdock_shares_events_def nomad_shares_events_def env_events_def
      Let_def split: option.splits)

lemma no_provisioning_in_done [simp]:
  "filter provisioning_event (users_events self) = []"
  "filter provisioning_event (lxdock_shares_events self w) = []"
  "filter provisioning_event (nomad_shares_events self w) = []"
  "filter provisioning_event (env_events self) = []"
  by (simp_all add: users_events_def lxdock_shares_events_def nomad_shares_events_def
      env_events_def provisioning_event_def comp_def split: option.splits)

lemma remote_config_env_done:
  "opt_environment (options self) \<noteq> [] \<Longrightarrow> remote w \<noteq> None \<Longrightarrow>
   map_option config (remote (env_done self w))
     = Some (overridden (opt_environment (options self)) (config (the (handle w))))"
  by (auto simp: env_done_def)

lemma lxdock_up_gated_run:
  assumes "handle w = Some h" and "remote w = Some r"
    and "status_code h \<noteq> CONTAINER_RUNNING"
    and "start_status env = CONTAINER_RUNNING"
    and "lxdock_ip env (polls w) \<noteq> []"
    and "provisioned_config LXDock h" and "mode \<noteq> Some ENABLED"
  shows "lxdock_up env self mode w =
     (Inr (), (env_done self (lxdock_shares_done self (users_done self (after_hostnames env self w))))
                \<lparr>trace := trace (env_done self (lxdock_shares_done self (users_done self
                                    (after_hostnames env self w)))) @ gate_log mode\<rparr>)"
proof -
  note run = lxdock_up_def is_running_def lxdock_setup_ip_run setup_hostnames_run
        setup_users_run lxdock_setup_shares_cached setup_env_run is_provisioned_def
        Let_def run_simps product_def after_hostnames_def hostnames_events_def gate_log_def
        set_status_def
  have p: "map_of (config h) ''user.lxdock.provisioned'' = Some ''true''"
    using assms(6) by (simp add: provisioned_config_def provisioned_key_def product_def)
  consider "mode = None" | "mode = Some AUTO" | "mode = Some DISABLED"
    using assms(7) by (cases mode) (auto intro: ProvisioningMode.exhaust)
  then show ?thesis
  proof cases
    case 1
    with assms(1-5) p show ?thesis by (simp add: run)
  next
    case 2
    with assms(1-5) p show ?thesis by (simp add: run)
  next
    case 3
    with assms(1-5) p show ?thesis by (simp add: run)
  qed
qed

lemma after_hostnames_fields [simp]:
  "handle (after_hostnames env self w) = map_option (\<lambda>c. c\<lparr>status_code := CONTAINER_RUNNING\<rparr>) (handle w)"
  "remote (after_hostnames env self w) = map_option (\<lambda>c. c\<lparr>status_code := CONTAINER_RUNNING\<rparr>) (remote w)"
  "hosts_file (after_hostnames env self w)
     = bind_all (opt_hostnames (options self)) (lxdock_ip env (polls w)) (hosts_file w)"
  by (simp_all add: after_hostnames_def)

lemma no_provisioning_in_hostnames [simp]:
  "filter provisioning_event (hostnames_events self ip w) = []"
  by (simp add: hostnames_events_def provisioning_event_def comp_def)

lemma no_provisioning_in_gate [simp]: "filter provisioning_event (gate_log mode) = []"
  by (simp add: gate_log_def provisioning_event_def)

lemma trace_after_hostnames:
  "trace (after_hostnames env self w) =
     trace w @ [Log INFO ''Starting container...'', Start]
       @ lxdock_ip_events env (polls w)
       @ Log INFO (''Container is up! IP: '' @ lxdock_ip env (polls w))
       # hostnames_events self (lxdock_ip env (polls w)) w"
  by (simp add: after_hostnames_def)

lemma lxdock_up_gated:
  assumes "ready env w" and "status_code (seen LXDock self w) \<noteq> CONTAINER_RUNNING"
    and "provisioned_config LXDock (seen LXDock self w)"
    and "start_status env = CONTAINER_RUNNING" and "lxdock_ip env (polls w) \<noteq> []"
    and "mode \<noteq> Some ENABLED"
  shows "\<exists>w'. lxdock_up env self mode w = (Inr (), w')
           \<and> filter provisioning_event (events_of w w') = []
           \<and> (opt_environment (options self) \<noteq> [] \<longrightarrow>
                 Save \<in> set (events_of w w')
               \<and> map_option config (remote w')
                    = Some (overridden (opt_environment (options self)) (config (seen LXDock self w))))"
proof -
  let ?t = "touched LXDock env self w"
  let ?x = "lxdock_shares_done self (users_done self (after_hostnames env self ?t))"
  let ?w' = "(env_done self ?x)\<lparr>trace := trace (env_done self ?x) @ gate_log mode\<rparr>"
  obtain r where t: "handle ?t = Some (seen LXDock self w)" "remote ?t = Some r" by simp
  have run: "lxdock_up env self mode w = (Inr (), ?w')"
    unfolding lxdock_up_touch [OF assms(1)]
    using t assms(2) assms(4) _ assms(3) assms(6)
    by (rule lxdock_up_gated_run) (use assms(5) in simp)
  have tr: "trace ?w' = trace w @ touch_events LXDock env self w
      @ [Log INFO ''Starting container...'', Start]
      @ lxdock_ip_events env (polls w)
      @ Log INFO (''Container is up! IP: '' @ lxdock_ip env (polls w))
      # hostnames_events self (lxdock_ip env (polls w)) ?t
      @ users_events self @ lxdock_shares_events self (users_done self (after_hostnames env self ?t))
      @ env_events self @ gate_log mode"
    by (simp add: trace_done trace_after_hostnames)
  have quiet: "filter provisioning_event (events_of w ?w') = []"
    unfolding events_of_def tr by (simp add: provisioning_event_def)
  have applied: "Save \<in> set (events_of w ?w')
               \<and> map_option config (remote ?w')
                    = Some (overridden (opt_environment (options self)) (config (seen LXDock self w)))"
    if env: "opt_environment (options self) \<noteq> []"
  proof
    show "Save \<in> set (events_of w ?w')"
      unfolding events_of_def tr using env by (simp add: env_events_def)
    have there: "remote ?x \<noteq> None" "handle (users_done self (after_hostnames env self ?t)) \<noteq> None"
      using t by simp_all
    have "config (the (handle ?x)) = config (seen LXDock self w)"
      using there(2) t by simp
    with remote_config_env_done [OF env there(1)]
    show "map_option config (remote ?w')
            = Some (overridden (opt_environment (options self)) (config (seen LXDock self w)))"
      by simp
  qed
  from run quiet applied show ?thesis by blast
qed

section \<open>A second \<^verbatim>\<open>up\<close>\<close>

lemma after_first_up_config:
  "remote_config after_first_up ''user.lxdock.provisioned'' = Some ''true''"
  "remote_config after_first_up ''environment.LC_ALL'' = Some ''C''"
proof -
  let ?env = "example_env (always ''10.0.3.5'')"
  have r: "ready ?env absent_world" by (simp add: ready_def absent_world_def example_env_def)
  have t: "touched LXDock ?env example_self absent_world
      = \<lparr>remote = Some (fresh_container LXDock example_self),
         handle = Some (fresh_container LXDock example_self),
         hosts_file = Map.empty, polls = 0, trace = creation_events LXDock ?env example_self\<rparr>"
    by (simp add: touched_def absent_world_def seen_def touch_events_def)
  have ip: "lxdock_ip ?env 0 = ''10.0.3.5''" "lxdock_ip_polls ?env 0 = 0"
    "lxdock_ip_events ?env 0 = [GetIp]"
    by (simp_all add: lxdock_ip_def lxdock_ip_polls_def lxdock_ip_events_def example_env_def always_def)
  note run = lxdock_up_def is_running_def lxdock_setup_ip_run setup_hostnames_run
        setup_users_run lxdock_setup_shares_cached setup_env_run is_provisioned_def
        Let_def run_simps product_def set_status_def
        lxdock_provision_def must_be_created_and_running_def exists_run
        lxdock_provision_body_def perform_barebones_setup_run log_emit_loop_run
        fresh_container_def created_config_def env_done_def lxdock_shares_done_def users_done_def
        overridden_def environment_key_def remote_config_def
        example_self_def example_options_def example_env_def bind_all_def
  show "remote_config after_first_up ''user.lxdock.provisioned'' = Some ''true''"
    unfolding after_first_up_def lxdock_up_touch [OF r] t
    by (simp add: run ip [unfolded example_env_def] update_conv')
  show "remote_config after_first_up ''environment.LC_ALL'' = Some ''C''"
    unfolding after_first_up_def lxdock_up_touch [OF r] t
    by (simp add: run ip [unfolded example_env_def] update_conv')
qed

lemma example_ip [simp]: "lxdock_ip (example_env (always ''10.0.3.5'')) 0 = ''10.0.3.5''"
  by (simp add: lxdock_ip_def example_env_def always_def)

lemma after_first_up_running:
  "fst (lxdock_up (example_env (always ''10.0.3.5'')) example_self None absent_world) = Inr ()"
  "remote_status after_first_up = Some CONTAINER_RUNNING"
proof -
  let ?env = "example_env (always ''10.0.3.5'')"
  have "\<exists>w'. lxdock_up ?env example_self None absent_world = (Inr (), w')
           \<and> hosts_file w' = bind_all (opt_hostnames (options example_self)) (lxdock_ip ?env (polls absent_world)) (hosts_file absent_world)
           \<and> remote_status w' = Some CONTAINER_RUNNING"
    by (rule lxdock_up_completes)
       (simp_all add: ready_def absent_world_def seen_def fresh_container_def example_env_def
          lxdock_ip_def always_def)
  then show "fst (lxdock_up ?env example_self None absent_world) = Inr ()"
    and "remote_status after_first_up = Some CONTAINER_RUNNING"
    by (auto simp: after_first_up_def)
qed

lemma remote_status_exists: "remote_status w = Some s \<Longrightarrow> remote w \<noteq> None"
  by (auto simp: remote_status_def)

lemma seen_next_config:
  "remote w \<noteq> None \<Longrightarrow> map_of (config (seen v self (next_command w))) key = remote_config w key"
  by (auto simp: seen_def next_command_def remote_config_def)

lemma next_command_handle: "handle (next_command w) = None"
  by (simp add: next_command_def)

lemma halt_keeps_config:
  assumes "remote w \<noteq> None" and "handle w = None"
    and "status_code (seen v self w) \<noteq> CONTAINER_STOPPED"
  shows "remote_config (snd (halt v env self w)) key = remote_config w key"
proof -
  have r: "ready env w" using assms by (simp add: ready_def)
  let ?t = "touched v env self w"
  have "halt v env self ?t =
     (Inr (), set_status CONTAINER_STOPPED
                (?t\<lparr>hosts_file := unbind_all (opt_hostnames (options self)) (hosts_file ?t),
                    trace := trace ?t @ halt_events env self ?t\<rparr>))"
    using assms r by (intro halt_run) simp_all
  then show ?thesis
    unfolding halt_touch [OF r] using assms(1)
    by (auto simp: remote_config_def set_status_def touched_def)
qed

lemma after_halt_stopped:
  "remote_status after_halt = Some CONTAINER_STOPPED"
  "remote_config after_halt ''user.lxdock.provisioned'' = Some ''true''"
proof -
  let ?env = "example_env (always ''10.0.3.5'')"
  let ?w = "next_command after_first_up"
  have ex: "remote after_first_up \<noteq> None"
    by (rule remote_status_exists [OF after_first_up_running(2)])
  have st: "status_code (seen LXDock example_self ?w) = CONTAINER_RUNNING"
    by (rule seen_next_command [OF after_first_up_running(2)])
  have "\<exists>w'. halt LXDock ?env example_self ?w = (Inr (), w')
           \<and> hosts_file w' = unbind_all (opt_hostnames (options example_self)) (hosts_file ?w)
           \<and> remote_status w' = Some CONTAINER_STOPPED"
    by (rule halt_completes) (simp_all add: ex st)
  then show "remote_status after_halt = Some CONTAINER_STOPPED"
    by (auto simp: after_halt_def)
  have "remote_config after_halt ''user.lxdock.provisioned''
          = remote_config ?w ''user.lxdock.provisioned''"
    unfolding after_halt_def
    by (rule halt_keeps_config) (simp_all add: ex st next_command_handle)
  then show "remote_config after_halt ''user.lxdock.provisioned'' = Some ''true''"
    by (simp add: remote_config_def after_first_up_config(1) [unfolded remote_config_def])
qed

text \<open>
  C2 as stated: a second \<^verbatim>\<open>up\<close> after a first one that reached Running and Provisioned
  still re-applies the environment overrides. The example project is brought up, its
  override of \<open>LC_ALL\<close> is edited from \<open>C\<close> to \<open>en_US.UTF-8\<close>, and \<^verbatim>\<open>up\<close> is given again: the
  call returns at \<^verbatim>\<open>if self.is_running\<close>, sends nothing to the daemon, and the container
  keeps \<open>environment.LC_ALL = C\<close>.
\<close>

theorem second_up_keeps_old_overrides:
  "fst (lxdock_up (example_env (always ''10.0.3.5'')) example_self None absent_world) = Inr ()
   \<and> remote_status after_first_up = Some CONTAINER_RUNNING
   \<and> remote_config after_first_up ''user.lxdock.provisioned'' = Some ''true''
   \<and> opt_environment (options edited_self) = [(''LC_ALL'', ''en_US.UTF-8'')]
   \<and> (\<exists>w'. lxdock_up (example_env (always ''10.0.3.5'')) edited_self None
               (next_command after_first_up) = (Inr (), w')
          \<and> filter daemon_mutation (events_of (next_command after_first_up) w') = []
          \<and> remote_config w' ''environment.LC_ALL'' = Some ''C'')"
proof -
  let ?env = "example_env (always ''10.0.3.5'')"
  let ?w = "next_command after_first_up"
  have ex: "remote after_first_up \<noteq> None"
    by (rule remote_status_exists [OF after_first_up_running(2)])
  have st: "status_code (seen LXDock edited_self ?w) = CONTAINER_RUNNING"
    by (rule seen_next_command [OF after_first_up_running(2)])
  have r: "ready ?env ?w" using ex by simp
  have quiet: "filter daemon_mutation (touch_events LXDock ?env edited_self ?w) = []"
    by (rule touch_events_existing) (simp add: ex)
  have "remote_config (?w\<lparr>handle := Some (seen LXDock edited_self ?w),
               trace := trace ?w @ touch_events LXDock ?env edited_self ?w
                          @ [Log INFO ''Container is already running'']\<rparr>) ''environment.LC_ALL''
          = Some ''C''"
    using after_first_up_config(2) by (simp add: remote_config_def)
  moreover have "filter daemon_mutation
       (events_of ?w (?w\<lparr>handle := Some (seen LXDock edited_self ?w),
               trace := trace ?w @ touch_events LXDock ?env edited_self ?w
                          @ [Log INFO ''Container is already running'']\<rparr>)) = []"
    using quiet by (simp add: events_of_def daemon_mutation_def)
  moreover have "opt_environment (options edited_self) = [(''LC_ALL'', ''en_US.UTF-8'')]"
    by (simp add: edited_self_def)
  ultimately show ?thesis
    using after_first_up_running after_first_up_config(1)
    unfolding lxdock_up_already_running [OF r st] by blast
qed

text \<open>
  C2 as amended: a second \<^verbatim>\<open>up\<close> on a provisioned container that is still running returns
  normally without sending anything to the daemon or to the guest: the provisioning
  pipeline is not run, and the container on the daemon, the overrides in its
  configuration included, is left as it was. When \<^verbatim>\<open>up\<close> finds the provisioned container
  not running (after a \<^verbatim>\<open>halt\<close>), the start succeeds, an address is found and the
  provisioning mode does not force provisioning, then the provisioning pipeline is not
  run either, and non-empty overrides are written into the configuration and saved: every
  key of the overrides is in the daemon's copy with the value of the declarative options.
\<close>

theorem second_up_gated:
  assumes "ready env w" and "provisioned_config LXDock (seen LXDock self w)"
  shows
   "(status_code (seen LXDock self w) = CONTAINER_RUNNING \<longrightarrow>
       (\<exists>w'. lxdock_up env self mode w = (Inr (), w')
          \<and> remote w' = remote w
          \<and> filter daemon_mutation (events_of w w') = []
          \<and> filter guest_command (events_of w w') = []
          \<and> filter provisioning_event (events_of w w') = []))
  \<and> (status_code (seen LXDock self w) \<noteq> CONTAINER_RUNNING
       \<and> start_status env = CONTAINER_RUNNING \<and> lxdock_ip env (polls w) \<noteq> []
       \<and> mode \<noteq> Some ENABLED \<and> distinct (map fst (opt_environment (options self))) \<longrightarrow>
       (\<exists>w'. lxdock_up env self mode w = (Inr (), w')
          \<and> filter provisioning_event (events_of w w') = []
          \<and> (opt_environment (options self) \<noteq> [] \<longrightarrow>
                Save \<in> set (events_of w w')
              \<and> (\<forall>(key, val) \<in> set (opt_environment (options self)).
                    remote_config w' (environment_key key) = Some val))))"
proof (intro conjI impI)
  assume st: "status_code (seen LXDock self w) = CONTAINER_RUNNING"
  have ex: "remote w \<noteq> None"
    using assms(1) st by (auto simp: ready_def seen_def fresh_container_def split: option.splits)
  let ?w' = "w\<lparr>handle := Some (seen LXDock self w),
               trace := trace w @ touch_events LXDock env self w
                          @ [Log INFO ''Container is already running'']\<rparr>"
  have ev: "events_of w ?w' = touch_events LXDock env self w @ [Log INFO ''Container is already running'']"
    by (simp add: events_of_def)
  have "filter daemon_mutation (events_of w ?w') = []"
    unfolding ev using touch_events_existing(1) [OF ex] by (simp add: daemon_mutation_def)
  moreover have "filter guest_command (events_of w ?w') = []"
    unfolding ev using touch_events_existing(2) [OF ex] by (simp add: guest_command_def)
  moreover have "filter provisioning_event (events_of w ?w') = []"
    unfolding ev by (simp add: no_provisioning_in_touch provisioning_event_def)
  moreover have "remote ?w' = remote w" by simp
  ultimately show "\<exists>w'. lxdock_up env self mode w = (Inr (), w')
          \<and> remote w' = remote w
          \<and> filter daemon_mutation (events_of w w') = []
          \<and> filter guest_command (events_of w w') = []
          \<and> filter provisioning_event (events_of w w') = []"
    unfolding lxdock_up_already_running [OF assms(1) st] by blast
next
  assume h: "status_code (seen LXDock self w) \<noteq> CONTAINER_RUNNING
       \<and> start_status env = CONTAINER_RUNNING \<and> lxdock_ip env (polls w) \<noteq> []
       \<and> mode \<noteq> Some ENABLED \<and> distinct (map fst (opt_environment (options self)))"
  then have h': "status_code (seen LXDock self w) \<noteq> CONTAINER_RUNNING"
    "start_status env = CONTAINER_RUNNING" "lxdock_ip env (polls w) \<noteq> []"
    "mode \<noteq> Some ENABLED" "distinct (map fst (opt_environment (options self)))"
    by simp_all
  from lxdock_up_gated [OF assms(1) h'(1) assms(2) h'(2) h'(3) h'(4)]
  obtain w' where run: "lxdock_up env self mode w = (Inr (), w')"
    and quiet: "filter provisioning_event (events_of w w') = []"
    and env: "opt_environment (options self) \<noteq> [] \<longrightarrow>
                Save \<in> set (events_of w w')
              \<and> map_option config (remote w')
                   = Some (overridden (opt_environment (options self)) (config (seen LXDock self w)))"
    by blast
  have "opt_environment (options self) \<noteq> [] \<longrightarrow>
                Save \<in> set (events_of w w')
              \<and> (\<forall>(key, val) \<in> set (opt_environment (options self)).
                    remote_config w' (environment_key key) = Some val)"
  proof (intro impI conjI)
    assume ne: "opt_environment (options self) \<noteq> []"
    with env show "Save \<in> set (events_of w w')" by simp
    from env ne obtain r where r: "remote w' = Some r"
      "config r = overridden (opt_environment (options self)) (config (seen LXDock self w))"
      by auto
    show "\<forall>(key, val) \<in> set (opt_environment (options self)).
                    remote_config w' (environment_key key) = Some val"
    proof (clarify)
      fix key val assume "(key, val) \<in> set (opt_environment (options self))"
      from overridden_applied [OF h'(5) this]
      show "remote_config w' (environment_key key) = Some val"
        by (simp add: remote_config_def r)
    qed
  qed
  with run quiet show "\<exists>w'. lxdock_up env self mode w = (Inr (), w')
          \<and> filter provisioning_event (events_of w w') = []
          \<and> (opt_environment (options self) \<noteq> [] \<longrightarrow>
                Save \<in> set (events_of w w')
              \<and> (\<forall>(key, val) \<in> set (opt_environment (options self)).
                    remote_config w' (environment_key key) = Some val))"
    by blast
qed

theorem second_up_gated_witness:
  "ready (example_env (always ''10.0.3.5'')) (next_command after_first_up)
   \<and> provisioned_config LXDock (seen LXDock edited_self (next_command after_first_up))
   \<and> status_code (seen LXDock edited_self (next_command after_first_up)) = CONTAINER_RUNNING
   \<and> (\<exists>w'. lxdock_up (example_env (always ''10.0.3.5'')) edited_self None
               (next_command after_first_up) = (Inr (), w')
          \<and> remote w' = remote after_first_up
          \<and> filter provisioning_event (events_of (next_command after_first_up) w') = [])
   \<and> ready (example_env (always ''10.0.3.5'')) (next_command after_halt)
   \<and> provisioned_config LXDock (seen LXDock edited_self (next_command after_halt))
   \<and> status_code (seen LXDock edited_self (next_command after_halt)) = CONTAINER_STOPPED
   \<and> (\<exists>w'. lxdock_up (example_env (always ''10.0.3.5'')) edited_self None
               (next_command after_halt) = (Inr (), w')
          \<and> filter provisioning_event (events_of (next_command after_halt) w') = []
          \<and> Save \<in> set (events_of (next_command after_halt) w')
          \<and> remote_config w' ''environment.LC_ALL'' = Some ''en_US.UTF-8'')"
proof -
  let ?env = "example_env (always ''10.0.3.5'')"
  let ?w1 = "next_command after_first_up"
  let ?w2 = "next_command after_halt"
  have ex1: "remote after_first_up \<noteq> None"
    by (rule remote_status_exists [OF after_first_up_running(2)])
  have ex2: "remote after_halt \<noteq> None"
    by (rule remote_status_exists [OF after_halt_stopped(1)])
  have r1: "ready ?env ?w1" using ex1 by simp
  have r2: "ready ?env ?w2" using ex2 by simp
  have p1: "provisioned_config LXDock (seen LXDock edited_self ?w1)"
    by (simp add: provisioned_config_def provisioned_key_def product_def
        seen_next_config [OF ex1] after_first_up_config(1))
  have p2: "provisioned_config LXDock (seen LXDock edited_self ?w2)"
    by (simp add: provisioned_config_def provisioned_key_def product_def
        seen_next_config [OF ex2] after_halt_stopped(2))
  have s1: "status_code (seen LXDock edited_self ?w1) = CONTAINER_RUNNING"
    by (rule seen_next_command [OF after_first_up_running(2)])
  have s2: "status_code (seen LXDock edited_self ?w2) = CONTAINER_STOPPED"
    by (rule seen_next_command [OF after_halt_stopped(1)])
  have e: "opt_environment (options edited_self) = [(''LC_ALL'', ''en_US.UTF-8'')]"
    by (simp add: edited_self_def)
  have k: "environment_key ''LC_ALL'' = ''environment.LC_ALL''"
    by (simp add: environment_key_def)
  have st: "start_status ?env = CONTAINER_RUNNING" by (simp add: example_env_def)
  from second_up_gated [OF r1 p1, where mode = None] s1
  have a: "\<exists>w'. lxdock_up ?env edited_self None ?w1 = (Inr (), w')
          \<and> remote w' = remote after_first_up
          \<and> filter provisioning_event (events_of ?w1 w') = []"
    by auto
  from second_up_gated [OF r2 p2, where mode = None] s2 st
  have b: "\<exists>w'. lxdock_up ?env edited_self None ?w2 = (Inr (), w')
          \<and> filter provisioning_event (events_of ?w2 w') = []
          \<and> Save \<in> set (events_of ?w2 w')
          \<and> remote_config w' ''environment.LC_ALL'' = Some ''en_US.UTF-8''"
    by (simp add: e k)
  from r1 p1 s1 a r2 p2 s2 b show ?thesis by blast
qed

section \<open>\<^verbatim>\<open>up\<close> without an address\<close>

lemma lxdock_up_no_address:
  assumes "ready env w" and "status_code (seen LXDock self w) \<noteq> CONTAINER_RUNNING"
    and "start_status env = CONTAINER_RUNNING" and "lxdock_ip env (polls w) = []"
  shows "lxdock_up env self mode w =
     (Inr (), (set_status CONTAINER_RUNNING (touched LXDock env self w))
        \<lparr>polls := Suc (polls w) + lxdock_ip_polls env (polls w),
         trace := trace w @ touch_events LXDock env self w
           @ [Log INFO ''Starting container...'', Start] @ lxdock_ip_events env (polls w)\<rparr>)"
  unfolding lxdock_up_touch [OF assms(1)] using assms(2,3,4)
  by (simp add: lxdock_up_def is_running_def lxdock_setup_ip_run run_simps set_status_def)

lemma nomad_up_touch:
  assumes "ready env w"
  shows "nomad_up env self w = nomad_up env self (touched Nomad env self w)"
proof -
  let ?b = "status_code (seen Nomad self w) = CONTAINER_RUNNING"
  have first: "is_running Nomad env self w = (Inr ?b, touched Nomad env self w)"
    using container_ready [OF assms, of Nomad self] by (simp add: is_running_def run_simps)
  have again: "is_running Nomad env self (touched Nomad env self w)
      = (Inr ?b, touched Nomad env self w)"
    by (simp add: is_running_def run_simps)
  show ?thesis
    by (simp only: nomad_up_def bindM_def first again prod.case sum.case)
qed

lemma shares_done_config [simp]:
  "handle w \<noteq> None \<Longrightarrow> config (the (handle (nomad_shares_done self w))) = config (the (handle w))"
  by (auto simp: nomad_shares_done_def Let_def)

lemma nomad_up_no_address:
  assumes "ready env w" and "status_code (seen Nomad self w) \<noteq> CONTAINER_RUNNING"
    and "start_status env = CONTAINER_RUNNING" and "nomad_ip env (polls w) = []"
  shows "\<exists>w'. nomad_up env self w = (Inr (), w') \<and> hosts_file w' = hosts_file w
           \<and> trace w' = trace w @ nomad_prestart_events env self w
                @ [Log INFO ''Starting container...'', Start] @ nomad_ip_events env (polls w)"
proof -
  let ?t = "touched Nomad env self w"
  define s where "s = (if opt_shares (options self) \<noteq> None
      then nomad_shares_done self (?t\<lparr>trace := trace ?t @ [Log INFO ''Setting up shares...'']\<rparr>)
      else ?t)"
  have first: "is_running Nomad env self ?t = (Inr False, ?t)"
    using assms(2) by (simp add: is_running_def run_simps)
  have p1: "(if opt_shares (options self) \<noteq> None
             then thenM (log INFO ''Setting up shares...'') (nomad_setup_shares env self)
             else return ()) ?t = (Inr (), s)"
    by (simp add: s_def run_simps nomad_setup_shares_cached)
  have s: "handle s \<noteq> None" "remote s \<noteq> None" "hosts_file s = hosts_file w" "polls s = polls w"
    "config (the (handle s)) = config (seen Nomad self w)"
    by (simp_all add: s_def del: not_None_eq)
  have ts: "trace s = trace w @ touch_events Nomad env self w
       @ (if opt_shares (options self) \<noteq> None
          then Log INFO ''Setting up shares...'' # nomad_shares_events self ?t else [])"
    by (simp add: s_def nomad_shares_done_def nomad_shares_events_def Let_def)
  have static: "has_static_ip env self s = (Inr (static_flag (seen Nomad self w)), s)"
    using s(1) s(5) by (auto simp: has_static_ip_def run_simps static_flag_def)
  have "\<exists>a. bindM (has_static_ip env self)
               (\<lambda>static. if static then assign_free_static_ip env self else return ()) s = (Inr (), a)
          \<and> handle a \<noteq> None \<and> remote a \<noteq> None \<and> hosts_file a = hosts_file w \<and> polls a = polls w
          \<and> trace a = trace s @ (if static_flag (seen Nomad self w)
               then [FindFreeIp, SetStaticIp (fst (free_ip env)) (snd (free_ip env)), Save] else [])"
  proof (cases "static_flag (seen Nomad self w)")
    case True
    from assign_free_static_ip_run [OF s(1) s(2), of env self] obtain a where
      "assign_free_static_ip env self s = (Inr (), a)" "handle a \<noteq> None" "remote a \<noteq> None"
      "hosts_file a = hosts_file s" "polls a = polls s"
      "trace a = trace s @ [FindFreeIp, SetStaticIp (fst (free_ip env)) (snd (free_ip env)), Save]"
      by blast
    with True s show ?thesis by (simp add: bindM_def static del: not_None_eq)
  next
    case False
    with s show ?thesis by (simp add: bindM_def static return_def del: not_None_eq)
  qed
  then obtain a where p2: "bindM (has_static_ip env self)
               (\<lambda>static. if static then assign_free_static_ip env self else return ()) s = (Inr (), a)"
    and a: "handle a \<noteq> None" "remote a \<noteq> None" "hosts_file a = hosts_file w" "polls a = polls w"
    and ta: "trace a = trace s @ (if static_flag (seen Nomad self w)
               then [FindFreeIp, SetStaticIp (fst (free_ip env)) (snd (free_ip env)), Save] else [])"
    by blast
  define b where "b = set_status CONTAINER_RUNNING
      (a\<lparr>trace := trace a @ [Log INFO ''Starting container...'', Start]\<rparr>)"
  have p3: "container_start Nomad env self (a\<lparr>trace := trace a @ [Log INFO ''Starting container...'']\<rparr>)
      = (Inr (), b)"
    using a assms(3) by (simp add: b_def del: not_None_eq)
  have b: "handle b \<noteq> None" "remote b \<noteq> None" "hosts_file b = hosts_file w" "polls b = polls w"
    "trace b = trace a @ [Log INFO ''Starting container...'', Start]"
    using a by (simp_all add: b_def set_status_def del: not_None_eq)
  have p4: "is_running Nomad env self b = (Inr True, b)"
    using a(1) by (auto simp: is_running_def run_simps b_def set_status_def)
  from nomad_setup_ip_run [OF b(1) b(2), of env self] assms(4) b(4) obtain w' where
    p5: "nomad_setup_ip env self b = (Inr [], w')"
    and w': "hosts_file w' = hosts_file b" "trace w' = trace b @ nomad_ip_events env (polls w)"
    by auto
  have "nomad_up env self ?t = (Inr (), w')"
    by (simp only: nomad_up_def bindM_def [of "is_running Nomad env self"]
        bindM_def [of "nomad_setup_ip env self"] thenM_run seq.simps first p1 p2 p3 p4 p5
        log_run prod.case sum.case if_False if_True not_False_eq_True not_True_eq_False
        return_def simp_thms)
  moreover have "trace w' = trace w @ nomad_prestart_events env self w
                @ [Log INFO ''Starting container...'', Start] @ nomad_ip_events env (polls w)"
    by (simp add: w' b ta ts nomad_prestart_events_def)
  ultimately show ?thesis
    unfolding nomad_up_touch [OF assms(1)] using w'(1) b(3) by simp
qed

lemma no_setup_in_polls [simp]: "filter setup_step (poll_events n) = []"
  by (induction n)
     (simp_all add: poll_events_def setup_step_def guest_command_def acl_grant_def
        provisioning_event_def)

lemma no_setup_in_touch [simp]: "filter setup_step (touch_events v env self w) = []"
  by (simp add: touch_events_def creation_events_def setup_step_def guest_command_def
      acl_grant_def provisioning_event_def split: option.splits)

lemma no_setup_in_lxdock_ip [simp]: "filter setup_step (lxdock_ip_events env p) = []"
  by (simp add: lxdock_ip_events_def give_up_events_def setup_step_def guest_command_def
      acl_grant_def provisioning_event_def)

lemma nomad_ip_none: "nomad_ip env p = [] \<Longrightarrow> ip_at env p = [] \<and> first_ip env (Suc p) 10 = []"
  by (simp add: nomad_ip_def split: if_splits)

lemma setup_in_nomad_ip:
  assumes "nomad_ip env p = []"
  shows "filter setup_step (nomad_ip_events env p)
           = [SetStaticIp (fst (free_ip env)) (snd (free_ip env)), Save]"
  using nomad_ip_none [OF assms] assms
  by (simp add: nomad_ip_events_def fallback_cycle_def give_up_events_def setup_step_def
      guest_command_def acl_grant_def provisioning_event_def)

lemma never_answers:
  "ip_at (example_env never) p = []" "first_ip (example_env never) p n = []"
  "polls_until (example_env never) p n = n"
proof -
  show a: "ip_at (example_env never) p = []" for p by (simp add: example_env_def never_def)
  then have "first_ip (example_env never) p n = [] \<and> polls_until (example_env never) p n = n"
    by (intro first_ip_none) simp
  then show "first_ip (example_env never) p n = []" "polls_until (example_env never) p n = n"
    by simp_all
qed

lemma never_ip:
  "lxdock_ip (example_env never) p = []" "nomad_ip (example_env never) p = []"
  by (simp_all add: lxdock_ip_def nomad_ip_def never_answers)

lemma absent_ready: "ready (example_env ips) absent_world"
  "status_code (seen v self absent_world) = CONTAINER_STOPPED"
  "start_status (example_env ips) = CONTAINER_RUNNING" "polls absent_world = 0"
  "trace absent_world = []" "hosts_file absent_world = Map.empty"
  by (simp_all add: ready_def absent_world_def example_env_def seen_def fresh_container_def)

lemma events_of_absent [simp]: "events_of absent_world w = trace w"
  by (simp add: events_of_def absent_world_def)

text \<open>
  C10 as stated: when the IP acquisition of \<^verbatim>\<open>up\<close> returns no address, no share
  reconciliation is performed in that run. In nomad the reconciliation comes before the
  start: the example project, brought up by nomad on a host where the container never
  gets an address, has its share installed, granted and saved before the container is
  started, and \<^verbatim>\<open>up\<close> then returns normally without an address.
\<close>

theorem nomad_up_reconciles_before_start:
  "nomad_ip (example_env never) 0 = []
   \<and> (\<exists>w'. nomad_up (example_env never) example_self absent_world = (Inr (), w')
          \<and> events_of absent_world w'
              = creation_events Nomad (example_env never) example_self
                @ [Log INFO ''Setting up shares...'',
                   Log INFO ''Setting host-side ACL for /home/me/demo/.'',
                   AclCurrentUser ''/home/me/demo/.'',
                   AclMappedUser ''/home/me/demo/.'' None,
                   Save,
                   Log INFO ''Starting container...'', Start]
                @ nomad_ip_events (example_env never) 0)"
proof -
  let ?env = "example_env never"
  have pre: "nomad_prestart_events ?env example_self absent_world
      = creation_events Nomad ?env example_self
        @ [Log INFO ''Setting up shares...'',
           Log INFO ''Setting host-side ACL for /home/me/demo/.'',
           AclCurrentUser ''/home/me/demo/.'',
           AclMappedUser ''/home/me/demo/.'' None, Save]"
    by (simp add: nomad_prestart_events_def touch_events_def absent_world_def
        nomad_shares_events_def nomad_acl_events_def seen_def fresh_container_def
        created_config_def static_flag_def privileged_config_def sources_of_def
        example_self_def example_options_def joined_def path_join_def product_def
        update_conv')
  from nomad_up_no_address [OF absent_ready(1) _ absent_ready(3), of example_self never]
  obtain w' where "nomad_up ?env example_self absent_world = (Inr (), w')"
    and "trace w' = trace absent_world @ nomad_prestart_events ?env example_self absent_world
                @ [Log INFO ''Starting container...'', Start] @ nomad_ip_events ?env (polls absent_world)"
    by (auto simp: absent_ready never_ip)
  then show ?thesis
    by (simp add: never_ip pre absent_ready)
qed

text \<open>
  C10 as amended: when the IP acquisition of \<^verbatim>\<open>up\<close> returns no address, \<^verbatim>\<open>up\<close> returns
  normally and does nothing after the IP acquisition: the resolution file is as before,
  nothing is provisioned. In lxdock the run then consists of the lookup or creation of
  the container, the start and the address queries: no hostname binding, no guest-user
  creation, no share reconciliation and no override application, and the configuration
  and the devices of the container are as found. In nomad the run consists of the
  steps before the start (the lookup or creation, the share reconciliation when shares are
  declared, a static address for a container flagged so), the start, and the IP
  acquisition, whose static-IP fallback is the only step after the start that commands
  the guest and saves the container.
\<close>

theorem up_without_address:
  assumes "ready env w" and "start_status env = CONTAINER_RUNNING"
  shows
   "(status_code (seen LXDock self w) \<noteq> CONTAINER_RUNNING \<and> lxdock_ip env (polls w) = [] \<longrightarrow>
       (\<exists>w'. lxdock_up env self mode w = (Inr (), w')
          \<and> hosts_file w' = hosts_file w
          \<and> events_of w w' = touch_events LXDock env self w
               @ [Log INFO ''Starting container...'', Start] @ lxdock_ip_events env (polls w)
          \<and> filter setup_step (events_of w w') = []
          \<and> map_option config (remote w') = map_option config (remote (touched LXDock env self w))
          \<and> map_option devices (remote w') = map_option devices (remote (touched LXDock env self w))))
  \<and> (status_code (seen Nomad self w) \<noteq> CONTAINER_RUNNING \<and> nomad_ip env (polls w) = [] \<longrightarrow>
       (\<exists>w'. nomad_up env self w = (Inr (), w')
          \<and> hosts_file w' = hosts_file w
          \<and> events_of w w' = nomad_prestart_events env self w
               @ [Log INFO ''Starting container...'', Start] @ nomad_ip_events env (polls w)
          \<and> filter provisioning_event (events_of w w') = []
          \<and> filter setup_step (nomad_ip_events env (polls w))
               = [SetStaticIp (fst (free_ip env)) (snd (free_ip env)), Save]))"
proof (intro conjI impI)
  assume h: "status_code (seen LXDock self w) \<noteq> CONTAINER_RUNNING \<and> lxdock_ip env (polls w) = []"
  let ?w' = "(set_status CONTAINER_RUNNING (touched LXDock env self w))
        \<lparr>polls := Suc (polls w) + lxdock_ip_polls env (polls w),
         trace := trace w @ touch_events LXDock env self w
           @ [Log INFO ''Starting container...'', Start] @ lxdock_ip_events env (polls w)\<rparr>"
  have run: "lxdock_up env self mode w = (Inr (), ?w')"
    using h by (intro lxdock_up_no_address assms) simp_all
  have ev: "events_of w ?w' = touch_events LXDock env self w
               @ [Log INFO ''Starting container...'', Start] @ lxdock_ip_events env (polls w)"
    by (simp add: events_of_def)
  have "hosts_file ?w' = hosts_file w" by (simp add: set_status_def)
  moreover have "filter setup_step (events_of w ?w') = []"
    unfolding ev by (simp add: setup_step_def guest_command_def acl_grant_def provisioning_event_def)
  moreover have "map_option config (remote ?w') = map_option config (remote (touched LXDock env self w))"
    "map_option devices (remote ?w') = map_option devices (remote (touched LXDock env self w))"
    by (simp_all add: set_status_def)
  ultimately show "\<exists>w'. lxdock_up env self mode w = (Inr (), w')
          \<and> hosts_file w' = hosts_file w
          \<and> events_of w w' = touch_events LXDock env self w
               @ [Log INFO ''Starting container...'', Start] @ lxdock_ip_events env (polls w)
          \<and> filter setup_step (events_of w w') = []
          \<and> map_option config (remote w') = map_option config (remote (touched LXDock env self w))
          \<and> map_option devices (remote w') = map_option devices (remote (touched LXDock env self w))"
    unfolding run using ev by blast
next
  assume h: "status_code (seen Nomad self w) \<noteq> CONTAINER_RUNNING \<and> nomad_ip env (polls w) = []"
  then have h': "status_code (seen Nomad self w) \<noteq> CONTAINER_RUNNING" "nomad_ip env (polls w) = []"
    by simp_all
  from nomad_up_no_address [OF assms(1) h'(1) assms(2) h'(2)]
  obtain w' where run: "nomad_up env self w = (Inr (), w')" and hosts: "hosts_file w' = hosts_file w"
    and tr: "trace w' = trace w @ nomad_prestart_events env self w
                @ [Log INFO ''Starting container...'', Start] @ nomad_ip_events env (polls w)"
    by blast
  have ev: "events_of w w' = nomad_prestart_events env self w
               @ [Log INFO ''Starting container...'', Start] @ nomad_ip_events env (polls w)"
    by (simp add: events_of_def tr)
  have ip: "ip_at env (polls w) = []" "first_ip env (Suc (polls w)) 10 = []"
    using nomad_ip_none [OF h'(2)] by simp_all
  have "filter provisioning_event (nomad_ip_events env (polls w)) = []"
    using ip h'(2)
    by (simp add: nomad_ip_events_def fallback_cycle_def give_up_events_def provisioning_event_def)
  moreover have "filter provisioning_event (nomad_prestart_events env self w) = []"
    by (simp add: nomad_prestart_events_def nomad_shares_events_def provisioning_event_def)
  ultimately have quiet: "filter provisioning_event (events_of w w') = []"
    unfolding ev by (simp add: provisioning_event_def)
  from run hosts ev quiet setup_in_nomad_ip [OF h'(2)]
  show "\<exists>w'. nomad_up env self w = (Inr (), w')
          \<and> hosts_file w' = hosts_file w
          \<and> events_of w w' = nomad_prestart_events env self w
               @ [Log INFO ''Starting container...'', Start] @ nomad_ip_events env (polls w)
          \<and> filter provisioning_event (events_of w w') = []
          \<and> filter setup_step (nomad_ip_events env (polls w))
               = [SetStaticIp (fst (free_ip env)) (snd (free_ip env)), Save]"
    by blast
qed

theorem up_without_address_witness:
  "ready (example_env never) absent_world
   \<and> start_status (example_env never) = CONTAINER_RUNNING
   \<and> status_code (seen LXDock example_self absent_world) = CONTAINER_STOPPED
   \<and> status_code (seen Nomad example_self absent_world) = CONTAINER_STOPPED
   \<and> lxdock_ip (example_env never) (polls absent_world) = []
   \<and> nomad_ip (example_env never) (polls absent_world) = []
   \<and> (\<exists>w'. lxdock_up (example_env never) example_self None absent_world = (Inr (), w')
          \<and> hosts_file w' = Map.empty
          \<and> filter setup_step (events_of absent_world w') = []
          \<and> map_option devices (remote w') = Some [])
   \<and> (\<exists>w'. nomad_up (example_env never) example_self absent_world = (Inr (), w')
          \<and> hosts_file w' = Map.empty
          \<and> filter provisioning_event (events_of absent_world w') = []
          \<and> filter setup_step (nomad_ip_events (example_env never) (polls absent_world))
               = [SetStaticIp ''10.0.3.100'' ''10.0.3.1'', Save])"
proof -
  let ?env = "example_env never"
  have free: "free_ip ?env = (''10.0.3.100'', ''10.0.3.1'')" by (simp add: example_env_def)
  have fresh: "map_option devices (remote (touched LXDock ?env example_self absent_world)) = Some []"
    by (simp add: absent_world_def fresh_container_def)
  have s: "status_code (seen LXDock example_self absent_world) \<noteq> CONTAINER_RUNNING"
    "status_code (seen Nomad example_self absent_world) \<noteq> CONTAINER_RUNNING"
    by (simp_all add: absent_ready)
  note inst = up_without_address [OF absent_ready(1) [of never] absent_ready(3) [of never],
      where self = example_self and mode = None]
  from inst s(1) never_ip(1) obtain w1 where
    a1: "lxdock_up ?env example_self None absent_world = (Inr (), w1)"
    and a2: "hosts_file w1 = hosts_file absent_world"
    and a3: "filter setup_step (events_of absent_world w1) = []"
    and a4: "map_option devices (remote w1)
               = map_option devices (remote (touched LXDock ?env example_self absent_world))"
    by blast
  have a: "\<exists>w'. lxdock_up ?env example_self None absent_world = (Inr (), w')
          \<and> hosts_file w' = Map.empty
          \<and> filter setup_step (events_of absent_world w') = []
          \<and> map_option devices (remote w') = Some []"
    using a1 a2 a3 a4 unfolding fresh absent_ready(6) by blast
  from inst s(2) never_ip(2) obtain w2 where
    b1: "nomad_up ?env example_self absent_world = (Inr (), w2)"
    and b2: "hosts_file w2 = hosts_file absent_world"
    and b3: "filter provisioning_event (events_of absent_world w2) = []"
    and b4: "filter setup_step (nomad_ip_events ?env (polls absent_world))
               = [SetStaticIp (fst (free_ip ?env)) (snd (free_ip ?env)), Save]"
    by blast
  have b: "\<exists>w'. nomad_up ?env example_self absent_world = (Inr (), w')
          \<and> hosts_file w' = Map.empty
          \<and> filter provisioning_event (events_of absent_world w') = []
          \<and> filter setup_step (nomad_ip_events ?env (polls absent_world))
               = [SetStaticIp ''10.0.3.100'' ''10.0.3.1'', Save]"
    using b1 b2 b3 b4 unfolding free absent_ready(6) fst_conv snd_conv by blast
  have c: "status_code (seen LXDock example_self absent_world) = CONTAINER_STOPPED"
    "status_code (seen Nomad example_self absent_world) = CONTAINER_STOPPED"
    by (rule absent_ready(2))+
  from absent_ready(1) [of never] absent_ready(3) [of never] c
    never_ip(1) [of "polls absent_world"] never_ip(2) [of "polls absent_world"] a b
  show ?thesis by blast
qed

end
